theory Spec2Isabelle
  imports Main "HOL-Library.Sublist" "HOL-Library.Multiset"
begin

section \<open>JavaScript strings\<close>

text \<open>
  A JavaScript string is a sequence of UTF-16 code units. A code unit is modelled by its
  number, so that the check mark U+2713 and the Unicode white space of \<open>trim\<close> and
  \<open>\s\<close> are single elements, as they are for the regular expressions of the source
  (none of which has the \<open>u\<close> flag). ASCII literals are written through \<open>js\<close>.
\<close>

type_synonym jschar = nat
type_synonym jsstring = "jschar list"

definition js :: "string \<Rightarrow> jsstring" where
  "js s = map of_char s"

definition NL :: jschar where
  "NL = 10"

definition STAR :: jschar where
  \<comment> \<open>the asterisk\<close>
  "STAR = 42"

definition CHECK :: jschar where
  \<comment> \<open>U+2713, the check mark of \<open>endsWith\<close> and of the marker pattern\<close>
  "CHECK = 10003"

definition isSpace :: "jschar \<Rightarrow> bool" where
  \<comment> \<open>ECMAScript WhiteSpace and LineTerminator: what \<open>\s\<close> matches and \<open>trim\<close> removes\<close>
  "isSpace c \<longleftrightarrow>
     c = 9 \<or> c = 10 \<or> c = 11 \<or> c = 12 \<or> c = 13 \<or> c = 32 \<or> c = 160 \<or> c = 5760 \<or>
     (8192 \<le> c \<and> c \<le> 8202) \<or> c = 8232 \<or> c = 8233 \<or> c = 8239 \<or> c = 8287 \<or>
     c = 12288 \<or> c = 65279"

definition isDigit :: "jschar \<Rightarrow> bool" where
  \<comment> \<open>\<open>\d\<close>: the ASCII digits\<close>
  "isDigit c \<longleftrightarrow> 48 \<le> c \<and> c \<le> 57"

definition isOptionLabel :: "jschar \<Rightarrow> bool" where
  \<comment> \<open>the class \<open>[A-Da-d0-9]\<close>\<close>
  "isOptionLabel c \<longleftrightarrow> (65 \<le> c \<and> c \<le> 68) \<or> (97 \<le> c \<and> c \<le> 100) \<or> (48 \<le> c \<and> c \<le> 57)"

definition isDotOrParen :: "jschar \<Rightarrow> bool" where
  \<comment> \<open>the class \<open>[\.\)]\<close>\<close>
  "isDotOrParen c \<longleftrightarrow> c = 46 \<or> c = 41"

definition trim :: "jsstring \<Rightarrow> jsstring" where
  \<comment> \<open>\<open>String.prototype.trim\<close>\<close>
  "trim s = rev (dropWhile isSpace (rev (dropWhile isSpace s)))"

fun js_includes :: "jsstring \<Rightarrow> jsstring \<Rightarrow> bool" where
  \<comment> \<open>\<open>s.includes(p)\<close>, written \<open>js_includes p s\<close>\<close>
  "js_includes p [] = (p = [])"
| "js_includes p (c # cs) = (prefix p (c # cs) \<or> js_includes p cs)"

definition endsWith :: "jsstring \<Rightarrow> jsstring \<Rightarrow> bool" where
  \<comment> \<open>\<open>s.endsWith(p)\<close>, written \<open>endsWith p s\<close>\<close>
  "endsWith p s = suffix p s"

fun splitOn :: "jschar \<Rightarrow> jsstring \<Rightarrow> jsstring list" where
  \<comment> \<open>\<open>s.split(c)\<close> for a separator of one code unit; the empty string gives one empty piece\<close>
  "splitOn c [] = [[]]"
| "splitOn c (x # xs) =
     (if x = c then [] # splitOn c xs
      else let pieces = splitOn c xs in (x # hd pieces) # tl pieces)"

fun decimal :: "nat \<Rightarrow> jsstring" where
  \<comment> \<open>a non-negative integer inside a template literal\<close>
  "decimal n = (if n < 10 then [48 + n] else decimal (n div 10) @ [48 + n mod 10])"

declare decimal.simps [simp del]

subsection \<open>The anchored patterns of the parser\<close>

text \<open>
  Three of the source's regular expressions are sequences of character classes, each taken
  once, zero or more times, or one or more times. \<open>matchHere\<close> matches such a sequence at the
  start of a string the way a backtracking engine does: a repetition first takes as many code
  units as it can and gives them back one at a time while the rest of the pattern fails. It
  returns what is left of the string after the first match found in that order. The functions
  that the parser is written with below are stated directly, and are proved further down to
  compute what \<open>matchHere\<close> computes on the source's patterns.
\<close>

datatype atom = One "jschar \<Rightarrow> bool" | Many0 "jschar \<Rightarrow> bool" | Many1 "jschar \<Rightarrow> bool"

fun matchHere :: "atom list \<Rightarrow> jsstring \<Rightarrow> jsstring option" where
  "matchHere [] s = Some s"
| "matchHere (One p # as) [] = None"
| "matchHere (One p # as) (c # cs) = (if p c then matchHere as cs else None)"
| "matchHere (Many0 p # as) [] = matchHere as []"
| "matchHere (Many0 p # as) (c # cs) =
     (if p c
      then (case matchHere (Many0 p # as) cs of
              Some rest \<Rightarrow> Some rest
            | None \<Rightarrow> matchHere as (c # cs))
      else matchHere as (c # cs))"
| "matchHere (Many1 p # as) [] = None"
| "matchHere (Many1 p # as) (c # cs) = (if p c then matchHere (Many0 p # as) cs else None)"

definition separator :: "atom list" where
  \<comment> \<open>\<open>/\n\s*\n+/\<close>\<close>
  "separator = [One (\<lambda>x. x = NL), Many0 isSpace, Many1 (\<lambda>x. x = NL)]"

definition questionNumber :: "atom list" where
  \<comment> \<open>\<open>/^\d+[\.\)]\s*/\<close>\<close>
  "questionNumber = [Many1 isDigit, One isDotOrParen, Many0 isSpace]"

definition optionLabel :: "atom list" where
  \<comment> \<open>\<open>/^[A-Da-d0-9][\.\)]\s*/\<close>\<close>
  "optionLabel = [One isOptionLabel, One isDotOrParen, Many0 isSpace]"

section \<open>The bulk question parser\<close>

subsection \<open>Data\<close>

record question =
  qid :: jsstring
  qtext :: jsstring
  options :: "jsstring list"
  correctAnswer :: nat

datatype exn =
    Error jsstring
  | TypeError
  | SyntaxError
  | DOMException
  | PostgrestError
  | FetchError

record page_state =
  bulkText :: jsstring
  questions :: "question list"
  showParsingPreview :: bool
  parsingError :: "jsstring option"

subsection \<open>Splitting the text into blocks\<close>

text \<open>
  \<open>matchSep s\<close> is the length of the match of \<open>/\n\s*\n+/\<close> at the start of \<open>s\<close>, if there
  is one. The match needs a newline first. The greedy \<open>\s*\<close> then takes the whole run of
  white space that follows and gives code units back until \<open>\n+\<close> finds a newline, which is
  the last newline of that run; no newline follows it inside the run, so \<open>\n+\<close> takes
  exactly that one. The match therefore ends just after the last newline of the run.
\<close>

definition matchSep :: "jsstring \<Rightarrow> nat option" where
  "matchSep s =
     (case s of
        [] \<Rightarrow> None
      | c # rest \<Rightarrow>
          if c \<noteq> NL then None
          else let w = takeWhile isSpace rest in
            if NL \<in> set w
            then Some (1 + (length w - length (takeWhile (\<lambda>x. x \<noteq> NL) (rev w))))
            else None)"

text \<open>
  \<open>text.split(/\n\s*\n+/)\<close>: the separator is looked for at every position from left to
  right; the pattern never matches the empty string, so every match ends a piece and the
  search goes on after it.
\<close>

function splitBlocks :: "jsstring \<Rightarrow> jsstring list" where
  "splitBlocks [] = [[]]"
| "splitBlocks (c # cs) =
     (case matchSep (c # cs) of
        Some n \<Rightarrow> [] # splitBlocks (drop n (c # cs))
      | None \<Rightarrow> let pieces = splitBlocks cs in (c # hd pieces) # tl pieces)"
  by pat_completeness auto
termination
  by (relation "measure length")
    (auto simp: matchSep_def Let_def split: list.splits if_splits)

definition questionBlocks :: "jsstring \<Rightarrow> jsstring list" where
  \<comment> \<open>\<open>bulkText.split(/\n\s*\n+/).filter(block => block.trim().length > 0)\<close>\<close>
  "questionBlocks t = filter (\<lambda>block. length (trim block) > 0) (splitBlocks t)"

definition blockLines :: "jsstring \<Rightarrow> jsstring list" where
  \<comment> \<open>\<open>block.split('\n').map(line => line.trim()).filter(line => line.length > 0)\<close>\<close>
  "blockLines block = filter (\<lambda>line. length line > 0) (map trim (splitOn NL block))"

subsection \<open>One block\<close>

definition stripQuestionNumber :: "jsstring \<Rightarrow> jsstring" where
  \<comment> \<open>\<open>line.replace(/^\d+[\.\)]\s*/, '')\<close>: the longest run of digits, then a dot or a
      closing parenthesis (giving digits back cannot help: a digit is neither), then the
      white space that follows\<close>
  "stripQuestionNumber line =
     (let rest = dropWhile isDigit line in
      if takeWhile isDigit line \<noteq> [] \<and> rest \<noteq> [] \<and> isDotOrParen (hd rest)
      then dropWhile isSpace (tl rest)
      else line)"

definition stripOptionLabel :: "jsstring \<Rightarrow> jsstring" where
  \<comment> \<open>\<open>line.replace(/^[A-Da-d0-9][\.\)]\s*/, '')\<close>\<close>
  "stripOptionLabel line =
     (case line of
        c1 # c2 # rest \<Rightarrow>
          if isOptionLabel c1 \<and> isDotOrParen c2 then dropWhile isSpace rest else line
      | _ \<Rightarrow> line)"

definition hasMarker :: "jsstring \<Rightarrow> bool" where
  \<comment> \<open>the test of the marker loop\<close>
  "hasMarker opt \<longleftrightarrow>
     js_includes (js ''(correct)'') opt \<or> js_includes [STAR] opt \<or> endsWith [CHECK] opt"

fun removeMarkers :: "jsstring \<Rightarrow> jsstring" where
  \<comment> \<open>\<open>opt.replace(/\(correct\)|\*|U+2713/g, '')\<close>: one pass from the left; at each position
      the alternatives are tried in order, a match is dropped and the pass goes on after it\<close>
  "removeMarkers [] = []"
| "removeMarkers (c # cs) =
     (if prefix (js ''(correct)'') (c # cs) then removeMarkers (drop 8 cs)
      else if c = STAR then removeMarkers cs
      else if c = CHECK then removeMarkers cs
      else c # removeMarkers cs)"

text \<open>
  The marker loop: \<open>i\<close> runs over the indices of \<open>options\<close>; the first option with a
  marker sets \<open>correctAnswer\<close>, is rewritten in place, and ends the loop. The default 0
  stays when the loop runs to the end.
\<close>

function findCorrect :: "nat \<Rightarrow> jsstring list \<Rightarrow> nat \<times> jsstring list" where
  "findCorrect i opts =
     (if i < length opts
      then (if hasMarker (opts ! i)
            then (i, opts[i := trim (removeMarkers (opts ! i))])
            else findCorrect (i + 1) opts)
      else (0, opts))"
  by pat_completeness auto
termination
  by (relation "measure (\<lambda>(i, opts). length opts - i)") auto

declare findCorrect.simps [simp del]

definition extractOptions :: "jsstring list \<Rightarrow> jsstring list" where
  \<comment> \<open>\<open>lines.slice(1, 5).map(line => line.replace(...).trim())\<close>\<close>
  "extractOptions lines = map (\<lambda>line. trim (stripOptionLabel line)) (take 4 (drop 1 lines))"

definition tooFewLines :: "nat \<Rightarrow> jsstring" where
  "tooFewLines index =
     js ''Question block '' @ decimal (index + 1) @
     js '' does not have enough lines for a question and 4 options''"

definition parseBlock :: "(nat \<Rightarrow> nat) \<Rightarrow> nat \<Rightarrow> jsstring \<Rightarrow> exn + question" where
  \<comment> \<open>the body of the \<open>forEach\<close>; \<open>now index\<close> is what \<open>Date.now()\<close> returns in that call\<close>
  "parseBlock now index block =
     (let lines = blockLines block in
      if length lines < 5 then Inl (Error (tooFewLines index))
      else
        let questionText = trim (stripQuestionNumber (lines ! 0));
            opts = extractOptions lines;
            (correct, opts') = findCorrect 0 opts
        in Inr \<lparr> qid = js ''q'' @ decimal (now index) @ js ''-'' @ decimal index,
                 qtext = questionText,
                 options = opts',
                 correctAnswer = correct \<rparr>)"

subsection \<open>The whole text\<close>

fun parseBlocks :: "(nat \<Rightarrow> nat) \<Rightarrow> nat \<Rightarrow> jsstring list \<Rightarrow> exn + question list" where
  \<comment> \<open>\<open>questionBlocks.forEach((block, index) => ...)\<close> from \<open>index\<close> on: the first block that
      throws ends the loop\<close>
  "parseBlocks now index [] = Inr []"
| "parseBlocks now index (block # blocks) =
     (case parseBlock now index block of
        Inl e \<Rightarrow> Inl e
      | Inr q \<Rightarrow>
          (case parseBlocks now (index + 1) blocks of
             Inl e \<Rightarrow> Inl e
           | Inr qs \<Rightarrow> Inr (q # qs)))"

definition parseText :: "(nat \<Rightarrow> nat) \<Rightarrow> jsstring \<Rightarrow> exn + question list" where
  \<comment> \<open>the \<open>try\<close> block of \<open>parseQuestionsFromText\<close>\<close>
  "parseText now t =
     (case parseBlocks now 0 (questionBlocks t) of
        Inl e \<Rightarrow> Inl e
      | Inr parsedQuestions \<Rightarrow>
          if length parsedQuestions = 0
          then Inl (Error (js ''No valid questions could be parsed from the text''))
          else Inr parsedQuestions)"

definition parseQuestionsFromText :: "(nat \<Rightarrow> nat) \<Rightarrow> page_state \<Rightarrow> page_state" where
  "parseQuestionsFromText now s =
     (let s1 = s\<lparr> parsingError := None \<rparr> in
      if trim (bulkText s) = []
      then s1\<lparr> parsingError := Some (js ''Please enter some text to parse'') \<rparr>
      else
        (case parseText now (bulkText s) of
           Inr parsedQuestions \<Rightarrow>
             s1\<lparr> questions := parsedQuestions, showParsingPreview := True \<rparr>
         | Inl (Error message) \<Rightarrow> s1\<lparr> parsingError := Some message \<rparr>
         | Inl _ \<Rightarrow>
             s1\<lparr> parsingError :=
                   Some (js ''Failed to parse questions. Please check the format and try again.'') \<rparr>))"

section \<open>The quiz service: remote store first, browser storage as fallback\<close>

subsection \<open>Data\<close>

record quiz =
  quiz_id :: jsstring
  title :: jsstring
  description :: jsstring
  quizQuestions :: "question list"
  createdAt :: jsstring
  updatedAt :: jsstring
  author :: "jsstring option"
  category :: "jsstring option"
  timeLimit :: "nat option"

text \<open>What \<open>createQuiz\<close> is given: a quiz without id and time stamps.\<close>

record new_quiz =
  newTitle :: jsstring
  newDescription :: jsstring
  newQuestions :: "question list"
  newCategory :: "jsstring option"
  newTimeLimit :: "nat option"

text \<open>What \<open>saveQuizResult\<close> is given.\<close>

record quiz_result =
  quizId :: jsstring
  score :: int
  totalQuestions :: int
  timeTaken :: int
  completedAt :: jsstring
  userName :: "jsstring option"
  answers :: "(jsstring \<times> int) list option"

text \<open>An entry of the history list kept in the browser, as \<open>saveQuizResult\<close> pushes it.\<close>

record local_result =
  lr_id :: jsstring
  lr_quizId :: jsstring
  lr_userName :: jsstring
  lr_score :: int
  lr_totalQuestions :: int
  lr_timeTaken :: int
  lr_completedAt :: jsstring
  lr_answers :: "(jsstring \<times> int) list"

text \<open>
  An entry of what \<open>getQuizHistory\<close> returns. The entries made from remote rows have no
  \<open>answers\<close> field; the local ones are the stored entry spread out, with \<open>quizTitle\<close> and
  \<open>category\<close> added. A \<open>category\<close> that is \<open>null\<close> or \<open>undefined\<close> is \<open>None\<close>.
\<close>

record history_entry =
  h_id :: jsstring
  h_quizId :: jsstring
  h_quizTitle :: jsstring
  h_userName :: jsstring
  h_score :: int
  h_totalQuestions :: int
  h_timeTaken :: int
  h_completedAt :: jsstring
  h_category :: "jsstring option"
  h_answers :: "(jsstring \<times> int) list option"

subsection \<open>The remote store\<close>

text \<open>
  A call of the remote client either rejects (the \<open>await\<close> throws) or resolves to an object
  with the fields \<open>data\<close> and \<open>error\<close>. The code tests \<open>error\<close> first and \<open>data\<close> after it, so
  both are kept. What the remote store answers is not decided by this program: every call is
  a field of \<open>remote\<close>, a function of what the code sends.
\<close>

datatype 'a response = Rejected exn | Resolved "'a option" "exn option"

record quiz_row =
  row_id :: jsstring
  row_title :: jsstring
  row_description :: jsstring
  row_created_at :: jsstring
  row_updated_at :: jsstring
  row_category :: "jsstring option"
  row_time_limit :: "nat option"
  row_author_id :: "jsstring option"

record quiz_with_questions = quiz_row +
  row_questions :: "question list option"

record quiz_insert =
  ins_title :: jsstring
  ins_description :: jsstring
  ins_category :: "jsstring option"
  ins_time_limit :: "nat option"
  ins_author_id :: "jsstring option"

record question_insert =
  qi_quiz_id :: jsstring
  qi_text :: jsstring
  qi_options :: "jsstring list"
  qi_correct_answer :: nat
  qi_position :: nat

record result_insert =
  ri_quiz_id :: jsstring
  ri_user_id :: "jsstring option"
  ri_user_name :: jsstring
  ri_score :: int
  ri_total_questions :: int
  ri_time_taken :: int
  ri_completed_at :: jsstring
  ri_answers :: "(jsstring \<times> int) list option"

record result_row =
  rr_id :: jsstring
  rr_quiz_id :: jsstring
  rr_user_name :: "jsstring option"
  rr_score :: int
  rr_total_questions :: int
  rr_time_taken :: int
  rr_completed_at :: jsstring
  rr_quizzes :: "(jsstring \<times> jsstring option) option"

record remote =
  select_quizzes :: "quiz_row list response"
  rpc_get_quiz_with_questions :: "jsstring \<Rightarrow> quiz_with_questions response"
  auth_getUser :: "exn + jsstring option"
  insert_quiz :: "quiz_insert \<Rightarrow> jsstring response"
  insert_questions :: "question_insert list \<Rightarrow> unit response"
  insert_quiz_result :: "result_insert \<Rightarrow> jsstring response"
  select_quiz_results :: "result_row list response"

definition orThrow :: "'a response \<Rightarrow> exn + 'a option" where
  \<comment> \<open>\<open>const { data, error } = await ...; if (error) throw error;\<close> and then \<open>data\<close>\<close>
  "orThrow r =
     (case r of
        Rejected e \<Rightarrow> Inl e
      | Resolved d (Some e) \<Rightarrow> Inl e
      | Resolved d None \<Rightarrow> Inr d)"

subsection \<open>The browser's local storage\<close>

text \<open>
  The two keys hold text. The code only ever asks whether the text is there and not empty,
  parses it with \<open>JSON.parse\<close>, and uses the value as an array; so a text is modelled by what
  \<open>JSON.parse\<close> makes of it: a syntax error; a value that cannot be iterated (the text
  \<open>null\<close>, and likewise a number, a boolean or an object); a string; or an array of entries.
  On a value that is no array, \<open>push\<close>, \<open>find\<close> and \<open>map\<close> are not there, and calling them is a
  TypeError. Spreading is different: \<open>[...v]\<close> throws a TypeError for a value that cannot be
  iterated, but a string is iterated, code point by code point. The text \<open>JSON.stringify\<close>
  writes for an array parses back to that array. An absent key and the empty text are both
  falsy and are both \<open>None\<close>. Calls that only log are not modelled.
\<close>

datatype 'a stored = Unparseable | NonIterable | Quoted jsstring | Items "'a list"

datatype 'a jsvalue = Array "'a list" | Str jsstring | Other

definition JSON_parse :: "'a stored \<Rightarrow> exn + 'a jsvalue" where
  "JSON_parse t =
     (case t of
        Unparseable \<Rightarrow> Inl SyntaxError
      | NonIterable \<Rightarrow> Inr Other
      | Quoted s \<Rightarrow> Inr (Str s)
      | Items xs \<Rightarrow> Inr (Array xs))"

definition JSON_stringify :: "'a jsvalue \<Rightarrow> 'a stored" where
  "JSON_stringify v =
     (case v of Array xs \<Rightarrow> Items xs | Str s \<Rightarrow> Quoted s | Other \<Rightarrow> NonIterable)"

definition js_push :: "'a jsvalue \<Rightarrow> 'a \<Rightarrow> exn + 'a jsvalue" where
  \<comment> \<open>\<open>v.push(x)\<close>, returning the array as it is afterwards\<close>
  "js_push v x =
     (case v of
        Array xs \<Rightarrow> Inr (Array (xs @ [x]))
      | Str s \<Rightarrow> Inl TypeError
      | Other \<Rightarrow> Inl TypeError)"

definition js_find :: "('a \<Rightarrow> bool) \<Rightarrow> 'a jsvalue \<Rightarrow> exn + 'a option" where
  \<comment> \<open>\<open>v.find(p)\<close>: the first element that satisfies \<open>p\<close>\<close>
  "js_find p v =
     (case v of
        Array xs \<Rightarrow> Inr (find p xs)
      | Str s \<Rightarrow> Inl TypeError
      | Other \<Rightarrow> Inl TypeError)"

definition js_map :: "('a \<Rightarrow> 'b) \<Rightarrow> 'a jsvalue \<Rightarrow> exn + 'b list" where
  \<comment> \<open>\<open>v.map(f)\<close>\<close>
  "js_map f v =
     (case v of
        Array xs \<Rightarrow> Inr (map f xs)
      | Str s \<Rightarrow> Inl TypeError
      | Other \<Rightarrow> Inl TypeError)"

text \<open>
  The string iterator: a lead surrogate followed by a trail surrogate is one code point, of
  two code units; every other code unit, a lone surrogate too, is a code point of its own.
\<close>

definition isLeadSurrogate :: "jschar \<Rightarrow> bool" where
  "isLeadSurrogate c \<longleftrightarrow> 55296 \<le> c \<and> c \<le> 56319"

definition isTrailSurrogate :: "jschar \<Rightarrow> bool" where
  "isTrailSurrogate c \<longleftrightarrow> 56320 \<le> c \<and> c \<le> 57343"

fun codePoints :: "jsstring \<Rightarrow> jsstring list" where
  "codePoints [] = []"
| "codePoints [c] = [[c]]"
| "codePoints (c # d # cs) =
     (if isLeadSurrogate c \<and> isTrailSurrogate d then [c, d] # codePoints cs
      else [c] # codePoints (d # cs))"

text \<open>
  What a spread puts into the new array: the elements of an array, or the code points of a
  string, each a string of its own.
\<close>

datatype 'a member = Element 'a | CodePoint jsstring

definition js_spread :: "'a jsvalue \<Rightarrow> exn + 'a member list" where
  \<comment> \<open>what \<open>...v\<close> contributes inside an array literal\<close>
  "js_spread v =
     (case v of
        Array xs \<Rightarrow> Inr (map Element xs)
      | Str s \<Rightarrow> Inr (map CodePoint (codePoints s))
      | Other \<Rightarrow> Inl TypeError)"

record local_storage =
  localQuizzes :: "quiz stored option"
  quizHistory :: "local_result stored option"

text \<open>
  \<open>hasWindow\<close> is \<open>typeof window !== 'undefined'\<close>; \<open>getItemThrows\<close> and \<open>setItemThrows\<close>
  say whether \<open>localStorage.getItem\<close> and \<open>localStorage.setItem\<close> throw (storage denied, quota
  exceeded).
\<close>

record browser =
  hasWindow :: bool
  getItemThrows :: bool
  setItemThrows :: bool
  storage :: local_storage

text \<open>A key is how its text is read from and written to the storage.\<close>

type_synonym 'a key =
  "(local_storage \<Rightarrow> 'a stored option) \<times> ('a stored option \<Rightarrow> local_storage \<Rightarrow> local_storage)"

definition key_localQuizzes :: "quiz key" where
  "key_localQuizzes = (localQuizzes, \<lambda>v s. s\<lparr> localQuizzes := v \<rparr>)"

definition key_quizHistory :: "local_result key" where
  "key_quizHistory = (quizHistory, \<lambda>v s. s\<lparr> quizHistory := v \<rparr>)"

definition localStorage_getItem :: "'a key \<Rightarrow> browser \<Rightarrow> exn + 'a stored option" where
  "localStorage_getItem k b =
     (if getItemThrows b then Inl DOMException else Inr (fst k (storage b)))"

definition localStorage_setItem :: "'a key \<Rightarrow> 'a stored \<Rightarrow> browser \<Rightarrow> exn + browser" where
  "localStorage_setItem k v b =
     (if setItemThrows b then Inl DOMException
      else Inr (b\<lparr> storage := snd k (Some v) (storage b) \<rparr>))"

definition safeLocalStorage_getItem :: "'a key \<Rightarrow> browser \<Rightarrow> 'a stored option" where
  "safeLocalStorage_getItem k b =
     (if \<not> hasWindow b then None
      else (case localStorage_getItem k b of
              Inr v \<Rightarrow> v
            | Inl e \<Rightarrow> None))"

definition safeLocalStorage_setItem :: "'a key \<Rightarrow> 'a stored \<Rightarrow> browser \<Rightarrow> browser" where
  "safeLocalStorage_setItem k v b =
     (if \<not> hasWindow b then b
      else (case localStorage_setItem k v b of
              Inr b' \<Rightarrow> b'
            | Inl e \<Rightarrow> b))"

subsection \<open>getAllQuizzes\<close>

definition formatRow :: "quiz_row \<Rightarrow> quiz" where
  \<comment> \<open>the \<open>map\<close> of \<open>getAllQuizzes\<close>: no questions, no author\<close>
  "formatRow r =
     \<lparr> quiz_id = row_id r, title = row_title r, description = row_description r,
       quizQuestions = [], createdAt = row_created_at r, updatedAt = row_updated_at r,
       author = None, category = row_category r, timeLimit = row_time_limit r \<rparr>"

definition fetchQuizRows :: "remote \<Rightarrow> quiz_row list" where
  \<comment> \<open>the inner \<open>try\<close> that fills \<open>supabaseQuizzes\<close>: \<open>data || []\<close>, and \<open>[]\<close> when it throws\<close>
  "fetchQuizRows r =
     (case orThrow (select_quizzes r) of
        Inr (Some rows) \<Rightarrow> rows
      | Inr None \<Rightarrow> []
      | Inl supabaseError \<Rightarrow> [])"

definition readLocalQuizzes :: "browser \<Rightarrow> quiz jsvalue" where
  \<comment> \<open>the inner \<open>try\<close> that fills \<open>localQuizzes\<close>, here and in \<open>createQuiz\<close>: the parsed text
      when there is one, \<open>[]\<close> when there is none or \<open>JSON.parse\<close> throws\<close>
  "readLocalQuizzes b =
     (case safeLocalStorage_getItem key_localQuizzes b of
        None \<Rightarrow> Array []
      | Some savedQuizzes \<Rightarrow>
          (case JSON_parse savedQuizzes of
             Inr v \<Rightarrow> v
           | Inl e \<Rightarrow> Array []))"

definition getAllQuizzes :: "remote \<Rightarrow> browser \<Rightarrow> exn + quiz member list" where
  \<comment> \<open>\<open>[...formattedSupabaseQuizzes, ...localQuizzes]\<close>, and \<open>[]\<close> from the outer \<open>catch\<close>\<close>
  "getAllQuizzes r b =
     (let supabaseQuizzes = fetchQuizRows r;
          localList = readLocalQuizzes b;
          formattedSupabaseQuizzes = map formatRow supabaseQuizzes
      in case js_spread localList of
           Inr locals \<Rightarrow> Inr (map Element formattedSupabaseQuizzes @ locals)
         | Inl error \<Rightarrow> Inr [])"

subsection \<open>getQuizById\<close>

definition formatQuiz :: "quiz_with_questions \<Rightarrow> quiz" where
  \<comment> \<open>the object \<open>getQuizById\<close> builds from the remote data; \<open>data.questions || []\<close>\<close>
  "formatQuiz d =
     \<lparr> quiz_id = row_id d, title = row_title d, description = row_description d,
       quizQuestions = (case row_questions d of None \<Rightarrow> [] | Some qs \<Rightarrow> qs),
       createdAt = row_created_at d, updatedAt = row_updated_at d,
       author = row_author_id d, category = row_category d, timeLimit = row_time_limit d \<rparr>"

definition fetchQuiz :: "remote \<Rightarrow> jsstring \<Rightarrow> exn + quiz" where
  \<comment> \<open>the inner \<open>try\<close> block of \<open>getQuizById\<close>\<close>
  "fetchQuiz r i =
     (case orThrow (rpc_get_quiz_with_questions r i) of
        Inl error \<Rightarrow> Inl error
      | Inr None \<Rightarrow> Inl (Error (js ''Quiz not found in database''))
      | Inr (Some d) \<Rightarrow> Inr (formatQuiz d))"

definition findLocalQuiz :: "jsstring \<Rightarrow> browser \<Rightarrow> quiz option" where
  \<comment> \<open>the \<open>try\<close> inside the \<open>catch\<close>: the quiz it returns, or \<open>None\<close> when it falls through
      (no text, no match, or an exception, which its own \<open>catch\<close> only logs)\<close>
  "findLocalQuiz i b =
     (case safeLocalStorage_getItem key_localQuizzes b of
        None \<Rightarrow> None
      | Some savedQuizzes \<Rightarrow>
          (case JSON_parse savedQuizzes of
             Inl e \<Rightarrow> None
           | Inr localList \<Rightarrow>
               (case js_find (\<lambda>q. quiz_id q = i) localList of
                  Inl e \<Rightarrow> None
                | Inr found \<Rightarrow> found)))"

definition getQuizById :: "remote \<Rightarrow> jsstring \<Rightarrow> browser \<Rightarrow> exn + quiz" where
  \<comment> \<open>the outer \<open>catch\<close> throws again what it caught\<close>
  "getQuizById r i b =
     (case fetchQuiz r i of
        Inr q \<Rightarrow> Inr q
      | Inl supabaseError \<Rightarrow>
          (case findLocalQuiz i b of
             Some found \<Rightarrow> Inr found
           | None \<Rightarrow> Inl (Error (js ''Quiz not found''))))"

subsection \<open>createQuiz\<close>

definition truthyString :: "jsstring option \<Rightarrow> jsstring option" where
  \<comment> \<open>\<open>s || undefined\<close> and \<open>s ? String(s) : null\<close>: the empty string is falsy\<close>
  "truthyString s = (case s of Some (c # cs) \<Rightarrow> Some (c # cs) | _ \<Rightarrow> None)"

definition truthyNumber :: "nat option \<Rightarrow> nat option" where
  \<comment> \<open>\<open>n || undefined\<close> and \<open>n ? Number(n) : null\<close>: 0 is falsy\<close>
  "truthyNumber n = (case n of Some (Suc k) \<Rightarrow> Some (Suc k) | _ \<Rightarrow> None)"

definition quizData :: "new_quiz \<Rightarrow> quiz_insert" where
  "quizData quiz =
     \<lparr> ins_title = newTitle quiz, ins_description = newDescription quiz,
       ins_category = truthyString (newCategory quiz),
       ins_time_limit = truthyNumber (newTimeLimit quiz),
       ins_author_id = None \<rparr>"

definition questionsToInsert :: "jsstring \<Rightarrow> question list \<Rightarrow> question_insert list" where
  "questionsToInsert createdId qs =
     map (\<lambda>(index, q).
            \<lparr> qi_quiz_id = createdId, qi_text = qtext q, qi_options = options q,
              qi_correct_answer = correctAnswer q, qi_position = index \<rparr>)
         (enumerate 0 qs)"

definition createQuizRemote :: "remote \<Rightarrow> new_quiz \<Rightarrow> exn + jsstring" where
  \<comment> \<open>the inner \<open>try\<close> block of \<open>createQuiz\<close>. A failed insert of the questions is only
      logged when the call resolves with an error; when the call rejects, the exception leaves
      the block like any other\<close>
  "createQuizRemote r quiz =
     (case auth_getUser r of
        Inl e \<Rightarrow> Inl e
      | Inr authorId \<Rightarrow>
          (case orThrow (insert_quiz r (quizData quiz)) of
             Inl quizError \<Rightarrow> Inl quizError
           | Inr None \<Rightarrow> Inl (Error (js ''Failed to create quiz - no data returned''))
           | Inr (Some createdId) \<Rightarrow>
               (case insert_questions r (questionsToInsert createdId (newQuestions quiz)) of
                  Rejected e \<Rightarrow> Inl e
                | Resolved d questionsError \<Rightarrow> Inr createdId)))"

definition localQuiz :: "jsstring \<Rightarrow> (nat \<Rightarrow> jsstring) \<Rightarrow> new_quiz \<Rightarrow> quiz" where
  \<comment> \<open>the quiz as the fallback stores it; \<open>now 0\<close> and \<open>now 1\<close> are what the two calls of
      \<open>new Date().toISOString()\<close> return\<close>
  "localQuiz newId now quiz =
     \<lparr> quiz_id = newId, title = newTitle quiz, description = newDescription quiz,
       quizQuestions = newQuestions quiz, createdAt = now 0, updatedAt = now 1,
       author = None, category = truthyString (newCategory quiz),
       timeLimit = truthyNumber (newTimeLimit quiz) \<rparr>"

definition createQuizLocal ::
  "jsstring \<Rightarrow> (nat \<Rightarrow> jsstring) \<Rightarrow> new_quiz \<Rightarrow> browser \<Rightarrow> (exn + jsstring) \<times> browser" where
  \<comment> \<open>the \<open>catch (supabaseError)\<close> block; \<open>newId\<close> is the \<open>quizId\<close> that \<open>uuidv4()\<close> returns\<close>
  "createQuizLocal newId now quiz b =
     (case js_push (readLocalQuizzes b) (localQuiz newId now quiz) of
        Inl e \<Rightarrow> (Inl e, b)
      | Inr localList \<Rightarrow>
          (Inr newId,
           safeLocalStorage_setItem key_localQuizzes (JSON_stringify localList) b))"

definition createQuiz ::
  "remote \<Rightarrow> jsstring \<Rightarrow> (nat \<Rightarrow> jsstring) \<Rightarrow> new_quiz \<Rightarrow> browser \<Rightarrow> (exn + jsstring) \<times> browser" where
  \<comment> \<open>the outer \<open>catch\<close> throws again what it caught\<close>
  "createQuiz r newId now quiz b =
     (case createQuizRemote r quiz of
        Inr createdId \<Rightarrow> (Inr createdId, b)
      | Inl supabaseError \<Rightarrow> createQuizLocal newId now quiz b)"

subsection \<open>saveQuizResult\<close>

datatype returned = ReturnedId jsstring | ReturnedUndefined | ReturnedNull

definition orElse :: "jsstring option \<Rightarrow> jsstring \<Rightarrow> jsstring" where
  \<comment> \<open>\<open>s || d\<close> for a string that may be missing\<close>
  "orElse s d = (case s of Some (c # cs) \<Rightarrow> c # cs | _ \<Rightarrow> d)"

definition resultData :: "jsstring option \<Rightarrow> quiz_result \<Rightarrow> result_insert" where
  "resultData userId result =
     \<lparr> ri_quiz_id = quizId result, ri_user_id = truthyString userId,
       ri_user_name = orElse (userName result) (js ''Anonymous''),
       ri_score = score result, ri_total_questions = totalQuestions result,
       ri_time_taken = timeTaken result, ri_completed_at = completedAt result,
       ri_answers = answers result \<rparr>"

definition saveResultRemote :: "remote \<Rightarrow> quiz_result \<Rightarrow> exn + returned" where
  \<comment> \<open>the outer \<open>try\<close> block; the inner \<open>catch\<close> throws again what it caught\<close>
  "saveResultRemote r result =
     (case auth_getUser r of
        Inl e \<Rightarrow> Inl e
      | Inr userId \<Rightarrow>
          (case orThrow (insert_quiz_result r (resultData userId result)) of
             Inl error \<Rightarrow> Inl error
           | Inr None \<Rightarrow> Inr ReturnedUndefined
           | Inr (Some inserted) \<Rightarrow> Inr (ReturnedId inserted)))"

definition localResult :: "jsstring \<Rightarrow> quiz_result \<Rightarrow> local_result" where
  "localResult localResultId result =
     \<lparr> lr_id = localResultId, lr_quizId = quizId result,
       lr_userName = orElse (userName result) (js ''Anonymous''),
       lr_score = score result, lr_totalQuestions = totalQuestions result,
       lr_timeTaken = timeTaken result, lr_completedAt = completedAt result,
       lr_answers = (case answers result of None \<Rightarrow> [] | Some a \<Rightarrow> a) \<rparr>"

definition saveResultLocal ::
  "jsstring \<Rightarrow> quiz_result \<Rightarrow> browser \<Rightarrow> (exn + returned) \<times> browser" where
  \<comment> \<open>the \<open>try\<close> block of the fallback; \<open>localResultId\<close> is what \<open>uuidv4()\<close> returns\<close>
  "saveResultLocal localResultId result b =
     (case (case safeLocalStorage_getItem key_quizHistory b of
              None \<Rightarrow> Inr (Array [])
            | Some historyData \<Rightarrow> JSON_parse historyData) of
        Inl e \<Rightarrow> (Inl e, b)
      | Inr history \<Rightarrow>
          (case js_push history (localResult localResultId result) of
             Inl e \<Rightarrow> (Inl e, b)
           | Inr history' \<Rightarrow>
               (Inr (ReturnedId localResultId),
                safeLocalStorage_setItem key_quizHistory (JSON_stringify history') b)))"

definition saveQuizResult ::
  "remote \<Rightarrow> jsstring \<Rightarrow> quiz_result \<Rightarrow> browser \<Rightarrow> (exn + returned) \<times> browser" where
  "saveQuizResult r localResultId result b =
     (case saveResultRemote r result of
        Inr v \<Rightarrow> (Inr v, b)
      | Inl error \<Rightarrow>
          (case saveResultLocal localResultId result b of
             (Inr v, b') \<Rightarrow> (Inr v, b')
           | (Inl localError, b') \<Rightarrow> (Inr ReturnedNull, b')))"

subsection \<open>getQuizHistory: the rows and the local entries\<close>

definition historyFromRow :: "result_row \<Rightarrow> history_entry" where
  \<comment> \<open>the \<open>map\<close> over the remote rows\<close>
  "historyFromRow item =
     \<lparr> h_id = rr_id item, h_quizId = rr_quiz_id item,
       h_quizTitle = orElse (map_option fst (rr_quizzes item)) (js ''Unknown Quiz''),
       h_userName = orElse (rr_user_name item) (js ''Anonymous''),
       h_score = rr_score item, h_totalQuestions = rr_total_questions item,
       h_timeTaken = rr_time_taken item, h_completedAt = rr_completed_at item,
       h_category = (case rr_quizzes item of None \<Rightarrow> None | Some (t, c) \<Rightarrow> c),
       h_answers = None \<rparr>"

definition fetchHistory :: "remote \<Rightarrow> history_entry list option" where
  \<comment> \<open>the first \<open>try\<close>: what it returns, or \<open>None\<close> when control goes on to the fallback
      (an exception, no data, or an empty array)\<close>
  "fetchHistory r =
     (case orThrow (select_quiz_results r) of
        Inl supabaseError \<Rightarrow> None
      | Inr None \<Rightarrow> None
      | Inr (Some rows) \<Rightarrow> if length rows > 0 then Some (map historyFromRow rows) else None)"

definition enhance :: "remote \<Rightarrow> browser \<Rightarrow> local_result \<Rightarrow> history_entry" where
  \<comment> \<open>the function mapped over the local history: \<open>{ ...item, quizTitle, category }\<close>\<close>
  "enhance r b item =
     (let (quizTitle, quizCategory) =
            (case getQuizById r (lr_quizId item) b of
               Inr found \<Rightarrow> (title found, category found)
             | Inl e \<Rightarrow> (js ''Unknown Quiz'', None))
      in \<lparr> h_id = lr_id item, h_quizId = lr_quizId item, h_quizTitle = quizTitle,
           h_userName = lr_userName item, h_score = lr_score item,
           h_totalQuestions = lr_totalQuestions item, h_timeTaken = lr_timeTaken item,
           h_completedAt = lr_completedAt item, h_category = quizCategory,
           h_answers = Some (lr_answers item) \<rparr>)"

subsection \<open>Sorting an array with a comparator\<close>

text \<open>
  \<open>Array.prototype.sort\<close> reads the number its comparator returns, and a \<open>NaN\<close> counts as
  \<open>+0\<close>: that is \<open>SortCompare\<close>, with \<open>None\<close> for \<open>NaN\<close>. The sort is stable. When the
  comparator read in this way is consistent for the elements (the conditions of the
  language standard: \<open>a = a\<close>; \<open>a = b\<close> gives \<open>b = a\<close>; and \<open>=\<close>, \<open><\<close> and \<open>>\<close> are each
  transitive), there is one stable arrangement in its order, whatever the engine's algorithm
  is; \<open>stableSort\<close> computes it by insertion. When the comparator is not consistent, the
  standard leaves the order to the engine: the result is then known only up to
  rearrangement.
\<close>

datatype 'a array_result =
    Exactly "'a list"       \<comment> \<open>this array\<close>
  | Rearranged "'a list"    \<comment> \<open>these elements, in an order that the engine chooses\<close>

definition SortCompare :: "('a \<Rightarrow> 'a \<Rightarrow> int option) \<Rightarrow> 'a \<Rightarrow> 'a \<Rightarrow> int" where
  "SortCompare comparefn x y = (case comparefn x y of None \<Rightarrow> 0 | Some v \<Rightarrow> v)"

definition consistentComparator :: "('a \<Rightarrow> 'a \<Rightarrow> int) \<Rightarrow> 'a list \<Rightarrow> bool" where
  "consistentComparator c xs \<longleftrightarrow>
     list_all (\<lambda>x. c x x = 0 \<and>
       list_all (\<lambda>y. (c x y = 0 \<longrightarrow> c y x = 0) \<and>
         list_all (\<lambda>z. (c x y = 0 \<and> c y z = 0 \<longrightarrow> c x z = 0) \<and>
                       (c x y < 0 \<and> c y z < 0 \<longrightarrow> c x z < 0) \<and>
                       (c x y > 0 \<and> c y z > 0 \<longrightarrow> c x z > 0)) xs) xs) xs"

fun insertSorted :: "('a \<Rightarrow> 'a \<Rightarrow> int) \<Rightarrow> 'a \<Rightarrow> 'a list \<Rightarrow> 'a list" where
  "insertSorted c x [] = [x]"
| "insertSorted c x (y # ys) = (if c x y \<le> 0 then x # y # ys else y # insertSorted c x ys)"

definition stableSort :: "('a \<Rightarrow> 'a \<Rightarrow> int) \<Rightarrow> 'a list \<Rightarrow> 'a list" where
  "stableSort c xs = foldr (insertSorted c) xs []"

definition js_sort :: "('a \<Rightarrow> 'a \<Rightarrow> int option) \<Rightarrow> 'a list \<Rightarrow> 'a array_result" where
  \<comment> \<open>\<open>xs.sort(comparefn)\<close>\<close>
  "js_sort comparefn xs =
     (if consistentComparator (SortCompare comparefn) xs
      then Exactly (stableSort (SortCompare comparefn) xs)
      else Rearranged xs)"

text \<open>
  \<open>(a, b) => new Date(b.completedAt).getTime() - new Date(a.completedAt).getTime()\<close>.
  \<open>getTime\<close> stands for \<open>new Date(s).getTime()\<close> and is a parameter: the milliseconds of a
  time stamp that the engine can parse, and \<open>None\<close>, for \<open>NaN\<close>, of one that it cannot. The
  difference is \<open>NaN\<close> as soon as one of the two is. (The milliseconds of a date are whole
  numbers of at most 8.64e15 in size, so the sign of the floating-point difference is the
  sign of the difference of the integers.)
\<close>

definition compareCompletedAt ::
  "(jsstring \<Rightarrow> int option) \<Rightarrow> history_entry \<Rightarrow> history_entry \<Rightarrow> int option" where
  "compareCompletedAt getTime a b =
     (case (getTime (h_completedAt b), getTime (h_completedAt a)) of
        (Some tb, Some ta) \<Rightarrow> Some (tb - ta)
      | _ \<Rightarrow> None)"

definition localHistory ::
  "remote \<Rightarrow> (jsstring \<Rightarrow> int option) \<Rightarrow> browser \<Rightarrow> exn + history_entry array_result" where
  \<comment> \<open>the \<open>try\<close> block of the fallback\<close>
  "localHistory r getTime b =
     (case safeLocalStorage_getItem key_quizHistory b of
        None \<Rightarrow> Inr (Exactly [])
      | Some historyData \<Rightarrow>
          (case JSON_parse historyData of
             Inl e \<Rightarrow> Inl e
           | Inr parsed \<Rightarrow>
               (case js_map (enhance r b) parsed of
                  Inl e \<Rightarrow> Inl e
                | Inr enhancedHistory \<Rightarrow>
                    Inr (js_sort (compareCompletedAt getTime) enhancedHistory))))"

definition getQuizHistory ::
  "remote \<Rightarrow> (jsstring \<Rightarrow> int option) \<Rightarrow> browser \<Rightarrow> exn + history_entry array_result" where
  "getQuizHistory r getTime b =
     (case fetchHistory r of
        Some entries \<Rightarrow> Inr (Exactly entries)
      | None \<Rightarrow>
          (case localHistory r getTime b of
             Inr entries \<Rightarrow> Inr entries
           | Inl localError \<Rightarrow> Inr (Exactly [])))"

section \<open>Auxiliary notions for the statements\<close>

definition trimmed :: "jsstring \<Rightarrow> bool" where
  \<comment> \<open>a string that \<open>trim\<close> leaves as it is: no white space at either end\<close>
  "trimmed s \<longleftrightarrow> s = [] \<or> (\<not> isSpace (hd s) \<and> \<not> isSpace (last s))"

fun joinLines :: "jsstring list \<Rightarrow> jsstring" where
  \<comment> \<open>\<open>lines.join('\n')\<close>: the block whose lines are exactly \<open>lines\<close>\<close>
  "joinLines [] = []"
| "joinLines [l] = l"
| "joinLines (l # l' # ls) = l @ NL # joinLines (l' # ls)"

fun digitsValue :: "jsstring \<Rightarrow> nat" where
  \<comment> \<open>the number a string of ASCII digits denotes\<close>
  "digitsValue ds = foldl (\<lambda>a d. 10 * a + (d - 48)) 0 ds"

subsection \<open>Example inputs\<close>

definition page :: "jsstring \<Rightarrow> page_state" where
  \<comment> \<open>the page with \<open>t\<close> typed into the bulk text field and nothing parsed yet\<close>
  "page t = \<lparr> bulkText = t, questions = [], showParsingPreview = False, parsingError = None \<rparr>"

definition markedBlock :: jsstring where
  "markedBlock = js ''Q'' @ [NL] @ js ''A'' @ [NL] @ js ''B'' @ [NL] @ js ''C*'' @ [NL] @ js ''D''"

definition twoQuestions :: jsstring where
  "twoQuestions =
     js ''1. Q'' @ [NL] @ js ''A. x'' @ [NL] @ js ''b) y'' @ [NL] @ js ''C. z*'' @ [NL] @ js ''D. w'' @
     [NL, NL] @
     js ''R'' @ [NL] @ js ''S'' @ [NL] @ js ''T'' @ [NL] @ js ''U'' @ [NL] @ js ''V''"

definition secondBlockShort :: jsstring where
  "secondBlockShort =
     js ''Q'' @ [NL] @ js ''A'' @ [NL] @ js ''B'' @ [NL] @ js ''C'' @ [NL] @ js ''D'' @
     [NL, NL] @ js ''R'' @ [NL] @ js ''S''"

definition firstBlockShort :: jsstring where
  "firstBlockShort =
     js ''R'' @ [NL] @ js ''S'' @ [NL, NL] @
     js ''Q'' @ [NL] @ js ''A'' @ [NL] @ js ''B'' @ [NL] @ js ''C'' @ [NL] @ js ''D''"

definition thirdMarked :: jsstring where
  "thirdMarked =
     js ''Q'' @ [NL] @ js ''A'' @ [NL] @ js ''B'' @ [NL] @ js ''C (correct)'' @ [NL] @ js ''D*''"

definition sixLines :: jsstring where
  "sixLines =
     js ''Q'' @ [NL] @ js ''A'' @ [NL] @ js ''B'' @ [NL] @ js ''C'' @ [NL] @ js ''D'' @ [NL] @ js ''E''"

subsection \<open>What the stores hold, as the claims speak of it\<close>

definition readable :: "browser \<Rightarrow> bool" where
  \<comment> \<open>\<open>safeLocalStorage.getItem\<close> gets the text there is\<close>
  "readable b \<longleftrightarrow> hasWindow b \<and> \<not> getItemThrows b"

definition writable :: "browser \<Rightarrow> bool" where
  \<comment> \<open>\<open>safeLocalStorage.setItem\<close> stores the text it is given\<close>
  "writable b \<longleftrightarrow> hasWindow b \<and> \<not> setItemThrows b"

definition localQuizList :: "browser \<Rightarrow> quiz list" where
  \<comment> \<open>the quiz list of the local store: empty when the key is missing, cannot be read, or
      holds text that is no array\<close>
  "localQuizList b =
     (if readable b
      then (case localQuizzes (storage b) of Some (Items xs) \<Rightarrow> xs | _ \<Rightarrow> [])
      else [])"

definition localHistoryList :: "browser \<Rightarrow> local_result list" where
  \<comment> \<open>the history list of the local store, likewise\<close>
  "localHistoryList b =
     (if readable b
      then (case quizHistory (storage b) of Some (Items xs) \<Rightarrow> xs | _ \<Rightarrow> [])
      else [])"

definition quizzesNotArray :: "browser \<Rightarrow> bool" where
  \<comment> \<open>the text under \<open>localQuizzes\<close> parses to a value that is no array\<close>
  "quizzesNotArray b \<longleftrightarrow>
     readable b \<and>
     (case localQuizzes (storage b) of
        Some NonIterable \<Rightarrow> True
      | Some (Quoted s) \<Rightarrow> True
      | _ \<Rightarrow> False)"

definition quizzesNotIterable :: "browser \<Rightarrow> bool" where
  \<comment> \<open>the text under \<open>localQuizzes\<close> parses to a value that is neither an array nor a string:
      \<open>null\<close>, a number, a boolean, an object\<close>
  "quizzesNotIterable b \<longleftrightarrow> readable b \<and> localQuizzes (storage b) = Some NonIterable"

definition quizzesString :: "browser \<Rightarrow> jsstring option" where
  \<comment> \<open>the string that the text under \<open>localQuizzes\<close> parses to, when it parses to one\<close>
  "quizzesString b =
     (if readable b
      then (case localQuizzes (storage b) of Some (Quoted s) \<Rightarrow> Some s | _ \<Rightarrow> None)
      else None)"

definition historyBroken :: "browser \<Rightarrow> bool" where
  \<comment> \<open>the text under \<open>quizHistory\<close> does not parse, or parses to a value that is no array\<close>
  "historyBroken b \<longleftrightarrow>
     readable b \<and>
     (case quizHistory (storage b) of
        Some Unparseable \<Rightarrow> True
      | Some NonIterable \<Rightarrow> True
      | Some (Quoted s) \<Rightarrow> True
      | _ \<Rightarrow> False)"

definition completedNoEarlier :: "(jsstring \<Rightarrow> int option) \<Rightarrow> history_entry \<Rightarrow> history_entry \<Rightarrow> bool" where
  \<comment> \<open>both completion times are dates, and that of \<open>x\<close> is not before that of \<open>y\<close>; as in the
      language, no comparison with \<open>NaN\<close> holds\<close>
  "completedNoEarlier getTime x y \<longleftrightarrow>
     (case (getTime (h_completedAt x), getTime (h_completedAt y)) of
        (Some tx, Some ty) \<Rightarrow> ty \<le> tx
      | _ \<Rightarrow> False)"

definition remoteRows :: "remote \<Rightarrow> quiz_row list" where
  \<comment> \<open>the rows of a remote read that succeeds; none when it fails\<close>
  "remoteRows r = (case select_quizzes r of Resolved (Some rows) None \<Rightarrow> rows | _ \<Rightarrow> [])"

definition remoteQuiz :: "remote \<Rightarrow> jsstring \<Rightarrow> quiz_with_questions option" where
  \<comment> \<open>the quiz a remote fetch by id succeeds with; \<open>None\<close> on failure and on not-found\<close>
  "remoteQuiz r i =
     (case rpc_get_quiz_with_questions r i of Resolved (Some d) None \<Rightarrow> Some d | _ \<Rightarrow> None)"

definition remoteHistory :: "remote \<Rightarrow> result_row list" where
  \<comment> \<open>the rows of a remote history read that succeeds; none when it fails\<close>
  "remoteHistory r = (case select_quiz_results r of Resolved (Some rows) None \<Rightarrow> rows | _ \<Rightarrow> [])"

definition quizRowNotCreated :: "remote \<Rightarrow> new_quiz \<Rightarrow> bool" where
  \<comment> \<open>the remote creation of the quiz row fails: the user lookup before it rejects, or the
      insert rejects, resolves with an error, or resolves with no row\<close>
  "quizRowNotCreated r quiz \<longleftrightarrow>
     (case auth_getUser r of
        Inl e \<Rightarrow> True
      | Inr u \<Rightarrow>
          (case insert_quiz r (quizData quiz) of
             Resolved (Some createdId) None \<Rightarrow> False
           | _ \<Rightarrow> True))"

definition resultInserted :: "remote \<Rightarrow> quiz_result \<Rightarrow> jsstring option" where
  \<comment> \<open>the id the remote insert of a result succeeds with\<close>
  "resultInserted r result =
     (case auth_getUser r of
        Inl e \<Rightarrow> None
      | Inr u \<Rightarrow>
          (case insert_quiz_result r (resultData u result) of
             Resolved (Some i) None \<Rightarrow> Some i
           | _ \<Rightarrow> None))"

definition resultInsertFails :: "remote \<Rightarrow> quiz_result \<Rightarrow> bool" where
  \<comment> \<open>the remote insert of a result fails: the user lookup rejects, or the insert rejects or
      resolves with an error\<close>
  "resultInsertFails r result \<longleftrightarrow>
     (case auth_getUser r of
        Inl e \<Rightarrow> True
      | Inr u \<Rightarrow>
          (case insert_quiz_result r (resultData u result) of
             Rejected e \<Rightarrow> True
           | Resolved d (Some e) \<Rightarrow> True
           | Resolved d None \<Rightarrow> False))"

subsection \<open>Example stores\<close>

definition offline :: remote where
  \<comment> \<open>a remote store that cannot be reached: every call rejects\<close>
  "offline =
     \<lparr> select_quizzes = Rejected FetchError,
       rpc_get_quiz_with_questions = (\<lambda>i. Rejected FetchError),
       auth_getUser = Inl FetchError,
       insert_quiz = (\<lambda>q. Rejected FetchError),
       insert_questions = (\<lambda>qs. Rejected FetchError),
       insert_quiz_result = (\<lambda>x. Rejected FetchError),
       select_quiz_results = Rejected FetchError \<rparr>"

definition emptyBrowser :: browser where
  \<comment> \<open>a browser with working, empty local storage\<close>
  "emptyBrowser =
     \<lparr> hasWindow = True, getItemThrows = False, setItemThrows = False,
       storage = \<lparr> localQuizzes = None, quizHistory = None \<rparr> \<rparr>"

definition fullBrowser :: browser where
  \<comment> \<open>a browser whose local storage cannot be written: \<open>setItem\<close> throws\<close>
  "fullBrowser = emptyBrowser \<lparr> setItemThrows := True \<rparr>"

definition sampleQuestion :: question where
  "sampleQuestion =
     \<lparr> qid = js ''q1'', qtext = js ''Q'',
       options = [js ''A'', js ''B'', js ''C'', js ''D''], correctAnswer = 2 \<rparr>"

definition sampleQuiz :: new_quiz where
  "sampleQuiz =
     \<lparr> newTitle = js ''T'', newDescription = js ''D'', newQuestions = [sampleQuestion],
       newCategory = None, newTimeLimit = None \<rparr>"

definition sampleRow :: quiz_row where
  "sampleRow =
     \<lparr> row_id = js ''r1'', row_title = js ''R'', row_description = js ''D'',
       row_created_at = js ''t0'', row_updated_at = js ''t5'', row_category = Some (js ''maths''),
       row_time_limit = Some 60, row_author_id = Some (js ''me'') \<rparr>"

definition sampleResult :: quiz_result where
  "sampleResult =
     \<lparr> quizId = js ''u1'', score = 1, totalQuestions = 1, timeTaken = 5,
       completedAt = js ''t1'', userName = None, answers = None \<rparr>"

definition sampleData :: quiz_with_questions where
  "sampleData =
     \<lparr> row_id = js ''r1'', row_title = js ''R'', row_description = js ''D'',
       row_created_at = js ''t0'', row_updated_at = js ''t5'', row_category = Some (js ''maths''),
       row_time_limit = Some 60, row_author_id = Some (js ''me''),
       row_questions = Some [sampleQuestion] \<rparr>"

definition answering :: remote where
  \<comment> \<open>a remote store that holds one quiz, \<open>r1\<close>, and one row of history\<close>
  "answering =
     \<lparr> select_quizzes = Resolved (Some [sampleRow]) None,
       rpc_get_quiz_with_questions =
         (\<lambda>i. if i = js ''r1'' then Resolved (Some sampleData) None else Resolved None None),
       auth_getUser = Inr None,
       insert_quiz = (\<lambda>q. Resolved (Some (js ''r2'')) None),
       insert_questions = (\<lambda>qs. Resolved None None),
       insert_quiz_result = (\<lambda>x. Resolved (Some (js ''s1'')) None),
       select_quiz_results =
         Resolved (Some [\<lparr> rr_id = js ''s0'', rr_quiz_id = js ''r1'', rr_user_name = None,
                            rr_score = 1, rr_total_questions = 1, rr_time_taken = 3,
                            rr_completed_at = js ''2024-01-02T00:00:00.000Z'',
                            rr_quizzes = Some (js ''R'', Some (js ''maths'')) \<rparr>]) None \<rparr>"

definition storedTwice :: browser where
  \<comment> \<open>a local store with two quizzes under the same id\<close>
  "storedTwice =
     emptyBrowser \<lparr> storage :=
       \<lparr> localQuizzes =
           Some (Items [localQuiz (js ''u1'') (\<lambda>_. js ''t0'') sampleQuiz,
                        localQuiz (js ''u1'') (\<lambda>_. js ''t9'') sampleQuiz]),
         quizHistory = None \<rparr> \<rparr>"

definition brokenBrowser :: browser where
  \<comment> \<open>a local store whose two texts are \<open>null\<close>\<close>
  "brokenBrowser =
     emptyBrowser \<lparr> storage := \<lparr> localQuizzes = Some NonIterable, quizHistory = Some NonIterable \<rparr> \<rparr>"

definition quotedBrowser :: browser where
  \<comment> \<open>a local store whose quiz text is a JSON string: the letter \<open>a\<close> and one code point
      outside the basic plane, U+1F600, which is two code units\<close>
  "quotedBrowser =
     emptyBrowser \<lparr> storage := \<lparr> localQuizzes = Some (Quoted [97, 55357, 56832]), quizHistory = None \<rparr> \<rparr>"

definition sampleTime :: "jsstring \<Rightarrow> int option" where
  \<comment> \<open>\<open>new Date(s).getTime()\<close> at the time stamps of the examples: the milliseconds of three
      ISO time stamps, and \<open>NaN\<close> at the strings \<open>t1\<close>, \<open>t2\<close>, \<open>t3\<close>, which are no dates\<close>
  "sampleTime s =
     (if s = js ''2024-01-01T00:00:00.000Z'' then Some 1704067200000
      else if s = js ''2024-01-02T00:00:00.000Z'' then Some 1704153600000
      else if s = js ''2024-01-03T00:00:00.000Z'' then Some 1704240000000
      else None)"

definition withHistory :: browser where
  \<comment> \<open>a local store with one quiz, and three results whose time stamps are no dates, one
      of them for an unknown quiz\<close>
  "withHistory =
     emptyBrowser \<lparr> storage :=
       \<lparr> localQuizzes = Some (Items [localQuiz (js ''u1'') (\<lambda>_. js ''t0'') sampleQuiz]),
         quizHistory =
           Some (Items [localResult (js ''h1'') (sampleResult \<lparr> completedAt := js ''t1'' \<rparr>),
                        localResult (js ''h2'')
                          (sampleResult \<lparr> quizId := js ''zz'', completedAt := js ''t3'' \<rparr>),
                        localResult (js ''h3'') (sampleResult \<lparr> completedAt := js ''t2'' \<rparr>)]) \<rparr> \<rparr>"

definition datedHistory :: browser where
  \<comment> \<open>the same store with dates for time stamps: the oldest result first, the newest second\<close>
  "datedHistory =
     emptyBrowser \<lparr> storage :=
       \<lparr> localQuizzes = Some (Items [localQuiz (js ''u1'') (\<lambda>_. js ''t0'') sampleQuiz]),
         quizHistory =
           Some (Items [localResult (js ''h1'')
                          (sampleResult \<lparr> completedAt := js ''2024-01-01T00:00:00.000Z'' \<rparr>),
                        localResult (js ''h2'')
                          (sampleResult \<lparr> quizId := js ''zz'',
                                          completedAt := js ''2024-01-03T00:00:00.000Z'' \<rparr>),
                        localResult (js ''h3'')
                          (sampleResult \<lparr> completedAt := js ''2024-01-02T00:00:00.000Z'' \<rparr>)]) \<rparr> \<rparr>"

definition mixedHistory :: browser where
  \<comment> \<open>two results with dates and, between them, one whose time stamp is no date\<close>
  "mixedHistory =
     emptyBrowser \<lparr> storage :=
       \<lparr> localQuizzes = None,
         quizHistory =
           Some (Items [localResult (js ''h1'')
                          (sampleResult \<lparr> completedAt := js ''2024-01-01T00:00:00.000Z'' \<rparr>),
                        localResult (js ''h2'') (sampleResult \<lparr> completedAt := js ''t1'' \<rparr>),
                        localResult (js ''h3'')
                          (sampleResult \<lparr> completedAt := js ''2024-01-03T00:00:00.000Z'' \<rparr>)]) \<rparr> \<rparr>"

subsection \<open>Texts written block by block\<close>

fun joinBlocks :: "jsstring list \<Rightarrow> jsstring" where
  \<comment> \<open>the blocks with one empty line between them: \<open>blocks.join('\n\n')\<close>\<close>
  "joinBlocks [] = []"
| "joinBlocks [b] = b"
| "joinBlocks (b # b' # bs) = b @ NL # NL # joinBlocks (b' # bs)"

definition plainLine :: "jsstring \<Rightarrow> bool" where
  \<comment> \<open>a line as an author writes it: not empty, no newline in it, no white space at its ends\<close>
  "plainLine l \<longleftrightarrow> l \<noteq> [] \<and> trimmed l \<and> NL \<notin> set l"

fun solid :: "jsstring \<Rightarrow> bool" where
  \<comment> \<open>no blank line inside and no white space at the end: every newline is followed by a
      code unit that is not white space, and the last code unit is not white space\<close>
  "solid [] = False"
| "solid [c] = (\<not> isSpace c)"
| "solid (c # d # cs) = ((c = NL \<longrightarrow> \<not> isSpace d) \<and> solid (d # cs))"

definition twoQuestionsLines :: "jsstring list list" where
  \<comment> \<open>the lines of \<open>twoQuestions\<close>, block by block\<close>
  "twoQuestionsLines =
     [[js ''1. Q'', js ''A. x'', js ''b) y'', js ''C. z*'', js ''D. w''],
      [js ''R'', js ''S'', js ''T'', js ''U'', js ''V'']]"

section \<open>Properties of the parser\<close>

subsection \<open>The direct functions agree with the backtracking matcher\<close>

lemma many0_last: "matchHere [Many0 p] s = Some (dropWhile p s)"
  by (induction s) auto

lemma NL_isSpace: "isSpace NL"
  by (simp add: isSpace_def NL_def)

lemma afterLastNL_Cons:
  assumes "NL \<in> set w"
  shows "length (c # w) - length (takeWhile (\<lambda>x. x \<noteq> NL) (rev (c # w))) =
         Suc (length w - length (takeWhile (\<lambda>x. x \<noteq> NL) (rev w)))"
proof -
  have "takeWhile (\<lambda>x. x \<noteq> NL) (rev w @ [c]) = takeWhile (\<lambda>x. x \<noteq> NL) (rev w)"
    using assms by (intro takeWhile_append1 [of NL]) auto
  moreover have "length (takeWhile (\<lambda>x. x \<noteq> NL) (rev w)) \<le> length w"
    using length_takeWhile_le [of _ "rev w"] by simp
  ultimately show ?thesis by simp
qed

lemma many0_spaces_then_nl:
  "matchHere [Many0 isSpace, Many1 (\<lambda>x. x = NL)] s =
     (let w = takeWhile isSpace s in
      if NL \<in> set w
      then Some (drop (length w - length (takeWhile (\<lambda>x. x \<noteq> NL) (rev w))) s)
      else None)"
proof (induction s)
  case Nil
  then show ?case by simp
next
  case (Cons c cs)
  let ?w' = "takeWhile isSpace cs"
  show ?case
  proof (cases "isSpace c")
    case False
    then have "c \<noteq> NL" using NL_isSpace by auto
    then show ?thesis using False by (simp add:)
  next
    case space: True
    show ?thesis
    proof (cases "NL \<in> set ?w'")
      case True
      then show ?thesis
        using space Cons.IH afterLastNL_Cons [OF True, of c] by (simp add: Let_def)
    next
      case False
      then have none: "matchHere [Many0 isSpace, Many1 (\<lambda>x. x = NL)] cs = None"
        using Cons.IH by (simp add: Let_def)
      show ?thesis
      proof (cases "c = NL")
        case True
        have "cs = [] \<or> hd cs \<noteq> NL"
        proof (cases cs)
          case Nil
          then show ?thesis by simp
        next
          case (Cons d ds)
          then show ?thesis using False NL_isSpace by (cases "d = NL") auto
        qed
        then have "dropWhile (\<lambda>x. x = NL) cs = cs" by (cases cs) auto
        moreover have "takeWhile (\<lambda>x. x \<noteq> NL) (rev ?w' @ [NL]) = rev ?w'"
          using False by (subst takeWhile_append2) auto
        ultimately show ?thesis
          using space none True by (simp add: Let_def many0_last)
      next
        case notNL: False
        then show ?thesis using space none False by (simp add: Let_def)
      qed
    qed
  qed
qed

lemma many0_digits_then:
  "matchHere [Many0 isDigit, One isDotOrParen, Many0 isSpace] s =
   matchHere [One isDotOrParen, Many0 isSpace] (dropWhile isDigit s)"
proof (induction s)
  case Nil
  then show ?case by simp
next
  case (Cons c cs)
  have "isDigit c \<Longrightarrow> \<not> isDotOrParen c" by (auto simp: isDigit_def isDotOrParen_def)
  then show ?case using Cons by (auto split: option.splits)
qed

lemma stripQuestionNumber_regex:
  "stripQuestionNumber line =
     (case matchHere questionNumber line of Some rest \<Rightarrow> rest | None \<Rightarrow> line)"
proof (cases line)
  case Nil
  then show ?thesis by (simp add: stripQuestionNumber_def questionNumber_def)
next
  case (Cons c cs)
  show ?thesis
  proof (cases "isDigit c")
    case False
    then show ?thesis using Cons by (simp add: stripQuestionNumber_def questionNumber_def)
  next
    case True
    define rest where "rest = dropWhile isDigit cs"
    have l: "stripQuestionNumber line =
        (if rest \<noteq> [] \<and> isDotOrParen (hd rest) then dropWhile isSpace (tl rest) else line)"
      using Cons True by (simp add: stripQuestionNumber_def rest_def)
    have r: "matchHere questionNumber line = matchHere [One isDotOrParen, Many0 isSpace] rest"
      using Cons True by (simp add: questionNumber_def many0_digits_then rest_def)
    show ?thesis unfolding l r by (cases rest) (simp_all add: many0_last)
  qed
qed

lemma stripOptionLabel_regex:
  "stripOptionLabel line =
     (case matchHere optionLabel line of Some rest \<Rightarrow> rest | None \<Rightarrow> line)"
proof (cases line)
  case Nil
  then show ?thesis by (simp add: stripOptionLabel_def optionLabel_def)
next
  case (Cons c1 rest)
  then show ?thesis
    by (cases rest) (simp_all add: stripOptionLabel_def optionLabel_def many0_last)
qed

subsection \<open>The marker loop\<close>

lemma findCorrect_none:
  "(\<And>j. i \<le> j \<Longrightarrow> j < length opts \<Longrightarrow> \<not> hasMarker (opts ! j)) \<Longrightarrow> findCorrect i opts = (0, opts)"
proof (induction i opts rule: findCorrect.induct)
  case (1 i opts)
  show ?case
  proof (cases "i < length opts")
    case True
    then have "\<not> hasMarker (opts ! i)" using "1.prems" by simp
    moreover have "findCorrect (i + 1) opts = (0, opts)"
      using "1.IH" True \<open>\<not> hasMarker (opts ! i)\<close> "1.prems" by simp
    ultimately show ?thesis using True by (subst findCorrect.simps) simp
  next
    case False
    then show ?thesis by (subst findCorrect.simps) simp
  qed
qed

lemma findCorrect_first:
  "i \<le> k \<Longrightarrow> k < length opts \<Longrightarrow> hasMarker (opts ! k) \<Longrightarrow>
   (\<And>j. i \<le> j \<Longrightarrow> j < k \<Longrightarrow> \<not> hasMarker (opts ! j)) \<Longrightarrow>
   findCorrect i opts = (k, opts[k := trim (removeMarkers (opts ! k))])"
proof (induction i opts rule: findCorrect.induct)
  case (1 i opts)
  show ?case
  proof (cases "i = k")
    case True
    then show ?thesis using "1.prems" by (subst findCorrect.simps) simp
  next
    case False
    then have lt: "i < k" using "1.prems" by simp
    then have nm: "\<not> hasMarker (opts ! i)" using "1.prems" by simp
    have "findCorrect (i + 1) opts = (k, opts[k := trim (removeMarkers (opts ! k))])"
      using "1.IH" lt nm "1.prems" by simp
    then show ?thesis using lt nm "1.prems" by (subst findCorrect.simps) simp
  qed
qed

lemma removeMarkers_star: "STAR \<notin> set (removeMarkers s)"
  by (induction s rule: removeMarkers.induct) auto

lemma removeMarkers_check: "CHECK \<notin> set (removeMarkers s)"
  by (induction s rule: removeMarkers.induct) auto

lemma sublist_trim: "sublist (trim s) s"
proof -
  have "sublist (dropWhile isSpace (rev (dropWhile isSpace s))) (rev (dropWhile isSpace s))"
    by (rule sublist_dropWhile)
  then have "sublist (trim s) (dropWhile isSpace s)"
    by (simp add: trim_def sublist_rev_left)
  moreover have "sublist (dropWhile isSpace s) s" by (rule sublist_dropWhile)
  ultimately show ?thesis by (rule sublist_order.order_trans)
qed

lemma set_trim: "set (trim s) \<subseteq> set s"
  using sublist_trim [of s] by (rule set_mono_sublist)

lemma subseq_removeMarkers: "subseq (removeMarkers s) s"
proof (induction s rule: removeMarkers.induct)
  case 1
  then show ?case by simp
next
  case (2 c cs)
  have d: "subseq (drop 8 cs) cs" by (simp add: sublist_imp_subseq)
  show ?case
  proof (cases "prefix (js ''(correct)'') (c # cs)")
    case True
    then have "subseq (removeMarkers (drop 8 cs)) (drop 8 cs)" using 2 by simp
    then have "subseq (removeMarkers (drop 8 cs)) cs"
      using d by (rule subseq_order.order_trans)
    then have "subseq (removeMarkers (drop 8 cs)) (c # cs)" by (rule list_emb_Cons)
    then show ?thesis using True by simp
  next
    case False
    then have "subseq (removeMarkers cs) cs" using 2 by (cases "c = STAR") auto
    then show ?thesis using False by auto
  qed
qed

subsection \<open>Trimmed lines\<close>

lemma last_dropWhile: "dropWhile P xs \<noteq> [] \<Longrightarrow> last (dropWhile P xs) = last xs"
  by (induction xs) (auto split: if_splits)

lemma dropWhile_id: "xs = [] \<or> \<not> P (hd xs) \<Longrightarrow> dropWhile P xs = xs"
  by (cases xs) auto

lemma trim_trimmed: "trimmed s \<Longrightarrow> trim s = s"
proof (cases "s = []")
  case True
  then show ?thesis by (simp add: trim_def)
next
  case False
  assume "trimmed s"
  with False have h: "\<not> isSpace (hd s)" and l: "\<not> isSpace (last s)"
    by (auto simp: trimmed_def)
  have "dropWhile isSpace s = s" using h False by (simp add: dropWhile_id)
  moreover have "dropWhile isSpace (rev s) = rev s"
    using l False by (intro dropWhile_id) (simp add: hd_rev)
  ultimately show ?thesis by (simp add: trim_def)
qed

lemma trimmed_trim: "trimmed (trim s)"
proof (cases "trim s = []")
  case True
  then show ?thesis by (simp add: trimmed_def)
next
  case False
  let ?a = "dropWhile isSpace s"
  let ?b = "dropWhile isSpace (rev ?a)"
  have b: "?b \<noteq> []" using False by (simp add: trim_def)
  then have a: "?a \<noteq> []" by (cases "?a = []") simp_all
  have "\<not> isSpace (hd ?b)" using b by (rule hd_dropWhile)
  then have l: "\<not> isSpace (last (trim s))" using b by (simp add: trim_def last_rev)
  have "last ?b = last (rev ?a)" using b by (rule last_dropWhile)
  then have "hd (trim s) = hd ?a" using a b by (simp add: trim_def hd_rev last_rev)
  moreover have "\<not> isSpace (hd ?a)" using a by (rule hd_dropWhile)
  ultimately show ?thesis using l by (simp add: trimmed_def)
qed

lemma trimmed_dropWhile_tail:
  assumes "trimmed s" and suf: "suffix r s"
  shows "trimmed (dropWhile isSpace r)"
proof (cases "dropWhile isSpace r = []")
  case True
  then show ?thesis by (simp add: trimmed_def)
next
  case False
  then have r: "r \<noteq> []" by auto
  then have s: "s \<noteq> []" using suf by (auto simp: suffix_def)
  have "last (dropWhile isSpace r) = last r" using False by (rule last_dropWhile)
  also have "\<dots> = last s" using suf r by (auto simp: suffix_def)
  finally have "\<not> isSpace (last (dropWhile isSpace r))"
    using assms(1) s by (simp add: trimmed_def)
  moreover have "\<not> isSpace (hd (dropWhile isSpace r))" using False by (rule hd_dropWhile)
  ultimately show ?thesis by (simp add: trimmed_def)
qed

lemma trimmed_stripQuestionNumber: "trimmed s \<Longrightarrow> trimmed (stripQuestionNumber s)"
proof -
  assume t: "trimmed s"
  have "suffix (tl (dropWhile isDigit s)) s"
    by (meson suffix_dropWhile suffix_order.order_trans suffix_tl)
  then have "trimmed (dropWhile isSpace (tl (dropWhile isDigit s)))"
    using t by (rule trimmed_dropWhile_tail [rotated])
  then show ?thesis using t by (simp add: stripQuestionNumber_def Let_def)
qed

lemma trimmed_stripOptionLabel: "trimmed s \<Longrightarrow> trimmed (stripOptionLabel s)"
proof -
  assume t: "trimmed s"
  have "\<And>c1 c2 rest. s = c1 # c2 # rest \<Longrightarrow> trimmed (dropWhile isSpace rest)"
  proof -
    fix c1 c2 rest assume "s = c1 # c2 # rest"
    then have "suffix rest s" by (simp add: suffix_def) 
    then show "trimmed (dropWhile isSpace rest)" using t by (rule trimmed_dropWhile_tail [rotated])
  qed
  then show ?thesis using t by (auto simp: stripOptionLabel_def split: list.splits)
qed

lemma blockLines_trimmed: "l \<in> set (blockLines b) \<Longrightarrow> trimmed l \<and> l \<noteq> []"
  by (auto simp: blockLines_def trimmed_trim)

subsection \<open>Blocks\<close>

lemma trim_Nil_iff: "trim s = [] \<longleftrightarrow> (\<forall>c\<in>set s. isSpace c)"
proof
  assume "trim s = []"
  then have "\<forall>c\<in>set (dropWhile isSpace s). isSpace c"
    by (simp add: trim_def dropWhile_eq_Nil_conv)
  then have "dropWhile isSpace s = []"
    using hd_dropWhile [of isSpace s] hd_in_set [of "dropWhile isSpace s"] by blast
  then show "\<forall>c\<in>set s. isSpace c" by (simp add: dropWhile_eq_Nil_conv)
next
  assume "\<forall>c\<in>set s. isSpace c"
  then have "dropWhile isSpace s = []" by (simp only: dropWhile_eq_Nil_conv)
  then show "trim s = []" by (simp only: trim_def rev.simps dropWhile.simps)
qed

lemma splitBlocks_not_Nil: "splitBlocks s \<noteq> []"
  by (cases s) (auto simp: Let_def split: option.splits)

lemma splitBlocks_set: "b \<in> set (splitBlocks s) \<Longrightarrow> set b \<subseteq> set s"
proof (induction s arbitrary: b rule: splitBlocks.induct)
  case 1
  then show ?case by simp
next
  case (2 c cs)
  show ?case
  proof (cases "matchSep (c # cs)")
    case None
    let ?r = "splitBlocks cs"
    have ne: "?r \<noteq> []" by (rule splitBlocks_not_Nil)
    from "2.prems" None have "b = c # hd ?r \<or> b \<in> set (tl ?r)" by (simp add: Let_def)
    moreover have "set (hd ?r) \<subseteq> set cs"
      using ne by (intro "2.IH"(1) [OF None]) simp
    moreover have "b \<in> set (tl ?r) \<Longrightarrow> set b \<subseteq> set cs"
      using ne by (intro "2.IH"(1) [OF None]) (metis list.set_sel(2))
    ultimately show ?thesis by auto
  next
    case (Some n)
    from "2.prems" Some have "b = [] \<or> b \<in> set (splitBlocks (drop n (c # cs)))" by simp
    then show ?thesis
      using "2.IH"(2) [OF Some, of b] set_drop_subset [of n "c # cs"] by auto
  qed
qed

lemma questionBlocks_trim: "questionBlocks t \<noteq> [] \<Longrightarrow> trim t \<noteq> []"
proof -
  assume "questionBlocks t \<noteq> []"
  then obtain b where b: "b \<in> set (splitBlocks t)" and "trim b \<noteq> []"
    by (auto simp: questionBlocks_def filter_empty_conv)
  then obtain c where "c \<in> set b" "\<not> isSpace c" by (auto simp: trim_Nil_iff)
  then have "c \<in> set t" using splitBlocks_set [OF b] by auto
  then show ?thesis using \<open>\<not> isSpace c\<close> by (auto simp: trim_Nil_iff)
qed

subsection \<open>The loops over options and blocks\<close>

lemma parseBlock_short:
  "length (blockLines block) < 5 \<Longrightarrow> parseBlock now index block = Inl (Error (tooFewLines index))"
  by (simp add: parseBlock_def)

lemma parseBlock_ok:
  "5 \<le> length (blockLines block) \<Longrightarrow>
   parseBlock now index block =
     Inr \<lparr> qid = js ''q'' @ decimal (now index) @ js ''-'' @ decimal index,
           qtext = trim (stripQuestionNumber (blockLines block ! 0)),
           options = snd (findCorrect 0 (extractOptions (blockLines block))),
           correctAnswer = fst (findCorrect 0 (extractOptions (blockLines block))) \<rparr>"
  by (simp add: parseBlock_def Let_def split: prod.splits)

lemma length_extractOptions: "5 \<le> length ls \<Longrightarrow> length (extractOptions ls) = 4"
  by (simp add: extractOptions_def)

lemma extractOptions_nth:
  "5 \<le> length ls \<Longrightarrow> j < 4 \<Longrightarrow> extractOptions ls ! j = trim (stripOptionLabel (ls ! (j + 1)))"
  by (simp add: extractOptions_def)

lemma parseBlocks_ok:
  "(\<And>b. b \<in> set bs \<Longrightarrow> 5 \<le> length (blockLines b)) \<Longrightarrow>
   \<exists>qs. parseBlocks now i bs = Inr qs \<and> length qs = length bs \<and>
        (\<forall>j<length bs. parseBlock now (i + j) (bs ! j) = Inr (qs ! j))"
proof (induction bs arbitrary: i)
  case Nil
  then show ?case by simp
next
  case (Cons b bs)
  have "5 \<le> length (blockLines b)" using Cons.prems by simp
  then obtain q where q: "parseBlock now i b = Inr q" using parseBlock_ok by blast
  obtain qs where qs: "parseBlocks now (i + 1) bs = Inr qs" "length qs = length bs"
      "\<forall>j<length bs. parseBlock now (i + 1 + j) (bs ! j) = Inr (qs ! j)"
    using Cons.IH [of "i + 1"] Cons.prems by auto
  have "\<forall>j<length (b # bs). parseBlock now (i + j) ((b # bs) ! j) = Inr ((q # qs) ! j)"
  proof (intro allI impI)
    fix j assume "j < length (b # bs)"
    then show "parseBlock now (i + j) ((b # bs) ! j) = Inr ((q # qs) ! j)"
      using q qs(3) by (cases j) auto
  qed
  then show ?case using q qs(1,2) by simp
qed

lemma parseBlocks_short:
  "k < length bs \<Longrightarrow> length (blockLines (bs ! k)) < 5 \<Longrightarrow>
   (\<And>j. j < k \<Longrightarrow> 5 \<le> length (blockLines (bs ! j))) \<Longrightarrow>
   parseBlocks now i bs = Inl (Error (tooFewLines (i + k)))"
proof (induction bs arbitrary: i k)
  case Nil
  then show ?case by simp
next
  case (Cons b bs)
  show ?case
  proof (cases k)
    case 0
    then show ?thesis using Cons.prems(2) by (simp add: parseBlock_short)
  next
    case (Suc k')
    have "5 \<le> length (blockLines b)" using Cons.prems(3) [of 0] Suc by simp
    then obtain q where q: "parseBlock now i b = Inr q" using parseBlock_ok by blast
    have "parseBlocks now (i + 1) bs = Inl (Error (tooFewLines (i + 1 + k')))"
    proof (rule Cons.IH)
      show "k' < length bs" using Cons.prems(1) Suc by simp
      show "length (blockLines (bs ! k')) < 5" using Cons.prems(2) Suc by simp
      show "\<And>j. j < k' \<Longrightarrow> 5 \<le> length (blockLines (bs ! j))"
        using Cons.prems(3) Suc by fastforce
    qed
    then show ?thesis using q Suc by simp
  qed
qed

lemma findCorrect_cases:
  obtains (none) "\<forall>j<length opts. \<not> hasMarker (opts ! j)" "findCorrect 0 opts = (0, opts)"
  | (first) k where "k < length opts" "hasMarker (opts ! k)" "\<forall>j<k. \<not> hasMarker (opts ! j)"
      "findCorrect 0 opts = (k, opts[k := trim (removeMarkers (opts ! k))])"
proof (cases "\<exists>k<length opts. hasMarker (opts ! k)")
  case False
  then have "findCorrect 0 opts = (0, opts)" by (intro findCorrect_none) auto
  with False show ?thesis using none by blast
next
  case True
  define k where "k = (LEAST k. k < length opts \<and> hasMarker (opts ! k))"
  have k: "k < length opts \<and> hasMarker (opts ! k)"
    unfolding k_def by (rule LeastI_ex) (use True in blast)
  have least: "\<forall>j<k. \<not> hasMarker (opts ! j)"
  proof (intro allI impI)
    fix j assume "j < k"
    then have "\<not> (j < length opts \<and> hasMarker (opts ! j))"
      unfolding k_def by (rule not_less_Least)
    then show "\<not> hasMarker (opts ! j)" using \<open>j < k\<close> k by simp
  qed
  have "findCorrect 0 opts = (k, opts[k := trim (removeMarkers (opts ! k))])"
    using k least by (intro findCorrect_first) auto
  then show ?thesis using first k least by blast
qed

subsection \<open>Lines of a block, and blocks built from lines\<close>

lemma splitOn_not_Nil: "splitOn c s \<noteq> []"
  by (induction s) (auto simp: Let_def)

lemma splitOn_free: "l \<in> set (splitOn c s) \<Longrightarrow> c \<notin> set l"
proof (induction s arbitrary: l)
  case Nil
  then show ?case by simp
next
  case (Cons x s)
  let ?r = "splitOn c s"
  have ne: "?r \<noteq> []" by (rule splitOn_not_Nil)
  show ?case
  proof (cases "x = c")
    case True
    then show ?thesis using Cons by auto
  next
    case False
    then have "l = x # hd ?r \<or> l \<in> set (tl ?r)" using Cons.prems by (simp add: Let_def)
    moreover have "c \<notin> set (hd ?r)" using ne by (intro Cons.IH) simp
    moreover have "l \<in> set (tl ?r) \<Longrightarrow> c \<notin> set l"
      using ne by (intro Cons.IH) (metis list.set_sel(2))
    ultimately show ?thesis using False by auto
  qed
qed

lemma splitOn_single: "c \<notin> set l \<Longrightarrow> splitOn c l = [l]"
  by (induction l) (auto simp: Let_def)

lemma splitOn_append: "c \<notin> set l \<Longrightarrow> splitOn c (l @ c # rest) = l # splitOn c rest"
  by (induction l) (auto simp: Let_def)

lemma splitOn_joinLines:
  "ls \<noteq> [] \<Longrightarrow> (\<And>l. l \<in> set ls \<Longrightarrow> NL \<notin> set l) \<Longrightarrow> splitOn NL (joinLines ls) = ls"
proof (induction ls rule: joinLines.induct)
  case 1
  then show ?case by simp
next
  case (2 l)
  then show ?case by (simp add: splitOn_single)
next
  case (3 l l' ls)
  have "splitOn NL (joinLines (l' # ls)) = l' # ls" using 3 by simp
  moreover have "NL \<notin> set l" using 3 by simp
  ultimately show ?case by (simp add: splitOn_append)
qed

lemma blockLines_free: "l \<in> set (blockLines b) \<Longrightarrow> NL \<notin> set l"
  using splitOn_free set_trim by (fastforce simp: blockLines_def)

lemma blockLines_joinLines:
  assumes "ls \<noteq> []" and "\<And>l. l \<in> set ls \<Longrightarrow> NL \<notin> set l \<and> trimmed l \<and> l \<noteq> []"
  shows "blockLines (joinLines ls) = ls"
proof -
  have "splitOn NL (joinLines ls) = ls" using assms by (intro splitOn_joinLines) auto
  moreover have "map trim ls = ls" using assms(2) by (simp add: map_idI trim_trimmed)
  moreover have "filter (\<lambda>line. length line > 0) ls = ls" using assms(2) by (simp add: filter_id_conv)
  ultimately show ?thesis by (simp add: blockLines_def)
qed

lemma blockLines_truncate:
  assumes "5 \<le> length (blockLines block)"
  shows "blockLines (joinLines (take 5 (blockLines block))) = take 5 (blockLines block)"
proof (rule blockLines_joinLines)
  show "take 5 (blockLines block) \<noteq> []" using assms by auto
  fix l assume "l \<in> set (take 5 (blockLines block))"
  then have "l \<in> set (blockLines block)" by (rule in_set_takeD)
  then show "NL \<notin> set l \<and> trimmed l \<and> l \<noteq> []"
    using blockLines_free blockLines_trimmed by blast
qed

lemma extractOptions_take: "extractOptions (take 5 ls) = extractOptions ls"
  by (simp add: extractOptions_def drop_take)

lemma parseBlock_first_five:
  assumes "5 \<le> length (blockLines b)" "5 \<le> length (blockLines b')"
    and "take 5 (blockLines b') = take 5 (blockLines b)"
  shows "parseBlock now index b' = parseBlock now index b"
proof -
  have "extractOptions (blockLines b') = extractOptions (blockLines b)"
    using assms(3) extractOptions_take by metis
  moreover have "blockLines b' ! 0 = blockLines b ! 0"
    using assms by (metis nth_take zero_less_numeral)
  ultimately show ?thesis using assms(1,2) by (simp add: parseBlock_ok)
qed

lemma parseBlock_spec:
  assumes five: "5 \<le> length (blockLines b)" and q: "parseBlock now i b = Inr q"
  shows "qtext q = stripQuestionNumber (blockLines b ! 0) \<and> length (options q) = 4 \<and>
         correctAnswer q < 4 \<and>
         (\<forall>j<4. options q ! j =
            (if j = correctAnswer q \<and> hasMarker (stripOptionLabel (blockLines b ! (j + 1)))
             then trim (removeMarkers (stripOptionLabel (blockLines b ! (j + 1))))
             else stripOptionLabel (blockLines b ! (j + 1))))"
proof -
  let ?ls = "blockLines b"
  let ?opts = "extractOptions ?ls"
  have len: "length ?opts = 4" using five by (rule length_extractOptions)
  have line: "\<And>n. n < 5 \<Longrightarrow> trimmed (?ls ! n)"
    using five blockLines_trimmed [of _ b] by (meson less_le_trans nth_mem)
  have opt: "\<And>j. j < 4 \<Longrightarrow> ?opts ! j = stripOptionLabel (?ls ! (j + 1))"
  proof -
    fix j :: nat assume j: "j < 4"
    then have "trimmed (stripOptionLabel (?ls ! (j + 1)))"
      by (intro trimmed_stripOptionLabel line) simp
    then show "?opts ! j = stripOptionLabel (?ls ! (j + 1))"
      using five j by (simp add: extractOptions_nth trim_trimmed)
  qed
  have "trimmed (stripQuestionNumber (?ls ! 0))"
    by (intro trimmed_stripQuestionNumber line) simp
  moreover have qeq: "q = \<lparr> qid = js ''q'' @ decimal (now i) @ js ''-'' @ decimal i,
           qtext = trim (stripQuestionNumber (?ls ! 0)),
           options = snd (findCorrect 0 ?opts),
           correctAnswer = fst (findCorrect 0 ?opts) \<rparr>"
    using q five by (simp add: parseBlock_ok)
  ultimately have qt: "qtext q = stripQuestionNumber (?ls ! 0)"
    by (simp add: trim_trimmed)
  have oq: "options q = snd (findCorrect 0 ?opts)" and cq: "correctAnswer q = fst (findCorrect 0 ?opts)"
    using qeq by simp_all
  show ?thesis
  proof (cases ?opts rule: findCorrect_cases)
    case none
    then show ?thesis using qt oq cq len opt by simp
  next
    case (first k)
    then show ?thesis using qt oq cq len opt by (auto simp: nth_list_update)
  qed
qed

lemma parseQuestionsFromText_ok:
  assumes ne: "questionBlocks (bulkText s) \<noteq> []"
    and five: "\<forall>b\<in>set (questionBlocks (bulkText s)). 5 \<le> length (blockLines b)"
  shows "\<exists>qs. parseQuestionsFromText now s =
            s\<lparr> parsingError := None, questions := qs, showParsingPreview := True \<rparr> \<and>
          length qs = length (questionBlocks (bulkText s)) \<and>
          (\<forall>i<length qs. parseBlock now i (questionBlocks (bulkText s) ! i) = Inr (qs ! i))"
proof -
  let ?bs = "questionBlocks (bulkText s)"
  obtain qs where qs: "parseBlocks now 0 ?bs = Inr qs" "length qs = length ?bs"
      "\<forall>j<length ?bs. parseBlock now (0 + j) (?bs ! j) = Inr (qs ! j)"
    using parseBlocks_ok [of ?bs now 0] five by blast
  have "length qs \<noteq> 0" using qs(2) ne by simp
  then have "parseText now (bulkText s) = Inr qs" using qs(1) by (simp add: parseText_def)
  moreover have "trim (bulkText s) \<noteq> []" using ne by (rule questionBlocks_trim)
  ultimately have "parseQuestionsFromText now s =
      s\<lparr> parsingError := None, questions := qs, showParsingPreview := True \<rparr>"
    by (simp add: parseQuestionsFromText_def)
  then show ?thesis using qs(2,3) by auto
qed

subsection \<open>The error message names the block; the examples evaluated\<close>

lemma digitsValue_decimal: "digitsValue (decimal n) = n"
proof (induction n rule: decimal.induct)
  case (1 n)
  show ?case
  proof (cases "n < 10")
    case True
    then show ?thesis by (subst decimal.simps) simp
  next
    case False
    then have "digitsValue (decimal (n div 10)) = n div 10" using 1 by simp
    then show ?thesis using False by (subst decimal.simps) simp
  qed
qed

lemma decimal_digits: "decimal n \<noteq> [] \<and> list_all isDigit (decimal n)"
proof (induction n rule: decimal.induct)
  case (1 n)
  show ?case
  proof (cases "n < 10")
    case True
    then show ?thesis by (subst (1 2) decimal.simps) (simp add: isDigit_def)
  next
    case False
    then have "list_all isDigit (decimal (n div 10))" using 1 by simp
    moreover have "isDigit (48 + n mod 10)" by (simp add: isDigit_def)
    ultimately show ?thesis using False by (subst (1 2) decimal.simps) simp
  qed
qed

lemma decimal_no_leading_zero: "0 < n \<Longrightarrow> hd (decimal n) \<noteq> 48"
proof (induction n rule: decimal.induct)
  case (1 n)
  show ?case
  proof (cases "n < 10")
    case True
    then show ?thesis using "1.prems" by (subst decimal.simps) simp
  next
    case False
    then have "hd (decimal (n div 10)) \<noteq> 48" using 1 by simp
    moreover have "decimal (n div 10) \<noteq> []" using decimal_digits by blast
    ultimately show ?thesis using False by (subst decimal.simps) simp
  qed
qed

lemma decimal_inj: "decimal m = decimal n \<Longrightarrow> m = n"
  by (metis digitsValue_decimal)

lemma tooFewLines_inj: "tooFewLines j = tooFewLines k \<Longrightarrow> j = k"
  using decimal_inj by (fastforce simp: tooFewLines_def)

lemmas parser_eval =
  js_def NL_def CHECK_def STAR_def matchSep_def isSpace_def isDigit_def isOptionLabel_def
  isDotOrParen_def trim_def questionBlocks_def blockLines_def stripQuestionNumber_def
  stripOptionLabel_def hasMarker_def endsWith_def suffix_to_prefix extractOptions_def Let_def

lemma markedBlock_blocks: "questionBlocks markedBlock = [markedBlock]"
  by (simp add: markedBlock_def parser_eval)

lemma markedBlock_lines: "blockLines markedBlock = [js ''Q'', js ''A'', js ''B'', js ''C*'', js ''D'']"
  by (simp add: markedBlock_def parser_eval)

lemma markedBlock_parse:
  "parseQuestionsFromText (\<lambda>_. 0) (page markedBlock) =
     (page markedBlock) \<lparr> questions := [\<lparr> qid = js ''q0-0'', qtext = js ''Q'',
         options = [js ''A'', js ''B'', js ''C'', js ''D''], correctAnswer = 2 \<rparr>],
       showParsingPreview := True \<rparr>"
  by (simp add: markedBlock_def page_def parser_eval parseBlock_def parseText_def
      parseQuestionsFromText_def findCorrect.simps decimal.simps)

lemma twoQuestions_blocks:
  "questionBlocks twoQuestions =
     [js ''1. Q'' @ [NL] @ js ''A. x'' @ [NL] @ js ''b) y'' @ [NL] @ js ''C. z*'' @ [NL] @ js ''D. w'',
      js ''R'' @ [NL] @ js ''S'' @ [NL] @ js ''T'' @ [NL] @ js ''U'' @ [NL] @ js ''V'']"
  by (simp add: twoQuestions_def parser_eval)

lemma twoQuestions_lines:
  "map blockLines (questionBlocks twoQuestions) =
     [[js ''1. Q'', js ''A. x'', js ''b) y'', js ''C. z*'', js ''D. w''],
      [js ''R'', js ''S'', js ''T'', js ''U'', js ''V'']]"
  by (simp add: twoQuestions_def parser_eval)

lemma thirdMarked_lines:
  "blockLines thirdMarked = [js ''Q'', js ''A'', js ''B'', js ''C (correct)'', js ''D*'']"
  by (simp add: thirdMarked_def parser_eval)

lemma sixLines_lines:
  "blockLines sixLines = [js ''Q'', js ''A'', js ''B'', js ''C'', js ''D'', js ''E'']"
  by (simp add: sixLines_def parser_eval)

lemma secondBlockShort_lines:
  "map blockLines (questionBlocks secondBlockShort) =
     [[js ''Q'', js ''A'', js ''B'', js ''C'', js ''D''], [js ''R'', js ''S'']]"
  by (simp add: secondBlockShort_def parser_eval)

lemma firstBlockShort_lines:
  "map blockLines (questionBlocks firstBlockShort) =
     [[js ''R'', js ''S''], [js ''Q'', js ''A'', js ''B'', js ''C'', js ''D'']]"
  by (simp add: firstBlockShort_def parser_eval)

lemma sixLines_truncated:
  "joinLines (take 5 (blockLines sixLines)) =
     js ''Q'' @ [NL] @ js ''A'' @ [NL] @ js ''B'' @ [NL] @ js ''C'' @ [NL] @ js ''D''"
  by (simp add: sixLines_lines)

subsection \<open>Texts written block by block split into their blocks\<close>

lemma solid_not_Nil: "solid s \<Longrightarrow> s \<noteq> []"
  by auto

lemma matchSep_solid: "solid s \<Longrightarrow> matchSep (s @ t) = None \<or> (\<exists>c. s = [c])"
  by (cases s rule: solid.cases) (auto simp: matchSep_def Let_def NL_isSpace)

lemma matchSep_blank_line:
  "t \<noteq> [] \<Longrightarrow> \<not> isSpace (hd t) \<Longrightarrow> matchSep (NL # NL # t) = Some 2"
  by (cases t) (auto simp: matchSep_def Let_def NL_isSpace)

lemma splitBlocks_solid_then:
  assumes "solid s" and "t \<noteq> []" and "\<not> isSpace (hd t)"
  shows "splitBlocks (s @ NL # NL # t) = s # splitBlocks t"
  using assms(1)
proof (induction s rule: solid.induct)
  case 1
  then show ?case by simp
next
  case (2 c)
  then have "c \<noteq> NL" using NL_isSpace by auto
  then have "matchSep (c # NL # NL # t) = None" by (simp add: matchSep_def)
  moreover have "splitBlocks (NL # NL # t) = [] # splitBlocks t"
    using matchSep_blank_line [OF assms(2,3)] by simp
  ultimately show ?case by (simp add: Let_def)
next
  case (3 c d cs)
  then have ih: "splitBlocks ((d # cs) @ NL # NL # t) = (d # cs) # splitBlocks t" by simp
  have "matchSep (c # (d # cs) @ NL # NL # t) = None"
    using "3.prems" by (auto simp: matchSep_def Let_def)
  then show ?case using ih by (simp add: Let_def)
qed

lemma splitBlocks_solid:
  assumes "solid s"
  shows "splitBlocks s = [s]"
  using assms
proof (induction s rule: solid.induct)
  case 1
  then show ?case by simp
next
  case (2 c)
  then have "c \<noteq> NL" using NL_isSpace by auto
  then show ?case by (simp add: matchSep_def Let_def)
next
  case (3 c d cs)
  then have ih: "splitBlocks (d # cs) = [d # cs]" by simp
  have "matchSep (c # d # cs) = None"
    using "3.prems" by (auto simp: matchSep_def Let_def)
  then show ?case using ih by (simp add: Let_def)
qed

lemma solid_hd_last: "solid s \<Longrightarrow> \<not> isSpace (last s)"
  by (induction s rule: solid.induct) auto

lemma solid_plainLine:
  assumes "plainLine l"
  shows "solid l"
proof -
  have "l \<noteq> [] \<Longrightarrow> NL \<notin> set l \<Longrightarrow> \<not> isSpace (last l) \<Longrightarrow> solid l"
    by (induction l rule: solid.induct) auto
  then show ?thesis using assms by (auto simp: plainLine_def trimmed_def)
qed

lemma solid_append:
  assumes "plainLine l" and "solid s" and "\<not> isSpace (hd s)"
  shows "solid (l @ NL # s)"
proof -
  have "l \<noteq> [] \<Longrightarrow> NL \<notin> set l \<Longrightarrow> solid (l @ NL # s)"
  proof (induction l rule: solid.induct)
    case 1
    then show ?case by simp
  next
    case (2 c)
    then show ?case using assms(2,3) by (cases s) auto
  next
    case (3 c d cs)
    then show ?case by auto
  qed
  then show ?thesis using assms(1) by (auto simp: plainLine_def)
qed

lemma hd_joinLines: "ls \<noteq> [] \<Longrightarrow> hd ls \<noteq> [] \<Longrightarrow> hd (joinLines ls) = hd (hd ls)"
  by (induction ls rule: joinLines.induct) auto

lemma solid_joinLines:
  "ls \<noteq> [] \<Longrightarrow> (\<And>l. l \<in> set ls \<Longrightarrow> plainLine l) \<Longrightarrow> solid (joinLines ls)"
proof (induction ls rule: joinLines.induct)
  case 1
  then show ?case by simp
next
  case (2 l)
  then show ?case by (simp add: solid_plainLine)
next
  case (3 l l' ls)
  have s: "solid (joinLines (l' # ls))" using 3 by simp
  have "plainLine l'" using 3 by simp
  then have "\<not> isSpace (hd (joinLines (l' # ls)))"
    by (auto simp: hd_joinLines plainLine_def trimmed_def)
  moreover have "plainLine l" using 3 by simp
  ultimately show ?case using s by (simp add: solid_append)
qed

lemma solid_trim: "solid s \<Longrightarrow> trim s \<noteq> []"
  using solid_hd_last [of s] solid_not_Nil [of s] by (auto simp: trim_Nil_iff)

lemma questionBlocks_joinBlocks:
  "(\<And>b. b \<in> set bs \<Longrightarrow> solid b \<and> \<not> isSpace (hd b)) \<Longrightarrow> bs \<noteq> [] \<Longrightarrow>
   questionBlocks (joinBlocks bs) = bs"
proof (induction bs rule: joinBlocks.induct)
  case 1
  then show ?case by simp
next
  case (2 b)
  then show ?case by (simp add: questionBlocks_def splitBlocks_solid solid_trim)
next
  case (3 b b' bs)
  let ?t = "joinBlocks (b' # bs)"
  have ih: "questionBlocks ?t = b' # bs" using 3 by simp
  have b: "solid b" and b': "solid b'" "\<not> isSpace (hd b')" using "3.prems" by simp_all
  have "hd ?t = hd b'" using solid_not_Nil [OF b'(1)] by (cases bs) auto
  moreover have "?t \<noteq> []" using solid_not_Nil [OF b'(1)] by (cases bs) auto
  ultimately have "splitBlocks (b @ NL # NL # ?t) = b # splitBlocks ?t"
    using b b'(2) by (intro splitBlocks_solid_then) simp_all
  then show ?case using ih solid_trim [OF b] by (simp add: questionBlocks_def)
qed

lemma blocks_of_lines:
  assumes "lss \<noteq> []" and "\<forall>ls\<in>set lss. 5 \<le> length ls \<and> (\<forall>l\<in>set ls. plainLine l)"
  shows "questionBlocks (joinBlocks (map joinLines lss)) = map joinLines lss"
    and "map blockLines (map joinLines lss) = lss"
proof -
  have solid: "\<And>b. b \<in> set (map joinLines lss) \<Longrightarrow> solid b \<and> \<not> isSpace (hd b)"
  proof -
    fix b assume "b \<in> set (map joinLines lss)"
    then obtain ls where ls: "ls \<in> set lss" "b = joinLines ls" by auto
    then have ne: "ls \<noteq> []" and plain: "\<And>l. l \<in> set ls \<Longrightarrow> plainLine l"
      using assms(2) by auto
    have "plainLine (hd ls)" using ne plain by simp
    then have "\<not> isSpace (hd (joinLines ls))"
      using ne by (auto simp: hd_joinLines plainLine_def trimmed_def)
    then show "solid b \<and> \<not> isSpace (hd b)"
      using ls(2) solid_joinLines [OF ne plain] by simp
  qed
  show "questionBlocks (joinBlocks (map joinLines lss)) = map joinLines lss"
    using solid assms(1) by (intro questionBlocks_joinBlocks) simp_all
  have "\<And>ls. ls \<in> set lss \<Longrightarrow> blockLines (joinLines ls) = ls"
  proof -
    fix ls assume ls: "ls \<in> set lss"
    then have "ls \<noteq> []" and "\<And>l. l \<in> set ls \<Longrightarrow> NL \<notin> set l \<and> trimmed l \<and> l \<noteq> []"
      using assms(2) by (auto simp: plainLine_def)
    then show "blockLines (joinLines ls) = ls" by (rule blockLines_joinLines)
  qed
  then show "map blockLines (map joinLines lss) = lss" by (simp add: map_idI)
qed

lemma twoQuestionsLines_text: "joinBlocks (map joinLines twoQuestionsLines) = twoQuestions"
  by (simp add: twoQuestionsLines_def twoQuestions_def)

lemma twoQuestionsLines_plain:
  "\<forall>ls\<in>set twoQuestionsLines. 5 \<le> length ls \<and> (\<forall>l\<in>set ls. plainLine l)"
  by (simp add: twoQuestionsLines_def plainLine_def trimmed_def js_def NL_def isSpace_def)

lemma three_markers:
  "hasMarker (js ''C*'') \<and> trim (removeMarkers (js ''C*'')) = js ''C'' \<and>
   hasMarker (js ''C (correct)'') \<and> trim (removeMarkers (js ''C (correct)'')) = js ''C'' \<and>
   hasMarker (js ''C '' @ [CHECK]) \<and> trim (removeMarkers (js ''C '' @ [CHECK])) = js ''C'' \<and>
   \<not> hasMarker ([CHECK] @ js '' C'') \<and>
   removeMarkers (js ''(cor*rect)'') = js ''(correct)''"
  by (simp add: parser_eval)

section \<open>Properties of the quiz service\<close>

subsection \<open>Reading and writing the local storage\<close>

lemma safe_getItem_quizzes:
  "safeLocalStorage_getItem key_localQuizzes b = (if readable b then localQuizzes (storage b) else None)"
  by (simp add: safeLocalStorage_getItem_def localStorage_getItem_def key_localQuizzes_def readable_def)

lemma safe_getItem_history:
  "safeLocalStorage_getItem key_quizHistory b = (if readable b then quizHistory (storage b) else None)"
  by (simp add: safeLocalStorage_getItem_def localStorage_getItem_def key_quizHistory_def readable_def)

lemma safe_setItem_quizzes:
  "safeLocalStorage_setItem key_localQuizzes v b =
     (if writable b then b\<lparr> storage := (storage b)\<lparr> localQuizzes := Some v \<rparr> \<rparr> else b)"
  by (simp add: safeLocalStorage_setItem_def localStorage_setItem_def key_localQuizzes_def writable_def)

lemma safe_setItem_history:
  "safeLocalStorage_setItem key_quizHistory v b =
     (if writable b then b\<lparr> storage := (storage b)\<lparr> quizHistory := Some v \<rparr> \<rparr> else b)"
  by (simp add: safeLocalStorage_setItem_def localStorage_setItem_def key_quizHistory_def writable_def)

lemma readLocalQuizzes_eq:
  "readLocalQuizzes b =
     (if quizzesNotIterable b then Other
      else (case quizzesString b of
              Some s \<Rightarrow> Str s
            | None \<Rightarrow> Array (localQuizList b)))"
  by (simp add: readLocalQuizzes_def safe_getItem_quizzes JSON_parse_def quizzesNotIterable_def
      quizzesString_def localQuizList_def split: option.splits stored.splits)

lemma push_readLocalQuizzes:
  "js_push (readLocalQuizzes b) x =
     (if quizzesNotArray b then Inl TypeError else Inr (Array (localQuizList b @ [x])))"
  by (simp add: readLocalQuizzes_def safe_getItem_quizzes JSON_parse_def quizzesNotArray_def
      localQuizList_def js_push_def split: option.splits stored.splits)

lemma fetchQuizRows_eq: "fetchQuizRows r = remoteRows r"
  by (simp add: fetchQuizRows_def remoteRows_def orThrow_def
      split: response.splits option.splits)

lemma getAllQuizzes_eq:
  "getAllQuizzes r b =
     Inr (if quizzesNotIterable b then []
          else map Element (map formatRow (remoteRows r)) @
               (case quizzesString b of
                  None \<Rightarrow> map Element (localQuizList b)
                | Some s \<Rightarrow> map CodePoint (codePoints s)))"
  by (simp add: getAllQuizzes_def readLocalQuizzes_eq fetchQuizRows_eq js_spread_def
      split: option.splits)

lemma concat_codePoints: "concat (codePoints s) = s"
  by (induction s rule: codePoints.induct) simp_all

lemma codePoints_pieces:
  "list_all (\<lambda>p. length p = 1 \<or> (length p = 2 \<and> isLeadSurrogate (p ! 0) \<and> isTrailSurrogate (p ! 1)))
     (codePoints s)"
  by (induction s rule: codePoints.induct) simp_all

lemma first_codePoint: "codePoints (d # cs) ! 0 ! 0 = d"
  by (cases cs) simp_all

lemma codePoints_Nil_iff: "codePoints s = [] \<longleftrightarrow> s = []"
  by (induction s rule: codePoints.induct) simp_all

lemma codePoints_greedy:
  "Suc i < length (codePoints s) \<Longrightarrow> length (codePoints s ! i) = 1 \<Longrightarrow>
   isLeadSurrogate (codePoints s ! i ! 0) \<Longrightarrow> \<not> isTrailSurrogate (codePoints s ! Suc i ! 0)"
proof (induction s arbitrary: i rule: codePoints.induct)
  case 1
  then show ?case by simp
next
  case (2 c)
  then show ?case by simp
next
  case (3 c d cs)
  show ?case
  proof (cases "isLeadSurrogate c \<and> isTrailSurrogate d")
    case True
    then have eq: "codePoints (c # d # cs) = [c, d] # codePoints cs" by simp
    show ?thesis
    proof (cases i)
      case 0
      then show ?thesis using "3.prems"(2) eq by simp
    next
      case (Suc j)
      then show ?thesis using "3.prems" "3.IH"(1) [OF True, of j] eq by simp
    qed
  next
    case False
    then have eq: "codePoints (c # d # cs) = [c] # codePoints (d # cs)" by auto
    show ?thesis
    proof (cases i)
      case 0
      have "codePoints (d # cs) ! 0 ! 0 = d" by (rule first_codePoint)
      then show ?thesis using 0 "3.prems"(3) False eq by auto
    next
      case (Suc j)
      then show ?thesis using "3.prems" "3.IH"(2) [OF False, of j] eq by simp
    qed
  qed
qed

lemma fetchQuiz_fails: "remoteQuiz r i = None \<Longrightarrow> \<exists>e. fetchQuiz r i = Inl e"
  by (auto simp: fetchQuiz_def remoteQuiz_def orThrow_def split: response.splits option.splits)

lemma fetchQuiz_ok: "remoteQuiz r i = Some d \<Longrightarrow> fetchQuiz r i = Inr (formatQuiz d)"
  by (auto simp: fetchQuiz_def remoteQuiz_def orThrow_def split: response.splits option.splits)

lemma findLocalQuiz_eq: "findLocalQuiz i b = find (\<lambda>q. quiz_id q = i) (localQuizList b)"
  by (simp add: findLocalQuiz_def safe_getItem_quizzes JSON_parse_def js_find_def localQuizList_def
      split: option.splits stored.splits)

lemma getQuizById_remote: "remoteQuiz r i = Some d \<Longrightarrow> getQuizById r i b = Inr (formatQuiz d)"
  by (simp add: getQuizById_def fetchQuiz_ok)

lemma getQuizById_local:
  "remoteQuiz r i = None \<Longrightarrow>
   getQuizById r i b =
     (case find (\<lambda>q. quiz_id q = i) (localQuizList b) of
        Some q \<Rightarrow> Inr q
      | None \<Rightarrow> Inl (Error (js ''Quiz not found'')))"
  using fetchQuiz_fails [of r i] by (auto simp: getQuizById_def findLocalQuiz_eq)

lemma find_fails_iff:
  "(\<exists>e. (case find P xs of Some q \<Rightarrow> Inr q | None \<Rightarrow> Inl x) = Inl e) \<longleftrightarrow> (\<forall>q\<in>set xs. \<not> P q)"
proof (cases "find P xs")
  case None
  then have "\<forall>q\<in>set xs. \<not> P q" by (simp add: find_None_iff)
  then show ?thesis unfolding None by simp
next
  case (Some q)
  then have "q \<in> set xs \<and> P q" by (auto simp: find_Some_iff)
  then show ?thesis unfolding Some by auto
qed

subsection \<open>createQuiz\<close>

lemma createQuizRemote_fails: "quizRowNotCreated r quiz \<Longrightarrow> \<exists>e. createQuizRemote r quiz = Inl e"
  by (auto simp: quizRowNotCreated_def createQuizRemote_def orThrow_def
      split: sum.splits response.splits option.splits)

lemma createQuizLocal_eq:
  "createQuizLocal newId now quiz b =
     (if quizzesNotArray b then (Inl TypeError, b)
      else (Inr newId,
            if writable b
            then b\<lparr> storage := (storage b)
                   \<lparr> localQuizzes := Some (Items (localQuizList b @ [localQuiz newId now quiz])) \<rparr> \<rparr>
            else b))"
  by (simp add: createQuizLocal_def push_readLocalQuizzes JSON_stringify_def
      safe_setItem_quizzes)

lemma createQuiz_fallback:
  "quizRowNotCreated r quiz \<Longrightarrow> createQuiz r newId now quiz b = createQuizLocal newId now quiz b"
  using createQuizRemote_fails [of r quiz] by (auto simp: createQuiz_def)

lemma localQuizList_after_write:
  "readable b \<Longrightarrow>
   localQuizList (b\<lparr> storage := (storage b)\<lparr> localQuizzes := Some (Items xs) \<rparr> \<rparr>) = xs"
  by (simp add: localQuizList_def readable_def)

lemma find_appended:
  "\<forall>q\<in>set xs. \<not> P q \<Longrightarrow> P x \<Longrightarrow> find P (xs @ [x]) = Some x"
  by (induction xs) auto

subsection \<open>saveQuizResult\<close>

lemma saveResultRemote_ok:
  "resultInserted r result = Some i \<Longrightarrow> saveResultRemote r result = Inr (ReturnedId i)"
  by (auto simp: resultInserted_def saveResultRemote_def orThrow_def
      split: sum.splits response.splits option.splits)

lemma saveResultRemote_fails:
  "resultInsertFails r result \<Longrightarrow> \<exists>e. saveResultRemote r result = Inl e"
  by (auto simp: resultInsertFails_def saveResultRemote_def orThrow_def
      split: sum.splits response.splits option.splits)

lemma saveResultRemote_cases:
  "(\<exists>i. resultInserted r result = Some i \<and> saveResultRemote r result = Inr (ReturnedId i)) \<or>
   (resultInsertFails r result \<and> resultInserted r result = None \<and> (\<exists>e. saveResultRemote r result = Inl e)) \<or>
   (\<not> resultInsertFails r result \<and> resultInserted r result = None \<and>
      saveResultRemote r result = Inr ReturnedUndefined)"
  by (auto simp: resultInserted_def resultInsertFails_def saveResultRemote_def orThrow_def
      split: sum.splits response.splits option.splits)

lemma saveResultLocal_eq:
  "saveResultLocal newId result b =
     (if historyBroken b
      then (Inl (if quizHistory (storage b) = Some Unparseable then SyntaxError else TypeError), b)
      else (Inr (ReturnedId newId),
            if writable b
            then b\<lparr> storage := (storage b)
                   \<lparr> quizHistory := Some (Items (localHistoryList b @ [localResult newId result])) \<rparr> \<rparr>
            else b))"
  by (auto simp: saveResultLocal_def safe_getItem_history JSON_parse_def js_push_def
      JSON_stringify_def safe_setItem_history historyBroken_def localHistoryList_def
      split: option.splits stored.splits)

lemma saveQuizResult_fallback:
  assumes "resultInsertFails r result"
  shows "saveQuizResult r newId result b =
           (if historyBroken b then (Inr ReturnedNull, b)
            else (Inr (ReturnedId newId),
                  if writable b
                  then b\<lparr> storage := (storage b)
                         \<lparr> quizHistory := Some (Items (localHistoryList b @ [localResult newId result])) \<rparr> \<rparr>
                  else b))"
  using saveResultRemote_fails [OF assms] by (auto simp: saveQuizResult_def saveResultLocal_eq)

subsection \<open>Sorting\<close>

lemma mset_insertSorted: "mset (insertSorted c x ys) = add_mset x (mset ys)"
  by (induction ys) simp_all

lemma mset_stableSort: "mset (stableSort c xs) = mset xs"
  unfolding stableSort_def by (induction xs) (simp_all add: mset_insertSorted)

lemma js_sort_Nil: "js_sort comparefn [] = Exactly []"
  by (simp add: js_sort_def consistentComparator_def stableSort_def)

lemma js_sort_cases:
  obtains hs where "js_sort comparefn xs = Exactly hs" "mset hs = mset xs"
  | "js_sort comparefn xs = Rearranged xs"
  by (cases "consistentComparator (SortCompare comparefn) xs")
    (simp_all add: js_sort_def mset_stableSort)

text \<open>When every time stamp is a date, the comparator is the order of the negated times.\<close>

lemma SortCompare_dates:
  assumes "getTime (h_completedAt x) = Some tx" and "getTime (h_completedAt y) = Some ty"
  shows "SortCompare (compareCompletedAt getTime) x y = ty - tx"
  using assms by (simp add: SortCompare_def compareCompletedAt_def)

lemma consistent_dates:
  assumes "\<forall>h\<in>set hs. getTime (h_completedAt h) \<noteq> None"
  shows "consistentComparator (SortCompare (compareCompletedAt getTime)) hs"
proof -
  have c: "\<And>x y. x \<in> set hs \<Longrightarrow> y \<in> set hs \<Longrightarrow>
      SortCompare (compareCompletedAt getTime) x y =
        the (getTime (h_completedAt y)) - the (getTime (h_completedAt x))"
    using assms by (auto simp: SortCompare_dates)
  show ?thesis
    unfolding consistentComparator_def list_all_iff by (auto simp: c)
qed

lemma insertSorted_dates:
  assumes "\<forall>h\<in>set (x # ys). getTime (h_completedAt h) \<noteq> None"
  shows "insertSorted (SortCompare (compareCompletedAt getTime)) x ys =
         insort_key (\<lambda>h. - the (getTime (h_completedAt h))) x ys"
  using assms
proof (induction ys)
  case Nil
  then show ?case by simp
next
  case (Cons y ys)
  obtain tx ty where t: "getTime (h_completedAt x) = Some tx" "getTime (h_completedAt y) = Some ty"
    using Cons.prems by auto
  have "insertSorted (SortCompare (compareCompletedAt getTime)) x ys =
        insort_key (\<lambda>h. - the (getTime (h_completedAt h))) x ys"
    using Cons.prems by (intro Cons.IH) simp
  then show ?case using t by (simp add: SortCompare_dates)
qed

lemma stableSort_dates:
  assumes "\<forall>h\<in>set hs. getTime (h_completedAt h) \<noteq> None"
  shows "stableSort (SortCompare (compareCompletedAt getTime)) hs =
         sort_key (\<lambda>h. - the (getTime (h_completedAt h))) hs"
  using assms
proof (induction hs)
  case Nil
  then show ?case by (simp add: stableSort_def)
next
  case (Cons h hs)
  let ?f = "\<lambda>h. - the (getTime (h_completedAt h))"
  have IH: "stableSort (SortCompare (compareCompletedAt getTime)) hs = sort_key ?f hs"
    using Cons by simp
  have "\<forall>k\<in>set (h # sort_key ?f hs). getTime (h_completedAt k) \<noteq> None"
    using Cons.prems by simp
  then have "insertSorted (SortCompare (compareCompletedAt getTime)) h (sort_key ?f hs) =
        insort_key ?f h (sort_key ?f hs)"
    by (rule insertSorted_dates)
  then show ?case using IH by (simp add: stableSort_def sort_key_def)
qed

lemma js_sort_dates:
  assumes "\<forall>h\<in>set hs. getTime (h_completedAt h) \<noteq> None"
  shows "js_sort (compareCompletedAt getTime) hs =
         Exactly (sort_key (\<lambda>h. - the (getTime (h_completedAt h))) hs)"
  using assms by (simp add: js_sort_def consistent_dates stableSort_dates)

lemma sorted_dates:
  assumes "\<forall>h\<in>set hs. getTime (h_completedAt h) \<noteq> None"
  shows "sorted_wrt (completedNoEarlier getTime) (sort_key (\<lambda>h. - the (getTime (h_completedAt h))) hs)"
proof -
  let ?f = "\<lambda>h. - the (getTime (h_completedAt h))"
  have "sorted (map ?f (sort_key ?f hs))" by (rule sorted_sort_key)
  then have s: "sorted_wrt (\<lambda>x y. ?f x \<le> ?f y) (sort_key ?f hs)" by (simp add: sorted_map)
  have "completedNoEarlier getTime x y"
    if x: "x \<in> set (sort_key ?f hs)" and y: "y \<in> set (sort_key ?f hs)" and le: "?f x \<le> ?f y"
    for x y
  proof -
    have "getTime (h_completedAt x) \<noteq> None" "getTime (h_completedAt y) \<noteq> None"
      using x y assms by simp_all
    then obtain tx ty where "getTime (h_completedAt x) = Some tx" "getTime (h_completedAt y) = Some ty"
      by blast
    then show ?thesis using le by (simp add: completedNoEarlier_def)
  qed
  then show ?thesis using s by (rule sorted_wrt_mono_rel)
qed

lemma stable_dates:
  fixes getTime :: "jsstring \<Rightarrow> int option"
  assumes "\<forall>h\<in>set hs. getTime (h_completedAt h) \<noteq> None"
  shows "filter (\<lambda>h. getTime (h_completedAt h) = Some t)
           (sort_key (\<lambda>h. - the (getTime (h_completedAt h))) hs) =
         filter (\<lambda>h. getTime (h_completedAt h) = Some t) hs"
proof -
  let ?f = "\<lambda>h. - the (getTime (h_completedAt h))"
  have pt: "(getTime (h_completedAt x) = Some t) = (?f x = - t)"
    if "getTime (h_completedAt x) \<noteq> None" for x
    using that by (cases "getTime (h_completedAt x)") simp_all
  have eq: "\<And>xs. \<forall>h\<in>set xs. getTime (h_completedAt h) \<noteq> None \<Longrightarrow>
      filter (\<lambda>h. getTime (h_completedAt h) = Some t) xs = filter (\<lambda>h. ?f h = - t) xs"
    by (rule filter_cong) (simp_all add: pt)
  have "filter (\<lambda>h. ?f h = - t) (sort_key ?f hs) = filter (\<lambda>h. ?f h = - t) hs"
    by (rule sort_key_stable)
  then show ?thesis using eq [of hs] eq [of "sort_key ?f hs"] assms by simp
qed

text \<open>When no time stamp is a date, every comparison is \<open>NaN\<close> and the array stays as it is.\<close>

lemma SortCompare_no_date:
  "getTime (h_completedAt x) = None \<or> getTime (h_completedAt y) = None \<Longrightarrow>
   SortCompare (compareCompletedAt getTime) x y = 0"
  by (auto simp: SortCompare_def compareCompletedAt_def split: option.splits)

lemma insertSorted_zero: "c x (hd (ys @ [x])) = 0 \<Longrightarrow> insertSorted c x ys = x # ys"
  by (cases ys) simp_all

lemma js_sort_no_dates:
  assumes "\<forall>h\<in>set hs. getTime (h_completedAt h) = None"
  shows "js_sort (compareCompletedAt getTime) hs = Exactly hs"
proof -
  have z: "\<And>x y. x \<in> set hs \<Longrightarrow> SortCompare (compareCompletedAt getTime) x y = 0"
    using assms by (simp add: SortCompare_no_date)
  have z': "\<And>x y. y \<in> set hs \<Longrightarrow> SortCompare (compareCompletedAt getTime) x y = 0"
    using assms by (simp add: SortCompare_no_date)
  have "consistentComparator (SortCompare (compareCompletedAt getTime)) hs"
    unfolding consistentComparator_def list_all_iff by (simp add: z)
  moreover have "stableSort (SortCompare (compareCompletedAt getTime)) hs = hs"
    using assms
  proof (induction hs)
    case Nil
    then show ?case by (simp add: stableSort_def)
  next
    case (Cons h hs)
    then have "stableSort (SortCompare (compareCompletedAt getTime)) hs = hs" by simp
    moreover have "insertSorted (SortCompare (compareCompletedAt getTime)) h hs = h # hs"
      using Cons.prems by (intro insertSorted_zero SortCompare_no_date) simp
    ultimately show ?case by (simp add: stableSort_def)
  qed
  ultimately show ?thesis by (simp add: js_sort_def)
qed

subsection \<open>getQuizHistory\<close>

lemma fetchHistory_eq:
  "fetchHistory r =
     (if remoteHistory r = [] then None else Some (map historyFromRow (remoteHistory r)))"
  by (auto simp: fetchHistory_def remoteHistory_def orThrow_def
      split: response.splits option.splits)

lemma localHistory_eq:
  "localHistory r getTime b =
     (if historyBroken b
      then Inl (if quizHistory (storage b) = Some Unparseable then SyntaxError else TypeError)
      else Inr (js_sort (compareCompletedAt getTime) (map (enhance r b) (localHistoryList b))))"
  by (auto simp: localHistory_def safe_getItem_history JSON_parse_def js_map_def
      historyBroken_def localHistoryList_def js_sort_Nil
      split: option.splits stored.splits)

lemma historyBroken_empty: "historyBroken b \<Longrightarrow> localHistoryList b = []"
  by (auto simp: historyBroken_def localHistoryList_def split: option.splits stored.splits)

lemma getQuizHistory_eq:
  "getQuizHistory r getTime b =
     Inr (if remoteHistory r = []
          then js_sort (compareCompletedAt getTime) (map (enhance r b) (localHistoryList b))
          else Exactly (map historyFromRow (remoteHistory r)))"
  by (simp add: getQuizHistory_def fetchHistory_eq localHistory_eq historyBroken_empty js_sort_Nil)

lemma historyFromRow_eq:
  "historyFromRow item =
     \<lparr> h_id = rr_id item, h_quizId = rr_quiz_id item,
       h_quizTitle = (case rr_quizzes item of Some (c # cs, cat) \<Rightarrow> c # cs | _ \<Rightarrow> js ''Unknown Quiz''),
       h_userName = (case rr_user_name item of Some (c # cs) \<Rightarrow> c # cs | _ \<Rightarrow> js ''Anonymous''),
       h_score = rr_score item, h_totalQuestions = rr_total_questions item,
       h_timeTaken = rr_time_taken item, h_completedAt = rr_completed_at item,
       h_category = (case rr_quizzes item of Some (t, cat) \<Rightarrow> cat | None \<Rightarrow> None),
       h_answers = None \<rparr>"
  by (simp add: historyFromRow_def orElse_def split: option.splits prod.splits list.splits)

lemma enhance_fields:
  "h_id (enhance r b item) = lr_id item \<and> h_quizId (enhance r b item) = lr_quizId item \<and>
   h_userName (enhance r b item) = lr_userName item \<and> h_score (enhance r b item) = lr_score item \<and>
   h_totalQuestions (enhance r b item) = lr_totalQuestions item \<and>
   h_timeTaken (enhance r b item) = lr_timeTaken item \<and>
   h_completedAt (enhance r b item) = lr_completedAt item \<and>
   h_answers (enhance r b item) = Some (lr_answers item)"
  by (simp add: enhance_def split: sum.splits prod.splits)

lemma enhance_found:
  "getQuizById r (lr_quizId item) b = Inr q \<Longrightarrow>
   h_quizTitle (enhance r b item) = title q \<and> h_category (enhance r b item) = category q"
  by (simp add: enhance_def)

lemma enhance_not_found:
  "getQuizById r (lr_quizId item) b = Inl e \<Longrightarrow>
   h_quizTitle (enhance r b item) = js ''Unknown Quiz'' \<and> h_category (enhance r b item) = None"
  by (simp add: enhance_def)

subsection \<open>The example stores\<close>

lemma withHistory_list:
  "localHistoryList withHistory =
     [localResult (js ''h1'') (sampleResult \<lparr> completedAt := js ''t1'' \<rparr>),
      localResult (js ''h2'') (sampleResult \<lparr> quizId := js ''zz'', completedAt := js ''t3'' \<rparr>),
      localResult (js ''h3'') (sampleResult \<lparr> completedAt := js ''t2'' \<rparr>)]"
  by (simp add: localHistoryList_def readable_def withHistory_def emptyBrowser_def)

lemma datedHistory_list:
  "localHistoryList datedHistory =
     [localResult (js ''h1'') (sampleResult \<lparr> completedAt := js ''2024-01-01T00:00:00.000Z'' \<rparr>),
      localResult (js ''h2'')
        (sampleResult \<lparr> quizId := js ''zz'', completedAt := js ''2024-01-03T00:00:00.000Z'' \<rparr>),
      localResult (js ''h3'') (sampleResult \<lparr> completedAt := js ''2024-01-02T00:00:00.000Z'' \<rparr>)]"
  by (simp add: localHistoryList_def readable_def datedHistory_def emptyBrowser_def)

lemma mixedHistory_list:
  "localHistoryList mixedHistory =
     [localResult (js ''h1'') (sampleResult \<lparr> completedAt := js ''2024-01-01T00:00:00.000Z'' \<rparr>),
      localResult (js ''h2'') (sampleResult \<lparr> completedAt := js ''t1'' \<rparr>),
      localResult (js ''h3'') (sampleResult \<lparr> completedAt := js ''2024-01-03T00:00:00.000Z'' \<rparr>)]"
  by (simp add: localHistoryList_def readable_def mixedHistory_def emptyBrowser_def)

lemma datedHistory_quizzes:
  "localQuizList datedHistory = [localQuiz (js ''u1'') (\<lambda>_. js ''t0'') sampleQuiz]"
  by (simp add: localQuizList_def readable_def datedHistory_def emptyBrowser_def)

lemma datedHistory_lookup:
  "getQuizById offline (js ''u1'') datedHistory = Inr (localQuiz (js ''u1'') (\<lambda>_. js ''t0'') sampleQuiz)"
  "getQuizById offline (js ''zz'') datedHistory = Inl (Error (js ''Quiz not found''))"
  by (simp_all add: getQuizById_local remoteQuiz_def offline_def datedHistory_quizzes localQuiz_def js_def)

lemma sampleTime_values:
  "sampleTime (js ''2024-01-01T00:00:00.000Z'') = Some 1704067200000"
  "sampleTime (js ''2024-01-02T00:00:00.000Z'') = Some 1704153600000"
  "sampleTime (js ''2024-01-03T00:00:00.000Z'') = Some 1704240000000"
  "sampleTime (js ''t1'') = None"
  by (simp_all add: sampleTime_def js_def)

lemma datedHistory_sorted:
  "js_sort (compareCompletedAt sampleTime)
     (map (enhance offline datedHistory) (localHistoryList datedHistory)) = Exactly hs \<Longrightarrow>
   map (\<lambda>h. (h_id h, h_quizTitle h, h_completedAt h)) hs =
     [(js ''h2'', js ''Unknown Quiz'', js ''2024-01-03T00:00:00.000Z''),
      (js ''h3'', js ''T'', js ''2024-01-02T00:00:00.000Z''),
      (js ''h1'', js ''T'', js ''2024-01-01T00:00:00.000Z'')]"
proof -
  let ?enhanced = "map (enhance offline datedHistory) (localHistoryList datedHistory)"
  assume a: "js_sort (compareCompletedAt sampleTime) ?enhanced = Exactly hs"
  have "\<forall>h\<in>set ?enhanced. sampleTime (h_completedAt h) \<noteq> None"
    by (simp add: datedHistory_list enhance_fields localResult_def sampleResult_def sampleTime_values)
  then have "js_sort (compareCompletedAt sampleTime) ?enhanced =
      Exactly (sort_key (\<lambda>h. - the (sampleTime (h_completedAt h))) ?enhanced)"
    by (rule js_sort_dates)
  then have "hs = sort_key (\<lambda>h. - the (sampleTime (h_completedAt h))) ?enhanced"
    using a by simp
  then show ?thesis
    by (simp add: datedHistory_list enhance_def datedHistory_lookup localResult_def sampleResult_def
        localQuiz_def sampleQuiz_def sampleTime_values)
qed

lemma mixedHistory_unsettled:
  "js_sort (compareCompletedAt sampleTime)
     (map (enhance offline mixedHistory) (localHistoryList mixedHistory)) =
   Rearranged (map (enhance offline mixedHistory) (localHistoryList mixedHistory))"
proof -
  let ?enhanced = "map (enhance offline mixedHistory) (localHistoryList mixedHistory)"
  let ?c = "SortCompare (compareCompletedAt sampleTime)"
  have stamps: "map h_completedAt ?enhanced =
      [js ''2024-01-01T00:00:00.000Z'', js ''t1'', js ''2024-01-03T00:00:00.000Z'']"
    by (simp add: mixedHistory_list enhance_fields localResult_def sampleResult_def)
  obtain x y z where xyz: "?enhanced = [x, y, z]"
    by (simp add: mixedHistory_list)
  have t: "sampleTime (h_completedAt x) = Some 1704067200000" "sampleTime (h_completedAt y) = None"
    "sampleTime (h_completedAt z) = Some 1704240000000"
    using stamps unfolding xyz by (simp_all add: sampleTime_values)
  have "?c x y = 0" "?c y z = 0" "?c x z \<noteq> 0"
    using t by (simp_all add: SortCompare_def compareCompletedAt_def)
  then have "\<not> consistentComparator ?c [x, y, z]"
    by (simp add: consistentComparator_def)
  then show ?thesis by (simp add: js_sort_def xyz)
qed

section \<open>The claims about the parser\<close>

text \<open>
  Claim C1, as the code has it. For a text of \<open>N \<ge> 1\<close> blocks, each with at least five
  non-empty lines, parsing succeeds and stores exactly \<open>N\<close> questions in block order. The
  text of a question is the first line of its block without its leading number (the final
  \<open>trim\<close> changes nothing on a trimmed line). Its four options are the next four lines
  without their leading labels, except the one option that the marker loop rewrote: the option
  at index \<open>correctAnswer\<close>, when it carries a marker, has its markers removed.
\<close>

theorem wellformed_text_parses:
  assumes ne: "questionBlocks (bulkText s) \<noteq> []"
    and five: "\<forall>b\<in>set (questionBlocks (bulkText s)). 5 \<le> length (blockLines b)"
  shows "parsingError (parseQuestionsFromText now s) = None \<and>
         length (questions (parseQuestionsFromText now s)) = length (questionBlocks (bulkText s)) \<and>
         (\<forall>i<length (questionBlocks (bulkText s)).
            qtext (questions (parseQuestionsFromText now s) ! i) =
              stripQuestionNumber (blockLines (questionBlocks (bulkText s) ! i) ! 0) \<and>
            length (options (questions (parseQuestionsFromText now s) ! i)) = 4 \<and>
            (\<forall>j<4. options (questions (parseQuestionsFromText now s) ! i) ! j =
               (if j = correctAnswer (questions (parseQuestionsFromText now s) ! i) \<and>
                   hasMarker (stripOptionLabel (blockLines (questionBlocks (bulkText s) ! i) ! (j + 1)))
                then trim (removeMarkers
                       (stripOptionLabel (blockLines (questionBlocks (bulkText s) ! i) ! (j + 1))))
                else stripOptionLabel (blockLines (questionBlocks (bulkText s) ! i) ! (j + 1)))))"
proof -
  let ?bs = "questionBlocks (bulkText s)"
  obtain qs where s': "parseQuestionsFromText now s =
        s\<lparr> parsingError := None, questions := qs, showParsingPreview := True \<rparr>"
    and len: "length qs = length ?bs"
    and each: "\<forall>i<length qs. parseBlock now i (?bs ! i) = Inr (qs ! i)"
    using parseQuestionsFromText_ok [OF ne five] by blast
  have "\<And>i. i < length ?bs \<Longrightarrow>
      qtext (qs ! i) = stripQuestionNumber (blockLines (?bs ! i) ! 0) \<and>
      length (options (qs ! i)) = 4 \<and> correctAnswer (qs ! i) < 4 \<and>
      (\<forall>j<4. options (qs ! i) ! j =
          (if j = correctAnswer (qs ! i) \<and> hasMarker (stripOptionLabel (blockLines (?bs ! i) ! (j + 1)))
           then trim (removeMarkers (stripOptionLabel (blockLines (?bs ! i) ! (j + 1))))
           else stripOptionLabel (blockLines (?bs ! i) ! (j + 1))))"
  proof -
    fix i assume i: "i < length ?bs"
    then have "5 \<le> length (blockLines (?bs ! i))" using five by simp
    moreover have "parseBlock now i (?bs ! i) = Inr (qs ! i)" using each i len by simp
    ultimately show "qtext (qs ! i) = stripQuestionNumber (blockLines (?bs ! i) ! 0) \<and>
      length (options (qs ! i)) = 4 \<and> correctAnswer (qs ! i) < 4 \<and>
      (\<forall>j<4. options (qs ! i) ! j =
          (if j = correctAnswer (qs ! i) \<and> hasMarker (stripOptionLabel (blockLines (?bs ! i) ! (j + 1)))
           then trim (removeMarkers (stripOptionLabel (blockLines (?bs ! i) ! (j + 1))))
           else stripOptionLabel (blockLines (?bs ! i) ! (j + 1))))"
      by (rule parseBlock_spec)
  qed
  then show ?thesis using s' len by simp
qed

text \<open>
  The claim as it is worded says that the options are exactly the four lines with their labels
  stripped. The block \<open>Q / A / B / C* / D\<close> shows the difference: the third stripped line is
  \<open>C*\<close>, the third option of the parsed question is \<open>C\<close>.
\<close>

theorem options_not_exactly_stripped_lines:
  "questionBlocks (bulkText (page markedBlock)) = [markedBlock] \<and>
   length (blockLines markedBlock) = 5 \<and>
   map stripOptionLabel (take 4 (drop 1 (blockLines markedBlock))) =
     [js ''A'', js ''B'', js ''C*'', js ''D''] \<and>
   options (questions (parseQuestionsFromText (\<lambda>_. 0) (page markedBlock)) ! 0) =
     [js ''A'', js ''B'', js ''C'', js ''D''] \<and>
   options (questions (parseQuestionsFromText (\<lambda>_. 0) (page markedBlock)) ! 0) \<noteq>
     map stripOptionLabel (take 4 (drop 1 (blockLines markedBlock)))"
proof -
  have "bulkText (page markedBlock) = markedBlock" by (simp add: page_def)
  moreover have "map stripOptionLabel (take 4 (drop 1 (blockLines markedBlock))) =
     [js ''A'', js ''B'', js ''C*'', js ''D'']"
    by (simp add: markedBlock_lines) (simp add: parser_eval)
  moreover have "[js ''A'', js ''B'', js ''C'', js ''D''] \<noteq> [js ''A'', js ''B'', js ''C*'', js ''D'']"
    by (simp add: js_def)
  ultimately show ?thesis
    by (simp add: markedBlock_blocks markedBlock_lines markedBlock_parse)
qed

theorem wellformed_text_parses_witness:
  "questionBlocks (bulkText (page twoQuestions)) \<noteq> [] \<and>
   list_all (\<lambda>b. 5 \<le> length (blockLines b)) (questionBlocks (bulkText (page twoQuestions))) \<and>
   parsingError (parseQuestionsFromText (\<lambda>_. 0) (page twoQuestions)) = None \<and>
   length (questions (parseQuestionsFromText (\<lambda>_. 0) (page twoQuestions))) = 2 \<and>
   qtext (questions (parseQuestionsFromText (\<lambda>_. 0) (page twoQuestions)) ! 0) = js ''Q'' \<and>
   options (questions (parseQuestionsFromText (\<lambda>_. 0) (page twoQuestions)) ! 0) ! 1 = js ''y'' \<and>
   qtext (questions (parseQuestionsFromText (\<lambda>_. 0) (page twoQuestions)) ! 1) = js ''R'' \<and>
   options (questions (parseQuestionsFromText (\<lambda>_. 0) (page twoQuestions)) ! 1) ! 3 = js ''V''"
proof -
  let ?s = "page twoQuestions"
  let ?bs = "questionBlocks (bulkText ?s)"
  let ?qs = "questions (parseQuestionsFromText (\<lambda>_. 0) ?s)"
  have t: "bulkText ?s = twoQuestions" by (simp add: page_def)
  have len: "length ?bs = 2" by (simp add: t twoQuestions_blocks)
  have l0: "blockLines (?bs ! 0) = [js ''1. Q'', js ''A. x'', js ''b) y'', js ''C. z*'', js ''D. w'']"
    and l1: "blockLines (?bs ! 1) = [js ''R'', js ''S'', js ''T'', js ''U'', js ''V'']"
    using twoQuestions_lines len by (simp_all add: t nth_map [symmetric] del: nth_map)
  have ne: "?bs \<noteq> []" using len by auto
  have five: "\<forall>b\<in>set ?bs. 5 \<le> length (blockLines b)"
    using twoQuestions_lines by (simp add: t twoQuestions_blocks)
  note w = wellformed_text_parses [OF ne five, of "\<lambda>_. 0"]
  have e: "parsingError (parseQuestionsFromText (\<lambda>_. 0) ?s) = None"
    using w by (rule conjunct1)
  have n: "length ?qs = 2"
    using w [THEN conjunct2, THEN conjunct1] len by simp
  have b0: "0 < length ?bs" and b1: "1 < length ?bs" using len by simp_all
  note each = w [THEN conjunct2, THEN conjunct2, THEN spec, THEN mp]
  note q0 = each [OF b0, THEN conjunct1]
    and o0 = each [OF b0, THEN conjunct2, THEN conjunct2, THEN spec, THEN mp]
    and q1 = each [OF b1, THEN conjunct1]
    and o1 = each [OF b1, THEN conjunct2, THEN conjunct2, THEN spec, THEN mp]
  have "qtext (?qs ! 0) = js ''Q''" unfolding q0 l0 by (simp add: parser_eval)
  moreover have "options (?qs ! 0) ! 1 = js ''y''"
    using o0 [of 1] unfolding l0 by (simp add: parser_eval)
  moreover have "qtext (?qs ! 1) = js ''R''" unfolding q1 l1 by (simp add: parser_eval)
  moreover have "options (?qs ! 1) ! 3 = js ''V''"
    using o1 [of 3] unfolding l1 by (simp add: parser_eval)
  ultimately show ?thesis using ne five e n by (simp add: list_all_iff)
qed

text \<open>
  Claim C2. In a block that parses, the four extracted options are scanned in index order. The
  first one with a marker (it contains \<open>(correct)\<close> or \<open>*\<close>, or ends with the check mark)
  gives \<open>correctAnswer\<close> and is replaced by itself with the markers deleted and the result
  trimmed: what is left contains no \<open>*\<close> and no check mark and is a subsequence of the
  option. Every other option, before or after it, keeps its text. With no marker at all
  \<open>correctAnswer\<close> is 0 and all four options keep their text.
\<close>

theorem first_marked_option_is_correct:
  assumes five: "5 \<le> length (blockLines block)"
  shows "\<exists>q. parseBlock now index block = Inr q \<and>
           length (extractOptions (blockLines block)) = 4 \<and>
           (\<forall>k<4. hasMarker (extractOptions (blockLines block) ! k) \<and>
                  (\<forall>j<k. \<not> hasMarker (extractOptions (blockLines block) ! j)) \<longrightarrow>
                  correctAnswer q = k \<and>
                  options q = (extractOptions (blockLines block))
                    [k := trim (removeMarkers (extractOptions (blockLines block) ! k))] \<and>
                  STAR \<notin> set (options q ! k) \<and> CHECK \<notin> set (options q ! k) \<and>
                  subseq (options q ! k) (extractOptions (blockLines block) ! k)) \<and>
           ((\<forall>k<4. \<not> hasMarker (extractOptions (blockLines block) ! k)) \<longrightarrow>
              correctAnswer q = 0 \<and> options q = extractOptions (blockLines block))"
proof -
  let ?opts = "extractOptions (blockLines block)"
  define q where "q = \<lparr> qid = js ''q'' @ decimal (now index) @ js ''-'' @ decimal index,
           qtext = trim (stripQuestionNumber (blockLines block ! 0)),
           options = snd (findCorrect 0 ?opts),
           correctAnswer = fst (findCorrect 0 ?opts) \<rparr>"
  have q: "parseBlock now index block = Inr q" using five by (simp add: parseBlock_ok q_def)
  have len: "length ?opts = 4" using five by (rule length_extractOptions)
  have none: "(\<forall>k<4. \<not> hasMarker (?opts ! k)) \<longrightarrow> correctAnswer q = 0 \<and> options q = ?opts"
  proof
    assume "\<forall>k<4. \<not> hasMarker (?opts ! k)"
    then have "findCorrect 0 ?opts = (0, ?opts)" using len by (intro findCorrect_none) simp
    then show "correctAnswer q = 0 \<and> options q = ?opts" by (simp add: q_def)
  qed
  have first: "\<forall>k<4. hasMarker (?opts ! k) \<and> (\<forall>j<k. \<not> hasMarker (?opts ! j)) \<longrightarrow>
      correctAnswer q = k \<and> options q = ?opts[k := trim (removeMarkers (?opts ! k))] \<and>
      STAR \<notin> set (options q ! k) \<and> CHECK \<notin> set (options q ! k) \<and>
      subseq (options q ! k) (?opts ! k)"
  proof (intro allI impI)
    fix k :: nat assume k: "k < 4" and m: "hasMarker (?opts ! k) \<and> (\<forall>j<k. \<not> hasMarker (?opts ! j))"
    let ?new = "trim (removeMarkers (?opts ! k))"
    have "findCorrect 0 ?opts = (k, ?opts[k := ?new])"
      using k m len by (intro findCorrect_first) simp_all
    then have r: "correctAnswer q = k" "options q = ?opts[k := ?new]" by (simp_all add: q_def)
    then have at: "options q ! k = ?new" using k len by simp
    have "set ?new \<subseteq> set (removeMarkers (?opts ! k))" by (rule set_trim)
    then have "STAR \<notin> set ?new" "CHECK \<notin> set ?new"
      using removeMarkers_star removeMarkers_check by blast+
    moreover have "subseq ?new (?opts ! k)"
      using sublist_trim subseq_removeMarkers
      by (meson sublist_imp_subseq subseq_order.order_trans)
    ultimately show "correctAnswer q = k \<and> options q = ?opts[k := ?new] \<and>
        STAR \<notin> set (options q ! k) \<and> CHECK \<notin> set (options q ! k) \<and>
        subseq (options q ! k) (?opts ! k)"
      using r at by simp
  qed
  show ?thesis using q len none first by blast
qed

theorem first_marked_option_is_correct_witness:
  "5 \<le> length (blockLines thirdMarked) \<and>
   extractOptions (blockLines thirdMarked) = [js ''A'', js ''B'', js ''C (correct)'', js ''D*''] \<and>
   \<not> hasMarker (js ''A'') \<and> \<not> hasMarker (js ''B'') \<and> hasMarker (js ''C (correct)'') \<and>
   (\<exists>q. parseBlock (\<lambda>_. 0) 0 thirdMarked = Inr q \<and> correctAnswer q = 2 \<and>
        options q = [js ''A'', js ''B'', js ''C'', js ''D*'']) \<and>
   5 \<le> length (blockLines sixLines) \<and>
   extractOptions (blockLines sixLines) = [js ''A'', js ''B'', js ''C'', js ''D''] \<and>
   (\<exists>q. parseBlock (\<lambda>_. 0) 0 sixLines = Inr q \<and> correctAnswer q = 0 \<and>
        options q = [js ''A'', js ''B'', js ''C'', js ''D''])"
proof -
  have five: "5 \<le> length (blockLines thirdMarked)" by (simp add: thirdMarked_lines)
  have opts: "extractOptions (blockLines thirdMarked) =
      [js ''A'', js ''B'', js ''C (correct)'', js ''D*'']"
    by (simp add: thirdMarked_lines) (simp add: parser_eval)
  have m: "\<not> hasMarker (js ''A'')" "\<not> hasMarker (js ''B'')" "hasMarker (js ''C (correct)'')"
    by (simp_all add: parser_eval)
  obtain q where q: "parseBlock (\<lambda>_. 0) 0 thirdMarked = Inr q"
    and first: "\<forall>k<4. hasMarker (extractOptions (blockLines thirdMarked) ! k) \<and>
                  (\<forall>j<k. \<not> hasMarker (extractOptions (blockLines thirdMarked) ! j)) \<longrightarrow>
                  correctAnswer q = k \<and>
                  options q = (extractOptions (blockLines thirdMarked))
                    [k := trim (removeMarkers (extractOptions (blockLines thirdMarked) ! k))] \<and>
                  STAR \<notin> set (options q ! k) \<and> CHECK \<notin> set (options q ! k) \<and>
                  subseq (options q ! k) (extractOptions (blockLines thirdMarked) ! k)"
    using first_marked_option_is_correct [OF five, of "\<lambda>_. 0" 0] by blast
  have before: "\<forall>j<2. \<not> hasMarker (extractOptions (blockLines thirdMarked) ! j)"
    using m(1,2) by (simp add: opts less_Suc_eq numeral_2_eq_2)
  have "correctAnswer q = 2 \<and>
        options q = (extractOptions (blockLines thirdMarked))
          [2 := trim (removeMarkers (extractOptions (blockLines thirdMarked) ! 2))]"
    using first [THEN spec, of 2] before m(3) by (simp add: opts)
  moreover have "trim (removeMarkers (js ''C (correct)'')) = js ''C''"
    by (simp add: parser_eval)
  ultimately have r: "correctAnswer q = 2 \<and> options q = [js ''A'', js ''B'', js ''C'', js ''D*'']"
    by (simp add: opts)
  have five': "5 \<le> length (blockLines sixLines)" by (simp add: sixLines_lines)
  have opts': "extractOptions (blockLines sixLines) = [js ''A'', js ''B'', js ''C'', js ''D'']"
    by (simp add: sixLines_lines) (simp add: parser_eval)
  obtain q' where q': "parseBlock (\<lambda>_. 0) 0 sixLines = Inr q'"
    and none: "(\<forall>k<4. \<not> hasMarker (extractOptions (blockLines sixLines) ! k)) \<longrightarrow>
              correctAnswer q' = 0 \<and> options q' = extractOptions (blockLines sixLines)"
    using first_marked_option_is_correct [OF five', of "\<lambda>_. 0" 0] by blast
  have "\<forall>k<4. \<not> hasMarker (extractOptions (blockLines sixLines) ! k)"
    unfolding opts' by (simp add: less_Suc_eq eval_nat_numeral) (simp add: parser_eval)
  then have r': "correctAnswer q' = 0 \<and> options q' = [js ''A'', js ''B'', js ''C'', js ''D'']"
    using none opts' by simp
  show ?thesis using five opts m q r five' opts' q' r' by blast
qed

text \<open>
  Claim C3. If some block has fewer than five non-empty lines, the parse fails as a whole. The
  first such block, counted from 0 as \<open>k\<close>, ends the loop with an error whose message is
  \<open>Question block\<close>, the number \<open>k + 1\<close> in decimal digits, and
  \<open>does not have enough lines for a question and 4 options\<close>. No question is produced, for
  this block or for any other: the page keeps the questions it had, and only its parsing
  error changes, to that message.
\<close>

theorem short_block_fails_whole_parse:
  assumes "\<exists>k<length (questionBlocks (bulkText s)).
             length (blockLines (questionBlocks (bulkText s) ! k)) < 5"
  shows "\<exists>k<length (questionBlocks (bulkText s)).
           length (blockLines (questionBlocks (bulkText s) ! k)) < 5 \<and>
           (\<forall>j<k. 5 \<le> length (blockLines (questionBlocks (bulkText s) ! j))) \<and>
           parseText now (bulkText s) =
             Inl (Error (js ''Question block '' @ decimal (k + 1) @
                         js '' does not have enough lines for a question and 4 options'')) \<and>
           parseQuestionsFromText now s =
             s\<lparr> parsingError :=
                  Some (js ''Question block '' @ decimal (k + 1) @
                        js '' does not have enough lines for a question and 4 options'') \<rparr> \<and>
           questions (parseQuestionsFromText now s) = questions s \<and>
           decimal (k + 1) \<noteq> [] \<and> list_all isDigit (decimal (k + 1)) \<and>
           hd (decimal (k + 1)) \<noteq> 48 \<and> digitsValue (decimal (k + 1)) = k + 1"
proof -
  let ?bs = "questionBlocks (bulkText s)"
  let ?short = "\<lambda>k. k < length ?bs \<and> length (blockLines (?bs ! k)) < 5"
  define k where "k = (LEAST k. ?short k)"
  let ?message = "js ''Question block '' @ decimal (k + 1) @
                  js '' does not have enough lines for a question and 4 options''"
  have k: "?short k" unfolding k_def by (rule LeastI_ex) (use assms in blast)
  have before: "\<And>j. j < k \<Longrightarrow> 5 \<le> length (blockLines (?bs ! j))"
  proof -
    fix j assume j: "j < k"
    then have "\<not> ?short j" unfolding k_def by (rule not_less_Least)
    then show "5 \<le> length (blockLines (?bs ! j))" using j k by simp
  qed
  have "parseBlocks now 0 ?bs = Inl (Error (tooFewLines (0 + k)))"
    using k before by (intro parseBlocks_short) simp_all
  then have t: "parseText now (bulkText s) = Inl (Error ?message)"
    by (simp add: parseText_def tooFewLines_def)
  have "?bs \<noteq> []" using k by auto
  then have "trim (bulkText s) \<noteq> []" by (rule questionBlocks_trim)
  then have p: "parseQuestionsFromText now s = s\<lparr> parsingError := Some ?message \<rparr>"
    using t by (simp add: parseQuestionsFromText_def)
  then have q: "questions (parseQuestionsFromText now s) = questions s" by simp
  have d: "decimal (k + 1) \<noteq> [] \<and> list_all isDigit (decimal (k + 1))"
    by (rule decimal_digits)
  have z: "hd (decimal (k + 1)) \<noteq> 48" by (rule decimal_no_leading_zero) simp
  have v: "digitsValue (decimal (k + 1)) = k + 1" by (rule digitsValue_decimal)
  show ?thesis using k t before p q d z v by blast
qed

theorem short_block_fails_whole_parse_witness:
  "(\<exists>k<length (questionBlocks (bulkText (page secondBlockShort))).
      length (blockLines (questionBlocks (bulkText (page secondBlockShort)) ! k)) < 5) \<and>
   map (\<lambda>block. length (blockLines block)) (questionBlocks secondBlockShort) = [5, 2] \<and>
   parseQuestionsFromText (\<lambda>_. 0) (page secondBlockShort) =
     (page secondBlockShort)
       \<lparr> parsingError :=
           Some (js ''Question block 2 does not have enough lines for a question and 4 options'') \<rparr> \<and>
   questions (parseQuestionsFromText (\<lambda>_. 0) (page secondBlockShort)) = [] \<and>
   map (\<lambda>block. length (blockLines block)) (questionBlocks firstBlockShort) = [2, 5] \<and>
   parseQuestionsFromText (\<lambda>_. 0) (page firstBlockShort) =
     (page firstBlockShort)
       \<lparr> parsingError :=
           Some (js ''Question block 1 does not have enough lines for a question and 4 options'') \<rparr> \<and>
   decimal 12 = js ''12''"
proof -
  let ?bs = "questionBlocks (bulkText (page secondBlockShort))"
  let ?fs = "questionBlocks (bulkText (page firstBlockShort))"
  have t: "bulkText (page secondBlockShort) = secondBlockShort"
    and t': "bulkText (page firstBlockShort) = firstBlockShort" by (simp_all add: page_def)
  have lens: "map (\<lambda>block. length (blockLines block)) (questionBlocks secondBlockShort) = [5, 2]"
    using arg_cong [OF secondBlockShort_lines, of "map length"] by (simp add: comp_def)
  have lens': "map (\<lambda>block. length (blockLines block)) (questionBlocks firstBlockShort) = [2, 5]"
    using arg_cong [OF firstBlockShort_lines, of "map length"] by (simp add: comp_def)
  have len: "length ?bs = 2"
    using arg_cong [OF secondBlockShort_lines, of length] by (simp add: t)
  have len': "length ?fs = 2"
    using arg_cong [OF firstBlockShort_lines, of length] by (simp add: t')
  have l0: "blockLines (?bs ! 0) = [js ''Q'', js ''A'', js ''B'', js ''C'', js ''D'']"
    and l1: "blockLines (?bs ! 1) = [js ''R'', js ''S'']"
    using secondBlockShort_lines len by (simp_all add: t nth_map [symmetric] del: nth_map)
  have f0: "blockLines (?fs ! 0) = [js ''R'', js ''S'']"
    using firstBlockShort_lines len' by (simp add: t' nth_map [symmetric] del: nth_map)
  have ex: "\<exists>k<length ?bs. length (blockLines (?bs ! k)) < 5"
    using len l1 by (intro exI [of _ 1]) simp
  have ex': "\<exists>k<length ?fs. length (blockLines (?fs ! k)) < 5"
    using len' f0 by (intro exI [of _ 0]) simp
  obtain k where k: "k < length ?bs" "length (blockLines (?bs ! k)) < 5"
    and r: "parseQuestionsFromText (\<lambda>_. 0) (page secondBlockShort) =
              (page secondBlockShort)
                \<lparr> parsingError :=
                    Some (js ''Question block '' @ decimal (k + 1) @
                          js '' does not have enough lines for a question and 4 options'') \<rparr>"
    using short_block_fails_whole_parse [OF ex, of "\<lambda>_. 0"] by blast
  have "k \<noteq> 0"
  proof
    assume "k = 0"
    then show False using k(2) l0 by simp
  qed
  then have "k = 1" using k(1) len by simp
  then have r1: "parseQuestionsFromText (\<lambda>_. 0) (page secondBlockShort) =
     (page secondBlockShort)
       \<lparr> parsingError :=
           Some (js ''Question block 2 does not have enough lines for a question and 4 options'') \<rparr>"
    using r by (simp add: decimal.simps js_def)
  then have q1: "questions (parseQuestionsFromText (\<lambda>_. 0) (page secondBlockShort)) = []"
    by (simp add: page_def)
  obtain j where j: "j < length ?fs" "\<forall>i<j. 5 \<le> length (blockLines (?fs ! i))"
    and s: "parseQuestionsFromText (\<lambda>_. 0) (page firstBlockShort) =
              (page firstBlockShort)
                \<lparr> parsingError :=
                    Some (js ''Question block '' @ decimal (j + 1) @
                          js '' does not have enough lines for a question and 4 options'') \<rparr>"
    using short_block_fails_whole_parse [OF ex', of "\<lambda>_. 0"] by blast
  have "j = 0"
  proof (rule ccontr)
    assume "j \<noteq> 0"
    then have "5 \<le> length (blockLines (?fs ! 0))" using j(2) by simp
    then show False using f0 by simp
  qed
  then have s1: "parseQuestionsFromText (\<lambda>_. 0) (page firstBlockShort) =
     (page firstBlockShort)
       \<lparr> parsingError :=
           Some (js ''Question block 1 does not have enough lines for a question and 4 options'') \<rparr>"
    using s by (simp add: decimal.simps js_def)
  have d: "decimal 12 = js ''12''" by (simp add: decimal.simps js_def)
  show ?thesis using ex lens r1 q1 lens' s1 d by simp
qed

text \<open>
  Claim C10. A block with more than five non-empty lines parses, and its question is the one
  parsed from the block cut down to its first five lines (\<open>joinLines\<close> of them, whose lines
  are exactly those five); more generally every block with the same first five lines gives
  the same question, so that no later line reaches the text or the options.
\<close>

theorem lines_after_fifth_ignored:
  assumes "5 < length (blockLines block)"
  shows "\<exists>q. parseBlock now index block = Inr q \<and>
           blockLines (joinLines (take 5 (blockLines block))) = take 5 (blockLines block) \<and>
           parseBlock now index (joinLines (take 5 (blockLines block))) = Inr q \<and>
           (\<forall>block'. 5 \<le> length (blockLines block') \<and>
                take 5 (blockLines block') = take 5 (blockLines block) \<longrightarrow>
                parseBlock now index block' = Inr q)"
proof -
  have five: "5 \<le> length (blockLines block)" using assms by simp
  then obtain q where q: "parseBlock now index block = Inr q" using parseBlock_ok by blast
  let ?t = "joinLines (take 5 (blockLines block))"
  have t: "blockLines ?t = take 5 (blockLines block)" using five by (rule blockLines_truncate)
  have same: "\<And>block'. 5 \<le> length (blockLines block') \<Longrightarrow>
      take 5 (blockLines block') = take 5 (blockLines block) \<Longrightarrow> parseBlock now index block' = Inr q"
    using parseBlock_first_five [OF five] q by simp
  have "5 \<le> length (blockLines ?t)" using t five by simp
  moreover have "take 5 (blockLines ?t) = take 5 (blockLines block)" using t by simp
  ultimately have "parseBlock now index ?t = Inr q" by (rule same)
  then show ?thesis using q t same by blast
qed

theorem lines_after_fifth_ignored_witness:
  "5 < length (blockLines sixLines) \<and>
   blockLines sixLines ! 5 = js ''E'' \<and>
   blockLines (js ''Q'' @ [NL] @ js ''A'' @ [NL] @ js ''B'' @ [NL] @ js ''C'' @ [NL] @ js ''D'') =
     [js ''Q'', js ''A'', js ''B'', js ''C'', js ''D''] \<and>
   (\<exists>q. parseBlock (\<lambda>_. 0) 0 sixLines = Inr q \<and>
        parseBlock (\<lambda>_. 0) 0
          (js ''Q'' @ [NL] @ js ''A'' @ [NL] @ js ''B'' @ [NL] @ js ''C'' @ [NL] @ js ''D'') = Inr q)"
proof -
  have six: "5 < length (blockLines sixLines)" by (simp add: sixLines_lines)
  obtain q where q: "parseBlock (\<lambda>_. 0) 0 sixLines = Inr q"
    and ls: "blockLines (joinLines (take 5 (blockLines sixLines))) = take 5 (blockLines sixLines)"
    and t: "parseBlock (\<lambda>_. 0) 0 (joinLines (take 5 (blockLines sixLines))) = Inr q"
    using lines_after_fifth_ignored [OF six, of "\<lambda>_. 0" 0] by blast
  have "take 5 (blockLines sixLines) = [js ''Q'', js ''A'', js ''B'', js ''C'', js ''D'']"
    by (simp add: sixLines_lines)
  then show ?thesis using six q ls t by (simp add: sixLines_truncated sixLines_lines)
qed

section \<open>The claims about the quiz service\<close>

text \<open>
  Claim C4, as the code has it. \<open>saveQuizResult\<close> never raises. When the remote insert
  succeeds with a row it returns the id of that row and leaves the local storage alone (a
  response with neither an error nor a row gives \<open>undefined\<close>, since the code returns
  \<open>data?.id\<close>). When
  the remote insert fails it turns to the local history: if the stored text does not parse or
  is no array, the fallback throws and the result is \<open>null\<close>, and these are the only ways to
  get \<open>null\<close>; otherwise it returns the freshly minted local id, after appending the result
  to the list it read and writing the list back. The write is made through
  \<open>safeLocalStorage.setItem\<close>, which swallows a failure: the entry is in the stored history
  list if the storage is writable, and the storage is unchanged if it is not.
\<close>

theorem saveQuizResult_never_raises:
  "(\<exists>v b'. saveQuizResult r newId result b = (Inr v, b')) \<and>
   (\<forall>i. resultInserted r result = Some i \<longrightarrow>
        saveQuizResult r newId result b = (Inr (ReturnedId i), b)) \<and>
   (resultInsertFails r result \<longrightarrow>
      saveQuizResult r newId result b =
        (if historyBroken b then (Inr ReturnedNull, b)
         else (Inr (ReturnedId newId),
               if writable b
               then b\<lparr> storage := (storage b)
                      \<lparr> quizHistory := Some (Items (localHistoryList b @ [localResult newId result])) \<rparr> \<rparr>
               else b))) \<and>
   (\<not> resultInsertFails r result \<and> resultInserted r result = None \<longrightarrow>
      saveQuizResult r newId result b = (Inr ReturnedUndefined, b)) \<and>
   (fst (saveQuizResult r newId result b) = Inr ReturnedNull \<longrightarrow>
      resultInsertFails r result \<and> historyBroken b)"
proof -
  consider i where "resultInserted r result = Some i" "saveResultRemote r result = Inr (ReturnedId i)"
    | "resultInsertFails r result" "resultInserted r result = None"
    | "\<not> resultInsertFails r result" "resultInserted r result = None"
      "saveResultRemote r result = Inr ReturnedUndefined"
    using saveResultRemote_cases [of r result] by (elim disjE exE conjE) auto
  then show ?thesis
  proof cases
    case 1
    then have "saveQuizResult r newId result b = (Inr (ReturnedId i), b)"
      by (simp add: saveQuizResult_def)
    moreover have "\<not> resultInsertFails r result"
      using 1(2) saveResultRemote_fails [of r result] by auto
    ultimately show ?thesis using 1(1) by simp
  next
    case 2
    note s = saveQuizResult_fallback [OF 2(1), of newId b]
    show ?thesis using 2 by (simp add: s)
  next
    case 3
    then have "saveQuizResult r newId result b = (Inr ReturnedUndefined, b)"
      by (simp add: saveQuizResult_def)
    then show ?thesis using 3 by simp
  qed
qed

text \<open>
  The claim as it is worded has the local id returned after the result was appended to the
  local history list. With an unreachable remote store and a storage whose \<open>setItem\<close> throws,
  the local id is returned and the history list is as empty as before.
\<close>

theorem saveQuizResult_id_without_entry:
  "resultInsertFails offline sampleResult \<and>
   localStorage_setItem key_quizHistory (Items [localResult (js ''u1'') sampleResult]) fullBrowser =
     Inl DOMException \<and>
   saveQuizResult offline (js ''u1'') sampleResult fullBrowser =
     (Inr (ReturnedId (js ''u1'')), fullBrowser) \<and>
   localHistoryList fullBrowser = []"
proof -
  have f: "resultInsertFails offline sampleResult" by (simp add: resultInsertFails_def offline_def)
  have "\<not> historyBroken fullBrowser" "\<not> writable fullBrowser"
    by (simp_all add: historyBroken_def writable_def fullBrowser_def emptyBrowser_def)
  then have "saveQuizResult offline (js ''u1'') sampleResult fullBrowser =
     (Inr (ReturnedId (js ''u1'')), fullBrowser)"
    by (simp add: saveQuizResult_fallback [OF f])
  moreover have "localHistoryList fullBrowser = []"
    by (simp add: localHistoryList_def fullBrowser_def emptyBrowser_def)
  moreover have "localStorage_setItem key_quizHistory (Items [localResult (js ''u1'') sampleResult]) fullBrowser =
     Inl DOMException"
    by (simp add: localStorage_setItem_def fullBrowser_def)
  ultimately show ?thesis using f by simp
qed

theorem saveQuizResult_never_raises_witness:
  "resultInserted answering sampleResult = Some (js ''s1'') \<and>
   saveQuizResult answering (js ''u1'') sampleResult emptyBrowser =
     (Inr (ReturnedId (js ''s1'')), emptyBrowser) \<and>
   resultInsertFails offline sampleResult \<and> \<not> historyBroken emptyBrowser \<and> writable emptyBrowser \<and>
   fst (saveQuizResult offline (js ''u1'') sampleResult emptyBrowser) = Inr (ReturnedId (js ''u1'')) \<and>
   localHistoryList (snd (saveQuizResult offline (js ''u1'') sampleResult emptyBrowser)) =
     [localResult (js ''u1'') sampleResult] \<and>
   historyBroken brokenBrowser \<and>
   saveQuizResult offline (js ''u1'') sampleResult brokenBrowser = (Inr ReturnedNull, brokenBrowser)"
proof -
  have i: "resultInserted answering sampleResult = Some (js ''s1'')"
    by (simp add: resultInserted_def answering_def)
  have f: "resultInsertFails offline sampleResult" by (simp add: resultInsertFails_def offline_def)
  have e: "\<not> historyBroken emptyBrowser" "writable emptyBrowser" "localHistoryList emptyBrowser = []"
    by (simp_all add: historyBroken_def writable_def localHistoryList_def emptyBrowser_def)
  have k: "historyBroken brokenBrowser"
    by (simp add: historyBroken_def readable_def brokenBrowser_def emptyBrowser_def)
  note t = saveQuizResult_never_raises
  have "saveQuizResult answering (js ''u1'') sampleResult emptyBrowser =
     (Inr (ReturnedId (js ''s1'')), emptyBrowser)"
    by (rule t [THEN conjunct2, THEN conjunct1, THEN spec, THEN mp, OF i])
  moreover have l: "saveQuizResult offline (js ''u1'') sampleResult emptyBrowser =
     (Inr (ReturnedId (js ''u1'')),
      emptyBrowser\<lparr> storage := (storage emptyBrowser)
         \<lparr> quizHistory := Some (Items ([] @ [localResult (js ''u1'') sampleResult])) \<rparr> \<rparr>)"
    using t [of offline "js ''u1''" sampleResult emptyBrowser,
        THEN conjunct2, THEN conjunct2, THEN conjunct1, THEN mp, OF f] e
    by simp
  moreover have "localHistoryList (emptyBrowser\<lparr> storage := (storage emptyBrowser)
         \<lparr> quizHistory := Some (Items ([] @ [localResult (js ''u1'') sampleResult])) \<rparr> \<rparr>) =
       [localResult (js ''u1'') sampleResult]"
    by (simp add: localHistoryList_def readable_def emptyBrowser_def)
  moreover have "saveQuizResult offline (js ''u1'') sampleResult brokenBrowser = (Inr ReturnedNull, brokenBrowser)"
    using t [of offline "js ''u1''" sampleResult brokenBrowser,
        THEN conjunct2, THEN conjunct2, THEN conjunct1, THEN mp, OF f] k
    by simp
  ultimately show ?thesis using i f e(1,2) k by simp
qed

text \<open>
  Claim C5, as the code has it. When the remote creation of the quiz row fails and the local
  storage can be read and written, its quiz text being absent, unparseable or an array,
  \<open>createQuiz\<close> returns the freshly minted id and the stored quiz list is the old one with the
  new quiz appended. If the id is fresh (no stored quiz has it, and the remote store does not
  answer a fetch for it), \<open>getQuizById\<close> then returns a quiz with the title, the description
  and the questions, options and correct answers included, that were passed to \<open>createQuiz\<close>.
\<close>

theorem createQuiz_then_getQuizById:
  assumes fails: "quizRowNotCreated r quiz"
    and rd: "readable b" and wr: "writable b" and arr: "\<not> quizzesNotArray b"
    and fresh: "\<forall>q\<in>set (localQuizList b). quiz_id q \<noteq> newId"
    and unknown: "remoteQuiz r' newId = None"
  shows "\<exists>b' q. createQuiz r newId now quiz b = (Inr newId, b') \<and>
           localQuizList b' = localQuizList b @ [localQuiz newId now quiz] \<and>
           getQuizById r' newId b' = Inr q \<and>
           title q = newTitle quiz \<and> description q = newDescription quiz \<and>
           quizQuestions q = newQuestions quiz \<and>
           map options (quizQuestions q) = map options (newQuestions quiz) \<and>
           map correctAnswer (quizQuestions q) = map correctAnswer (newQuestions quiz)"
proof -
  let ?q = "localQuiz newId now quiz"
  let ?b' = "b\<lparr> storage := (storage b)\<lparr> localQuizzes := Some (Items (localQuizList b @ [?q])) \<rparr> \<rparr>"
  have c: "createQuiz r newId now quiz b = (Inr newId, ?b')"
    using fails wr arr by (simp add: createQuiz_fallback createQuizLocal_eq)
  have l: "localQuizList ?b' = localQuizList b @ [?q]"
    using rd by (rule localQuizList_after_write)
  have "quiz_id ?q = newId" by (simp add: localQuiz_def)
  then have "find (\<lambda>q. quiz_id q = newId) (localQuizList b @ [?q]) = Some ?q"
    using fresh by (intro find_appended) auto
  then have g: "getQuizById r' newId ?b' = Inr ?q"
    using unknown by (simp add: getQuizById_local l)
  have "title ?q = newTitle quiz \<and> description ?q = newDescription quiz \<and>
        quizQuestions ?q = newQuestions quiz"
    by (simp add: localQuiz_def)
  then show ?thesis using c l g by auto
qed

text \<open>
  The claim as it is worded asks for no more than a failing remote insert. With a storage
  whose \<open>setItem\<close> throws, \<open>createQuiz\<close> still returns the id, nothing is stored, and
  \<open>getQuizById\<close> does not find the quiz.
\<close>

theorem createQuiz_lost_when_write_fails:
  "quizRowNotCreated offline sampleQuiz \<and>
   createQuiz offline (js ''u1'') (\<lambda>_. js ''t0'') sampleQuiz fullBrowser = (Inr (js ''u1''), fullBrowser) \<and>
   localQuizList fullBrowser = [] \<and>
   getQuizById offline (js ''u1'') fullBrowser = Inl (Error (js ''Quiz not found''))"
proof -
  have "remoteQuiz offline (js ''u1'') = None" by (simp add: remoteQuiz_def offline_def)
  moreover have "localQuizList fullBrowser = []"
    by (simp add: localQuizList_def fullBrowser_def emptyBrowser_def)
  ultimately have "getQuizById offline (js ''u1'') fullBrowser = Inl (Error (js ''Quiz not found''))"
    by (simp add: getQuizById_local)
  moreover have "createQuiz offline (js ''u1'') (\<lambda>_. js ''t0'') sampleQuiz fullBrowser =
      (Inr (js ''u1''), fullBrowser)"
    by (simp add: createQuiz_def createQuizRemote_def createQuizLocal_eq
      offline_def quizzesNotArray_def writable_def fullBrowser_def emptyBrowser_def)
  moreover have "quizRowNotCreated offline sampleQuiz"
    by (simp add: quizRowNotCreated_def offline_def)
  ultimately show ?thesis using \<open>localQuizList fullBrowser = []\<close> by simp
qed

theorem createQuiz_then_getQuizById_witness:
  "quizRowNotCreated offline sampleQuiz \<and> readable emptyBrowser \<and> writable emptyBrowser \<and>
   \<not> quizzesNotArray emptyBrowser \<and> localQuizList emptyBrowser = [] \<and>
   remoteQuiz offline (js ''u1'') = None \<and>
   (\<exists>b' q. createQuiz offline (js ''u1'') (\<lambda>_. js ''t0'') sampleQuiz emptyBrowser = (Inr (js ''u1''), b') \<and>
       getQuizById offline (js ''u1'') b' = Inr q \<and>
       title q = js ''T'' \<and> description q = js ''D'' \<and>
       map options (quizQuestions q) = [[js ''A'', js ''B'', js ''C'', js ''D'']] \<and>
       map correctAnswer (quizQuestions q) = [2])"
proof -
  have f: "quizRowNotCreated offline sampleQuiz" by (simp add: quizRowNotCreated_def offline_def)
  have rd: "readable emptyBrowser" by (simp add: readable_def emptyBrowser_def)
  have wr: "writable emptyBrowser" by (simp add: writable_def emptyBrowser_def)
  have arr: "\<not> quizzesNotArray emptyBrowser" by (simp add: quizzesNotArray_def emptyBrowser_def)
  have l: "localQuizList emptyBrowser = []" by (simp add: localQuizList_def emptyBrowser_def)
  have fresh: "\<forall>q\<in>set (localQuizList emptyBrowser). quiz_id q \<noteq> js ''u1''" by (simp add: l)
  have unknown: "remoteQuiz offline (js ''u1'') = None" by (simp add: remoteQuiz_def offline_def)
  obtain b' q where "createQuiz offline (js ''u1'') (\<lambda>_. js ''t0'') sampleQuiz emptyBrowser = (Inr (js ''u1''), b')"
    "getQuizById offline (js ''u1'') b' = Inr q"
    "title q = newTitle sampleQuiz" "description q = newDescription sampleQuiz"
    "map options (quizQuestions q) = map options (newQuestions sampleQuiz)"
    "map correctAnswer (quizQuestions q) = map correctAnswer (newQuestions sampleQuiz)"
    using createQuiz_then_getQuizById [OF f rd wr arr fresh unknown, of "\<lambda>_. js ''t0''"] by blast
  then have "createQuiz offline (js ''u1'') (\<lambda>_. js ''t0'') sampleQuiz emptyBrowser = (Inr (js ''u1''), b') \<and>
       getQuizById offline (js ''u1'') b' = Inr q \<and>
       title q = js ''T'' \<and> description q = js ''D'' \<and>
       map options (quizQuestions q) = [[js ''A'', js ''B'', js ''C'', js ''D'']] \<and>
       map correctAnswer (quizQuestions q) = [2]"
    by (simp add: sampleQuiz_def sampleQuestion_def)
  then have "\<exists>b' q. createQuiz offline (js ''u1'') (\<lambda>_. js ''t0'') sampleQuiz emptyBrowser = (Inr (js ''u1''), b') \<and>
       getQuizById offline (js ''u1'') b' = Inr q \<and>
       title q = js ''T'' \<and> description q = js ''D'' \<and>
       map options (quizQuestions q) = [[js ''A'', js ''B'', js ''C'', js ''D'']] \<and>
       map correctAnswer (quizQuestions q) = [2]"
    by (intro exI)
  then show ?thesis using f rd wr arr l unknown by simp
qed

text \<open>
  Claim C6. When the remote fetch succeeds, \<open>getQuizById\<close> returns the remote quiz: the id,
  title, description, time stamps, category, time limit and author of the data fetched, with
  its questions (none when the data has no list of questions). When the remote fetch fails or
  finds nothing, it returns the first quiz of the local quiz list that has the id. It raises
  if and only if neither store has such a quiz, and what it raises is then the error
  \<open>Quiz not found\<close>.
\<close>

theorem getQuizById_remote_then_local:
  "(\<forall>d. remoteQuiz r i = Some d \<longrightarrow>
        getQuizById r i b =
          Inr \<lparr> quiz_id = row_id d, title = row_title d, description = row_description d,
                quizQuestions = (case row_questions d of None \<Rightarrow> [] | Some qs \<Rightarrow> qs),
                createdAt = row_created_at d, updatedAt = row_updated_at d,
                author = row_author_id d, category = row_category d,
                timeLimit = row_time_limit d \<rparr>) \<and>
   (remoteQuiz r i = None \<longrightarrow>
      getQuizById r i b =
        (case find (\<lambda>q. quiz_id q = i) (localQuizList b) of
           Some q \<Rightarrow> Inr q
         | None \<Rightarrow> Inl (Error (js ''Quiz not found'')))) \<and>
   ((\<exists>e. getQuizById r i b = Inl e) \<longleftrightarrow>
      remoteQuiz r i = None \<and> (\<forall>q\<in>set (localQuizList b). quiz_id q \<noteq> i)) \<and>
   (\<forall>e. getQuizById r i b = Inl e \<longrightarrow> e = Error (js ''Quiz not found''))"
proof (cases "remoteQuiz r i")
  case None
  have g: "getQuizById r i b =
        (case find (\<lambda>q. quiz_id q = i) (localQuizList b) of
           Some q \<Rightarrow> Inr q
         | None \<Rightarrow> Inl (Error (js ''Quiz not found'')))"
    using None by (rule getQuizById_local)
  have "(\<exists>e. getQuizById r i b = Inl e) \<longleftrightarrow> (\<forall>q\<in>set (localQuizList b). quiz_id q \<noteq> i)"
    unfolding g by (rule find_fails_iff)
  moreover have "\<forall>e. getQuizById r i b = Inl e \<longrightarrow> e = Error (js ''Quiz not found'')"
    unfolding g by (auto split: option.splits)
  ultimately show ?thesis using None g by simp
next
  case (Some d)
  then have "getQuizById r i b = Inr (formatQuiz d)" by (rule getQuizById_remote)
  then show ?thesis using Some by (simp add: formatQuiz_def)
qed

theorem getQuizById_remote_then_local_witness:
  "remoteQuiz answering (js ''r1'') = Some sampleData \<and>
   getQuizById answering (js ''r1'') storedTwice =
     Inr \<lparr> quiz_id = js ''r1'', title = js ''R'', description = js ''D'',
           quizQuestions = [\<lparr> qid = js ''q1'', qtext = js ''Q'',
                              options = [js ''A'', js ''B'', js ''C'', js ''D''],
                              correctAnswer = 2 \<rparr>],
           createdAt = js ''t0'', updatedAt = js ''t5'',
           author = Some (js ''me''), category = Some (js ''maths''), timeLimit = Some 60 \<rparr> \<and>
   remoteQuiz offline (js ''u1'') = None \<and>
   localQuizList storedTwice =
     [localQuiz (js ''u1'') (\<lambda>_. js ''t0'') sampleQuiz, localQuiz (js ''u1'') (\<lambda>_. js ''t9'') sampleQuiz] \<and>
   getQuizById offline (js ''u1'') storedTwice = Inr (localQuiz (js ''u1'') (\<lambda>_. js ''t0'') sampleQuiz) \<and>
   remoteQuiz answering (js ''u1'') = None \<and>
   getQuizById answering (js ''u1'') emptyBrowser = Inl (Error (js ''Quiz not found''))"
proof -
  have r1: "remoteQuiz answering (js ''r1'') = Some sampleData"
    by (simp add: remoteQuiz_def answering_def)
  have off: "remoteQuiz offline (js ''u1'') = None"
    by (simp add: remoteQuiz_def offline_def)
  have u1: "remoteQuiz answering (js ''u1'') = None"
    by (simp add: remoteQuiz_def answering_def js_def)
  have l2: "localQuizList storedTwice =
     [localQuiz (js ''u1'') (\<lambda>_. js ''t0'') sampleQuiz, localQuiz (js ''u1'') (\<lambda>_. js ''t9'') sampleQuiz]"
    by (simp add: localQuizList_def readable_def storedTwice_def emptyBrowser_def)
  have l0: "localQuizList emptyBrowser = []"
    by (simp add: localQuizList_def readable_def emptyBrowser_def)
  have "getQuizById answering (js ''r1'') storedTwice =
     Inr \<lparr> quiz_id = js ''r1'', title = js ''R'', description = js ''D'',
           quizQuestions = [\<lparr> qid = js ''q1'', qtext = js ''Q'',
                              options = [js ''A'', js ''B'', js ''C'', js ''D''],
                              correctAnswer = 2 \<rparr>],
           createdAt = js ''t0'', updatedAt = js ''t5'',
           author = Some (js ''me''), category = Some (js ''maths''), timeLimit = Some 60 \<rparr>"
    using getQuizById_remote_then_local [of answering "js ''r1''" storedTwice,
          THEN conjunct1, THEN spec, THEN mp, OF r1]
    by (simp add: sampleData_def sampleQuestion_def)
  moreover have "getQuizById offline (js ''u1'') storedTwice =
      Inr (localQuiz (js ''u1'') (\<lambda>_. js ''t0'') sampleQuiz)"
    using getQuizById_remote_then_local [of offline "js ''u1''" storedTwice,
          THEN conjunct2, THEN conjunct1, THEN mp, OF off]
    by (simp add: l2 localQuiz_def)
  moreover have "getQuizById answering (js ''u1'') emptyBrowser = Inl (Error (js ''Quiz not found''))"
    using getQuizById_remote_then_local [of answering "js ''u1''" emptyBrowser,
          THEN conjunct2, THEN conjunct1, THEN mp, OF u1]
    by (simp add: l0)
  ultimately show ?thesis using r1 off u1 l2 by simp
qed

text \<open>
  Claim C7, as the code has it. \<open>getAllQuizzes\<close> never raises. Its result is the remote rows
  followed by the local quiz list, nothing merged and nothing removed. Each remote row gives
  a quiz with the id, title, description, time stamps, category and time limit of the row, no
  author and no questions. A remote failure gives no remote rows, and a local text that is
  missing, unreadable or unparseable gives no local quizzes. There are two exceptions. A local
  text that parses to a value that is neither an array nor a string (\<open>null\<close>, a number, a
  boolean, an object) makes the spread throw: the outer \<open>catch\<close> returns the empty list, and
  the remote rows are lost with it. A local text that parses to a string is spread into its
  code points, each a string of its own, and these follow the remote rows. The code points of
  a string are its code units in order, a lead surrogate and the trail surrogate after it
  taken together.
\<close>

theorem getAllQuizzes_remote_then_local:
  "getAllQuizzes r b =
     Inr (if quizzesNotIterable b then []
          else map (\<lambda>row. Element
                      \<lparr> quiz_id = row_id row, title = row_title row,
                        description = row_description row, quizQuestions = [],
                        createdAt = row_created_at row, updatedAt = row_updated_at row,
                        author = None, category = row_category row,
                        timeLimit = row_time_limit row \<rparr>) (remoteRows r) @
               (case quizzesString b of
                  None \<Rightarrow> map Element (localQuizList b)
                | Some s \<Rightarrow> map CodePoint (codePoints s))) \<and>
   (\<forall>s. concat (codePoints s) = s \<and>
        list_all (\<lambda>p. length p = 1 \<or>
                       (length p = 2 \<and> isLeadSurrogate (p ! 0) \<and> isTrailSurrogate (p ! 1)))
          (codePoints s) \<and>
        (\<forall>i. Suc i < length (codePoints s) \<and> length (codePoints s ! i) = 1 \<and>
             isLeadSurrogate (codePoints s ! i ! 0) \<longrightarrow>
             \<not> isTrailSurrogate (codePoints s ! Suc i ! 0)))"
proof -
  let ?format = "\<lambda>row. Element
                      \<lparr> quiz_id = row_id row, title = row_title row,
                        description = row_description row, quizQuestions = [],
                        createdAt = row_created_at row, updatedAt = row_updated_at row,
                        author = None, category = row_category row,
                        timeLimit = row_time_limit row \<rparr>"
  have rows: "fetchQuizRows r = remoteRows r" by (rule fetchQuizRows_eq)
  have formatted: "map Element (map formatRow (remoteRows r)) = map ?format (remoteRows r)"
    by (simp add: formatRow_def)
  have result: "getAllQuizzes r b =
     Inr (if quizzesNotIterable b then []
          else map ?format (remoteRows r) @
               (case quizzesString b of
                  None \<Rightarrow> map Element (localQuizList b)
                | Some s \<Rightarrow> map CodePoint (codePoints s)))"
  proof (cases "quizzesNotIterable b")
    case True
    then have "readLocalQuizzes b = Other" by (simp add: readLocalQuizzes_eq)
    then have "getAllQuizzes r b = Inr []" by (simp add: getAllQuizzes_def js_spread_def)
    then show ?thesis using True by simp
  next
    case False
    show ?thesis
    proof (cases "quizzesString b")
      case None
      then have "readLocalQuizzes b = Array (localQuizList b)"
        using False by (simp add: readLocalQuizzes_eq)
      then have "getAllQuizzes r b =
          Inr (map Element (map formatRow (remoteRows r)) @ map Element (localQuizList b))"
        by (simp add: getAllQuizzes_def js_spread_def rows)
      then show ?thesis using False None by (simp only: formatted if_False option.case)
    next
      case (Some s)
      then have "readLocalQuizzes b = Str s"
        using False by (simp add: readLocalQuizzes_eq)
      then have "getAllQuizzes r b =
          Inr (map Element (map formatRow (remoteRows r)) @ map CodePoint (codePoints s))"
        by (simp add: getAllQuizzes_def js_spread_def rows)
      then show ?thesis using False Some by (simp only: formatted if_False option.case)
    qed
  qed
  have points: "\<forall>s. concat (codePoints s) = s \<and>
        list_all (\<lambda>p. length p = 1 \<or>
                       (length p = 2 \<and> isLeadSurrogate (p ! 0) \<and> isTrailSurrogate (p ! 1)))
          (codePoints s) \<and>
        (\<forall>i. Suc i < length (codePoints s) \<and> length (codePoints s ! i) = 1 \<and>
             isLeadSurrogate (codePoints s ! i ! 0) \<longrightarrow>
             \<not> isTrailSurrogate (codePoints s ! Suc i ! 0))"
    using concat_codePoints codePoints_pieces codePoints_greedy by blast
  show ?thesis using result points by (rule conjI)
qed

text \<open>
  The claim as it is worded has the remote rows returned always, the corrupt local store
  contributing nothing. Here the remote store answers with one row, the local text is
  \<open>null\<close>, and the result is empty.
\<close>

theorem getAllQuizzes_drops_remote_rows:
  "remoteRows answering = [sampleRow] \<and>
   readable brokenBrowser \<and> localQuizzes (storage brokenBrowser) = Some NonIterable \<and>
   getAllQuizzes answering brokenBrowser = Inr []"
proof -
  have "remoteRows answering = [sampleRow]" by (simp add: remoteRows_def answering_def)
  moreover have b: "readable brokenBrowser" "localQuizzes (storage brokenBrowser) = Some NonIterable"
    by (simp_all add: readable_def brokenBrowser_def emptyBrowser_def)
  moreover have "getAllQuizzes answering brokenBrowser = Inr []"
    using b by (simp add: getAllQuizzes_eq quizzesNotIterable_def)
  ultimately show ?thesis by simp
qed

theorem getAllQuizzes_remote_then_local_witness:
  "\<not> quizzesNotIterable storedTwice \<and> quizzesString storedTwice = None \<and>
   getAllQuizzes answering storedTwice =
     Inr [Element \<lparr> quiz_id = js ''r1'', title = js ''R'', description = js ''D'',
                    quizQuestions = [], createdAt = js ''t0'', updatedAt = js ''t5'',
                    author = None, category = Some (js ''maths''), timeLimit = Some 60 \<rparr>,
          Element (localQuiz (js ''u1'') (\<lambda>_. js ''t0'') sampleQuiz),
          Element (localQuiz (js ''u1'') (\<lambda>_. js ''t9'') sampleQuiz)] \<and>
   getAllQuizzes offline storedTwice =
     Inr [Element (localQuiz (js ''u1'') (\<lambda>_. js ''t0'') sampleQuiz),
          Element (localQuiz (js ''u1'') (\<lambda>_. js ''t9'') sampleQuiz)] \<and>
   quizzesString quotedBrowser = Some [97, 55357, 56832] \<and>
   getAllQuizzes offline quotedBrowser = Inr [CodePoint [97], CodePoint [55357, 56832]] \<and>
   quizzesNotIterable brokenBrowser \<and>
   getAllQuizzes answering brokenBrowser = Inr []"
proof -
  have a: "remoteRows answering = [sampleRow]" by (simp add: remoteRows_def answering_def)
  have o: "remoteRows offline = []" by (simp add: remoteRows_def offline_def)
  have l2: "localQuizList storedTwice =
     [localQuiz (js ''u1'') (\<lambda>_. js ''t0'') sampleQuiz, localQuiz (js ''u1'') (\<lambda>_. js ''t9'') sampleQuiz]"
    by (simp add: localQuizList_def readable_def storedTwice_def emptyBrowser_def)
  have n2: "\<not> quizzesNotIterable storedTwice" "quizzesString storedTwice = None"
    by (simp_all add: quizzesNotIterable_def quizzesString_def storedTwice_def emptyBrowser_def)
  have nq: "\<not> quizzesNotIterable quotedBrowser" "quizzesString quotedBrowser = Some [97, 55357, 56832]"
    by (simp_all add: quizzesNotIterable_def quizzesString_def readable_def quotedBrowser_def
        emptyBrowser_def)
  have nb: "quizzesNotIterable brokenBrowser"
    by (simp add: quizzesNotIterable_def readable_def brokenBrowser_def emptyBrowser_def)
  have "getAllQuizzes answering storedTwice =
     Inr [Element \<lparr> quiz_id = js ''r1'', title = js ''R'', description = js ''D'',
                    quizQuestions = [], createdAt = js ''t0'', updatedAt = js ''t5'',
                    author = None, category = Some (js ''maths''), timeLimit = Some 60 \<rparr>,
          Element (localQuiz (js ''u1'') (\<lambda>_. js ''t0'') sampleQuiz),
          Element (localQuiz (js ''u1'') (\<lambda>_. js ''t9'') sampleQuiz)]"
    using getAllQuizzes_remote_then_local [of answering storedTwice, THEN conjunct1]
    by (simp add: a l2 n2 sampleRow_def)
  moreover have "getAllQuizzes offline storedTwice =
     Inr [Element (localQuiz (js ''u1'') (\<lambda>_. js ''t0'') sampleQuiz),
          Element (localQuiz (js ''u1'') (\<lambda>_. js ''t9'') sampleQuiz)]"
    using getAllQuizzes_remote_then_local [of offline storedTwice, THEN conjunct1]
    by (simp add: o l2 n2)
  moreover have "getAllQuizzes offline quotedBrowser = Inr [CodePoint [97], CodePoint [55357, 56832]]"
    using getAllQuizzes_remote_then_local [of offline quotedBrowser, THEN conjunct1]
    by (simp add: o nq isLeadSurrogate_def isTrailSurrogate_def)
  moreover have "getAllQuizzes answering brokenBrowser = Inr []"
    using getAllQuizzes_remote_then_local [of answering brokenBrowser, THEN conjunct1]
    by (simp add: nb)
  ultimately show ?thesis using n2 nq nb by simp
qed

text \<open>
  Claim C8, as the code has it. When the remote creation of the quiz row fails, \<open>createQuiz\<close>
  raises exactly when the local quiz text parses to a value that is no array: \<open>push\<close> throws a
  TypeError, which nothing catches. In every other case it returns the freshly minted id; a
  local write that fails is swallowed by \<open>safeLocalStorage.setItem\<close>, and the storage is then
  unchanged.
\<close>

theorem createQuiz_raises_only_on_non_array:
  assumes "quizRowNotCreated r quiz"
  shows "createQuiz r newId now quiz b =
           (if quizzesNotArray b then (Inl TypeError, b)
            else (Inr newId,
                  if writable b
                  then b\<lparr> storage := (storage b)
                         \<lparr> localQuizzes := Some (Items (localQuizList b @ [localQuiz newId now quiz])) \<rparr> \<rparr>
                  else b)) \<and>
         ((\<exists>e. fst (createQuiz r newId now quiz b) = Inl e) \<longleftrightarrow> quizzesNotArray b)"
proof -
  obtain e where "createQuizRemote r quiz = Inl e"
    using createQuizRemote_fails [OF assms] by blast
  then have fallback: "createQuiz r newId now quiz b = createQuizLocal newId now quiz b"
    by (simp add: createQuiz_def)
  show ?thesis
  proof (cases "quizzesNotArray b")
    case True
    then have "js_push (readLocalQuizzes b) (localQuiz newId now quiz) = Inl TypeError"
      by (simp add: push_readLocalQuizzes)
    then have "createQuiz r newId now quiz b = (Inl TypeError, b)"
      by (simp add: fallback createQuizLocal_def)
    then show ?thesis using True by simp
  next
    case False
    let ?list = "localQuizList b @ [localQuiz newId now quiz]"
    have "js_push (readLocalQuizzes b) (localQuiz newId now quiz) = Inr (Array ?list)"
      using False by (simp add: push_readLocalQuizzes)
    then have "createQuiz r newId now quiz b =
        (Inr newId, safeLocalStorage_setItem key_localQuizzes (Items ?list) b)"
      by (simp add: fallback createQuizLocal_def JSON_stringify_def)
    then show ?thesis using False by (simp add: safe_setItem_quizzes)
  qed
qed

text \<open>
  The claim as it is worded has \<open>createQuiz\<close> raise when the local fallback fails too. With an
  unreachable remote store and a storage whose \<open>setItem\<close> throws, the fallback stores nothing
  and \<open>createQuiz\<close> returns the id.
\<close>

theorem createQuiz_swallows_failed_write:
  "quizRowNotCreated offline sampleQuiz \<and>
   localStorage_setItem key_localQuizzes (Items [localQuiz (js ''u1'') (\<lambda>_. js ''t0'') sampleQuiz]) fullBrowser =
     Inl DOMException \<and>
   createQuiz offline (js ''u1'') (\<lambda>_. js ''t0'') sampleQuiz fullBrowser = (Inr (js ''u1''), fullBrowser)"
  by (simp add: createQuiz_def createQuizRemote_def createQuizLocal_eq quizRowNotCreated_def
      offline_def localStorage_setItem_def quizzesNotArray_def writable_def
      fullBrowser_def emptyBrowser_def)

theorem createQuiz_raises_only_on_non_array_witness:
  "quizRowNotCreated offline sampleQuiz \<and>
   quizzesNotArray brokenBrowser \<and>
   createQuiz offline (js ''u1'') (\<lambda>_. js ''t0'') sampleQuiz brokenBrowser = (Inl TypeError, brokenBrowser) \<and>
   \<not> quizzesNotArray emptyBrowser \<and>
   fst (createQuiz offline (js ''u1'') (\<lambda>_. js ''t0'') sampleQuiz emptyBrowser) = Inr (js ''u1'')"
proof -
  have f: "quizRowNotCreated offline sampleQuiz" by (simp add: quizRowNotCreated_def offline_def)
  have n: "quizzesNotArray brokenBrowser"
    by (simp add: quizzesNotArray_def readable_def brokenBrowser_def emptyBrowser_def)
  have e: "\<not> quizzesNotArray emptyBrowser"
    by (simp add: quizzesNotArray_def emptyBrowser_def)
  note c = createQuiz_raises_only_on_non_array [OF f, THEN conjunct1]
  have "createQuiz offline (js ''u1'') (\<lambda>_. js ''t0'') sampleQuiz brokenBrowser = (Inl TypeError, brokenBrowser)"
    using c [of "js ''u1''" "\<lambda>_. js ''t0''" brokenBrowser] n by simp
  moreover have "fst (createQuiz offline (js ''u1'') (\<lambda>_. js ''t0'') sampleQuiz emptyBrowser) = Inr (js ''u1'')"
    using c [of "js ''u1''" "\<lambda>_. js ''t0''" emptyBrowser] e by simp
  ultimately show ?thesis using f n e by simp
qed

text \<open>
  Claim C9, as the code has it. When the remote history read succeeds with at least one row,
  \<open>getQuizHistory\<close> returns those rows, one entry for each in the same order (the fields of
  the row, the title and category of the quiz joined to it, \<open>Unknown Quiz\<close> and \<open>Anonymous\<close>
  for a missing title or user name), and does not look at the local store. When the remote
  read fails or has no rows, it returns the entries of the local history list, each enhanced
  through \<open>getQuizById\<close>: an entry whose quiz is found gets the title and category of that
  quiz, an entry whose lookup fails keeps the title \<open>Unknown Quiz\<close> and no category. Their
  order is the work of \<open>sort\<close> with a comparator that subtracts completion times. When every
  time stamp is a date, the entries come in descending order of completion time, entries of
  equal time in their stored order. When no time stamp is a date, every comparison is \<open>NaN\<close>
  and the entries stay in their stored order. When only some are dates, the entries are
  returned in an order that the engine chooses.
\<close>

theorem getQuizHistory_remote_or_sorted_local:
  "(remoteHistory r \<noteq> [] \<longrightarrow>
      getQuizHistory r getTime b =
        Inr (Exactly (map (\<lambda>item.
                    \<lparr> h_id = rr_id item, h_quizId = rr_quiz_id item,
                      h_quizTitle =
                        (case rr_quizzes item of
                           Some (c # cs, cat) \<Rightarrow> c # cs
                         | _ \<Rightarrow> js ''Unknown Quiz''),
                      h_userName =
                        (case rr_user_name item of
                           Some (c # cs) \<Rightarrow> c # cs
                         | _ \<Rightarrow> js ''Anonymous''),
                      h_score = rr_score item, h_totalQuestions = rr_total_questions item,
                      h_timeTaken = rr_time_taken item, h_completedAt = rr_completed_at item,
                      h_category = (case rr_quizzes item of Some (t, cat) \<Rightarrow> cat | None \<Rightarrow> None),
                      h_answers = None \<rparr>) (remoteHistory r)))) \<and>
   (remoteHistory r = [] \<longrightarrow>
      (\<exists>hs. (getQuizHistory r getTime b = Inr (Exactly hs) \<or>
             getQuizHistory r getTime b = Inr (Rearranged hs)) \<and>
            mset hs = mset (map (enhance r b) (localHistoryList b))) \<and>
      (list_all (\<lambda>item. getTime (lr_completedAt item) \<noteq> None) (localHistoryList b) \<longrightarrow>
         (\<exists>hs. getQuizHistory r getTime b = Inr (Exactly hs) \<and>
            mset hs = mset (map (enhance r b) (localHistoryList b)) \<and>
            sorted_wrt (completedNoEarlier getTime) hs \<and>
            (\<forall>t. filter (\<lambda>h. getTime (h_completedAt h) = Some t) hs =
                 filter (\<lambda>h. getTime (h_completedAt h) = Some t)
                   (map (enhance r b) (localHistoryList b))))) \<and>
      (list_all (\<lambda>item. getTime (lr_completedAt item) = None) (localHistoryList b) \<longrightarrow>
         getQuizHistory r getTime b = Inr (Exactly (map (enhance r b) (localHistoryList b))))) \<and>
   (\<forall>item. h_id (enhance r b item) = lr_id item \<and>
        h_quizId (enhance r b item) = lr_quizId item \<and>
        h_userName (enhance r b item) = lr_userName item \<and>
        h_score (enhance r b item) = lr_score item \<and>
        h_totalQuestions (enhance r b item) = lr_totalQuestions item \<and>
        h_timeTaken (enhance r b item) = lr_timeTaken item \<and>
        h_completedAt (enhance r b item) = lr_completedAt item \<and>
        h_answers (enhance r b item) = Some (lr_answers item) \<and>
        (\<forall>q. getQuizById r (lr_quizId item) b = Inr q \<longrightarrow>
           h_quizTitle (enhance r b item) = title q \<and>
           h_category (enhance r b item) = category q) \<and>
        (\<forall>e. getQuizById r (lr_quizId item) b = Inl e \<longrightarrow>
           h_quizTitle (enhance r b item) = js ''Unknown Quiz'' \<and>
           h_category (enhance r b item) = None))"
proof (intro conjI impI)
  assume "remoteHistory r \<noteq> []"
  then have g: "getQuizHistory r getTime b = Inr (Exactly (map historyFromRow (remoteHistory r)))"
    by (simp add: getQuizHistory_eq)
  have rows: "map historyFromRow (remoteHistory r) =
        map (\<lambda>item.
                    \<lparr> h_id = rr_id item, h_quizId = rr_quiz_id item,
                      h_quizTitle =
                        (case rr_quizzes item of
                           Some (c # cs, cat) \<Rightarrow> c # cs
                         | _ \<Rightarrow> js ''Unknown Quiz''),
                      h_userName =
                        (case rr_user_name item of
                           Some (c # cs) \<Rightarrow> c # cs
                         | _ \<Rightarrow> js ''Anonymous''),
                      h_score = rr_score item, h_totalQuestions = rr_total_questions item,
                      h_timeTaken = rr_time_taken item, h_completedAt = rr_completed_at item,
                      h_category = (case rr_quizzes item of Some (t, cat) \<Rightarrow> cat | None \<Rightarrow> None),
                      h_answers = None \<rparr>) (remoteHistory r)"
    by (rule map_cong [OF refl]) (rule historyFromRow_eq)
  show "getQuizHistory r getTime b =
        Inr (Exactly (map (\<lambda>item.
                    \<lparr> h_id = rr_id item, h_quizId = rr_quiz_id item,
                      h_quizTitle =
                        (case rr_quizzes item of
                           Some (c # cs, cat) \<Rightarrow> c # cs
                         | _ \<Rightarrow> js ''Unknown Quiz''),
                      h_userName =
                        (case rr_user_name item of
                           Some (c # cs) \<Rightarrow> c # cs
                         | _ \<Rightarrow> js ''Anonymous''),
                      h_score = rr_score item, h_totalQuestions = rr_total_questions item,
                      h_timeTaken = rr_time_taken item, h_completedAt = rr_completed_at item,
                      h_category = (case rr_quizzes item of Some (t, cat) \<Rightarrow> cat | None \<Rightarrow> None),
                      h_answers = None \<rparr>) (remoteHistory r)))"
    unfolding g rows by (rule refl)
next
  assume e: "remoteHistory r = []"
  let ?enhanced = "map (enhance r b) (localHistoryList b)"
  have g: "getQuizHistory r getTime b = Inr (js_sort (compareCompletedAt getTime) ?enhanced)"
    using e by (simp add: getQuizHistory_eq)
  show "\<exists>hs. (getQuizHistory r getTime b = Inr (Exactly hs) \<or>
             getQuizHistory r getTime b = Inr (Rearranged hs)) \<and>
            mset hs = mset ?enhanced"
    unfolding g by (rule js_sort_cases [of "compareCompletedAt getTime" ?enhanced]) auto
next
  assume e: "remoteHistory r = []"
    and dates: "list_all (\<lambda>item. getTime (lr_completedAt item) \<noteq> None) (localHistoryList b)"
  let ?enhanced = "map (enhance r b) (localHistoryList b)"
  let ?hs = "sort_key (\<lambda>h. - the (getTime (h_completedAt h))) ?enhanced"
  have d: "\<forall>h\<in>set ?enhanced. getTime (h_completedAt h) \<noteq> None"
    using dates by (simp add: list_all_iff enhance_fields)
  have "getQuizHistory r getTime b = Inr (Exactly ?hs)"
    using e d by (simp add: getQuizHistory_eq js_sort_dates)
  moreover have "mset ?hs = mset ?enhanced" by simp
  moreover have "sorted_wrt (completedNoEarlier getTime) ?hs" using d by (rule sorted_dates)
  moreover have "\<forall>t. filter (\<lambda>h. getTime (h_completedAt h) = Some t) ?hs =
                 filter (\<lambda>h. getTime (h_completedAt h) = Some t) ?enhanced"
    using d by (simp add: stable_dates)
  ultimately show "\<exists>hs. getQuizHistory r getTime b = Inr (Exactly hs) \<and>
            mset hs = mset ?enhanced \<and>
            sorted_wrt (completedNoEarlier getTime) hs \<and>
            (\<forall>t. filter (\<lambda>h. getTime (h_completedAt h) = Some t) hs =
                 filter (\<lambda>h. getTime (h_completedAt h) = Some t) ?enhanced)"
    by blast
next
  assume e: "remoteHistory r = []"
    and none: "list_all (\<lambda>item. getTime (lr_completedAt item) = None) (localHistoryList b)"
  have "\<forall>h\<in>set (map (enhance r b) (localHistoryList b)). getTime (h_completedAt h) = None"
    using none by (simp add: list_all_iff enhance_fields)
  then show "getQuizHistory r getTime b = Inr (Exactly (map (enhance r b) (localHistoryList b)))"
    using e by (simp add: getQuizHistory_eq js_sort_no_dates)
next
  show "(\<forall>item. h_id (enhance r b item) = lr_id item \<and>
        h_quizId (enhance r b item) = lr_quizId item \<and>
        h_userName (enhance r b item) = lr_userName item \<and>
        h_score (enhance r b item) = lr_score item \<and>
        h_totalQuestions (enhance r b item) = lr_totalQuestions item \<and>
        h_timeTaken (enhance r b item) = lr_timeTaken item \<and>
        h_completedAt (enhance r b item) = lr_completedAt item \<and>
        h_answers (enhance r b item) = Some (lr_answers item) \<and>
        (\<forall>q. getQuizById r (lr_quizId item) b = Inr q \<longrightarrow>
           h_quizTitle (enhance r b item) = title q \<and>
           h_category (enhance r b item) = category q) \<and>
        (\<forall>e. getQuizById r (lr_quizId item) b = Inl e \<longrightarrow>
           h_quizTitle (enhance r b item) = js ''Unknown Quiz'' \<and>
           h_category (enhance r b item) = None))"
    by (simp add: enhance_fields enhance_found enhance_not_found)
qed

text \<open>
  The claim as it is worded has the local entries sorted by completion time whatever the
  store holds. Here the remote store cannot be reached and the three stored entries carry the
  time stamps \<open>t1\<close>, \<open>t3\<close>, \<open>t2\<close>, none of which is a date: they come back in their stored
  order. That is no descending order of completion times, of which there are none, and no
  descending order of the time stamps as text either: \<open>t1\<close> comes first and is the least.
\<close>

theorem getQuizHistory_keeps_stored_order:
  "remoteHistory offline = [] \<and>
   map lr_completedAt (localHistoryList withHistory) = [js ''t1'', js ''t3'', js ''t2''] \<and>
   map sampleTime [js ''t1'', js ''t3'', js ''t2''] = [None, None, None] \<and>
   getQuizHistory offline sampleTime withHistory =
     Inr (Exactly (map (enhance offline withHistory) (localHistoryList withHistory))) \<and>
   map h_id (map (enhance offline withHistory) (localHistoryList withHistory)) =
     [js ''h1'', js ''h2'', js ''h3''] \<and>
   \<not> sorted_wrt (completedNoEarlier sampleTime)
       (map (enhance offline withHistory) (localHistoryList withHistory)) \<and>
   map h_completedAt (map (enhance offline withHistory) (localHistoryList withHistory)) =
     [js ''t1'', js ''t3'', js ''t2''] \<and>
   (js ''t1'', js ''t3'') \<in> lexord {(c, d). c < d} \<and>
   (js ''t1'', js ''t2'') \<in> lexord {(c, d). c < d}"
proof -
  have off: "remoteHistory offline = []" by (simp add: remoteHistory_def offline_def)
  have lex: "(js ''t1'', js ''t3'') \<in> lexord {(c, d). c < d}"
    "(js ''t1'', js ''t2'') \<in> lexord {(c, d). c < d}"
    by (simp_all add: js_def)
  have stamps': "map h_completedAt (map (enhance offline withHistory) (localHistoryList withHistory)) =
     [js ''t1'', js ''t3'', js ''t2'']"
    by (simp add: withHistory_list enhance_fields localResult_def sampleResult_def)
  have stamps: "map lr_completedAt (localHistoryList withHistory) = [js ''t1'', js ''t3'', js ''t2'']"
    by (simp add: withHistory_list localResult_def sampleResult_def)
  have nan: "map sampleTime [js ''t1'', js ''t3'', js ''t2''] = [None, None, None]"
    by (simp add: sampleTime_def js_def)
  have ids: "map h_id (map (enhance offline withHistory) (localHistoryList withHistory)) =
      [js ''h1'', js ''h2'', js ''h3'']"
    by (simp add: withHistory_list enhance_fields localResult_def)
  have times: "map (\<lambda>h. sampleTime (h_completedAt h))
        (map (enhance offline withHistory) (localHistoryList withHistory)) = [None, None, None]"
    using stamps nan by (simp add: withHistory_list enhance_fields)
  then have "\<forall>h\<in>set (map (enhance offline withHistory) (localHistoryList withHistory)).
      sampleTime (h_completedAt h) = None"
    by (simp add: withHistory_list)
  then have kept: "getQuizHistory offline sampleTime withHistory =
     Inr (Exactly (map (enhance offline withHistory) (localHistoryList withHistory)))"
    using off by (simp add: getQuizHistory_eq js_sort_no_dates)
  have unsorted: "\<not> sorted_wrt (completedNoEarlier sampleTime)
       (map (enhance offline withHistory) (localHistoryList withHistory))"
    using times by (simp add: withHistory_list completedNoEarlier_def)
  show ?thesis using off stamps nan kept ids unsorted stamps' lex by simp
qed

theorem getQuizHistory_remote_or_sorted_local_witness:
  "remoteHistory offline = [] \<and>
   list_all (\<lambda>item. sampleTime (lr_completedAt item) \<noteq> None) (localHistoryList datedHistory) \<and>
   (\<exists>hs. getQuizHistory offline sampleTime datedHistory = Inr (Exactly hs) \<and>
      map (\<lambda>h. (h_id h, h_quizTitle h, h_completedAt h)) hs =
        [(js ''h2'', js ''Unknown Quiz'', js ''2024-01-03T00:00:00.000Z''),
         (js ''h3'', js ''T'', js ''2024-01-02T00:00:00.000Z''),
         (js ''h1'', js ''T'', js ''2024-01-01T00:00:00.000Z'')] \<and>
      sorted_wrt (completedNoEarlier sampleTime) hs) \<and>
   list_all (\<lambda>item. sampleTime (lr_completedAt item) = None) (localHistoryList withHistory) \<and>
   getQuizHistory offline sampleTime withHistory =
     Inr (Exactly (map (enhance offline withHistory) (localHistoryList withHistory))) \<and>
   getQuizHistory offline sampleTime mixedHistory =
     Inr (Rearranged (map (enhance offline mixedHistory) (localHistoryList mixedHistory))) \<and>
   remoteHistory answering \<noteq> [] \<and>
   getQuizHistory answering sampleTime datedHistory =
     Inr (Exactly [\<lparr> h_id = js ''s0'', h_quizId = js ''r1'', h_quizTitle = js ''R'',
                    h_userName = js ''Anonymous'', h_score = 1, h_totalQuestions = 1,
                    h_timeTaken = 3, h_completedAt = js ''2024-01-02T00:00:00.000Z'',
                    h_category = Some (js ''maths''), h_answers = None \<rparr>])"
proof -
  have off: "remoteHistory offline = []" by (simp add: remoteHistory_def offline_def)
  have ans: "remoteHistory answering \<noteq> []" by (simp add: remoteHistory_def answering_def)
  note t = getQuizHistory_remote_or_sorted_local
  have dates: "list_all (\<lambda>item. sampleTime (lr_completedAt item) \<noteq> None) (localHistoryList datedHistory)"
    by (simp add: datedHistory_list localResult_def sampleResult_def sampleTime_def)
  have none: "list_all (\<lambda>item. sampleTime (lr_completedAt item) = None) (localHistoryList withHistory)"
    by (simp add: withHistory_list localResult_def sampleResult_def sampleTime_def js_def)
  obtain hs where hs: "getQuizHistory offline sampleTime datedHistory = Inr (Exactly hs)"
    and sorted: "sorted_wrt (completedNoEarlier sampleTime) hs"
    using t [of offline sampleTime datedHistory, THEN conjunct2, THEN conjunct1, THEN mp, OF off,
        THEN conjunct2, THEN conjunct1, THEN mp, OF dates]
    by blast
  have "Exactly hs = js_sort (compareCompletedAt sampleTime)
               (map (enhance offline datedHistory) (localHistoryList datedHistory))"
    using hs off by (simp add: getQuizHistory_eq)
  then have "map (\<lambda>h. (h_id h, h_quizTitle h, h_completedAt h)) hs =
        [(js ''h2'', js ''Unknown Quiz'', js ''2024-01-03T00:00:00.000Z''),
         (js ''h3'', js ''T'', js ''2024-01-02T00:00:00.000Z''),
         (js ''h1'', js ''T'', js ''2024-01-01T00:00:00.000Z'')]"
    by (simp add: datedHistory_sorted)
  then have local: "\<exists>hs. getQuizHistory offline sampleTime datedHistory = Inr (Exactly hs) \<and>
      map (\<lambda>h. (h_id h, h_quizTitle h, h_completedAt h)) hs =
        [(js ''h2'', js ''Unknown Quiz'', js ''2024-01-03T00:00:00.000Z''),
         (js ''h3'', js ''T'', js ''2024-01-02T00:00:00.000Z''),
         (js ''h1'', js ''T'', js ''2024-01-01T00:00:00.000Z'')] \<and>
      sorted_wrt (completedNoEarlier sampleTime) hs"
    using hs sorted by (intro exI [of _ hs]) simp
  have kept: "getQuizHistory offline sampleTime withHistory =
     Inr (Exactly (map (enhance offline withHistory) (localHistoryList withHistory)))"
    by (rule t [of offline sampleTime withHistory, THEN conjunct2, THEN conjunct1, THEN mp, OF off,
        THEN conjunct2, THEN conjunct2, THEN mp, OF none])
  have mixed: "getQuizHistory offline sampleTime mixedHistory =
     Inr (Rearranged (map (enhance offline mixedHistory) (localHistoryList mixedHistory)))"
    using off by (simp add: getQuizHistory_eq mixedHistory_unsettled)
  have remote: "getQuizHistory answering sampleTime datedHistory =
     Inr (Exactly [\<lparr> h_id = js ''s0'', h_quizId = js ''r1'', h_quizTitle = js ''R'',
                    h_userName = js ''Anonymous'', h_score = 1, h_totalQuestions = 1,
                    h_timeTaken = 3, h_completedAt = js ''2024-01-02T00:00:00.000Z'',
                    h_category = Some (js ''maths''), h_answers = None \<rparr>])"
    using t [of answering sampleTime datedHistory, THEN conjunct1, THEN mp, OF ans]
    by (simp add: remoteHistory_def answering_def) (simp add: js_def)
  show ?thesis using off dates local none kept mixed ans remote by simp
qed

section \<open>Beyond the claims\<close>

text \<open>
  A text written block by block: at least five plain lines to a block, the lines of a block
  joined by newlines, the blocks by one empty line. The parser finds exactly these blocks and
  these lines, and returns one question for each block, in order: its text is the first line
  without its number, and every option line that carries no marker is returned without its
  label.
\<close>

theorem text_written_block_by_block:
  assumes ne: "lss \<noteq> []"
    and plain: "\<forall>ls\<in>set lss. 5 \<le> length ls \<and> (\<forall>l\<in>set ls. plainLine l)"
  shows "questionBlocks (joinBlocks (map joinLines lss)) = map joinLines lss \<and>
         map blockLines (questionBlocks (joinBlocks (map joinLines lss))) = lss \<and>
         parsingError (parseQuestionsFromText now (page (joinBlocks (map joinLines lss)))) = None \<and>
         length (questions (parseQuestionsFromText now (page (joinBlocks (map joinLines lss))))) =
           length lss \<and>
         (\<forall>i<length lss.
            qtext (questions (parseQuestionsFromText now (page (joinBlocks (map joinLines lss)))) ! i) =
              stripQuestionNumber (lss ! i ! 0) \<and>
            (\<forall>j<4. \<not> hasMarker (stripOptionLabel (lss ! i ! (j + 1))) \<longrightarrow>
               options (questions (parseQuestionsFromText now (page (joinBlocks (map joinLines lss)))) ! i) ! j =
                 stripOptionLabel (lss ! i ! (j + 1))))"
proof -
  let ?t = "joinBlocks (map joinLines lss)"
  let ?s = "page ?t"
  have t: "bulkText ?s = ?t" by (simp add: page_def)
  have bs: "questionBlocks ?t = map joinLines lss" using ne plain by (rule blocks_of_lines(1))
  have ls: "map blockLines (map joinLines lss) = lss" using ne plain by (rule blocks_of_lines(2))
  have line: "\<And>i. i < length lss \<Longrightarrow> blockLines (questionBlocks ?t ! i) = lss ! i"
  proof -
    fix i assume i: "i < length lss"
    then have "blockLines (map joinLines lss ! i) = map blockLines (map joinLines lss) ! i"
      by (simp del: map_map)
    then show "blockLines (questionBlocks ?t ! i) = lss ! i" by (simp only: bs ls)
  qed
  have ne': "questionBlocks (bulkText ?s) \<noteq> []" using ne by (simp add: t bs)
  have five: "\<forall>b\<in>set (questionBlocks (bulkText ?s)). 5 \<le> length (blockLines b)"
  proof
    fix b assume "b \<in> set (questionBlocks (bulkText ?s))"
    then obtain i where i: "i < length lss" "b = questionBlocks ?t ! i"
      by (metis t bs in_set_conv_nth length_map)
    then show "5 \<le> length (blockLines b)" using line [OF i(1)] plain by simp
  qed
  obtain qs where s': "parseQuestionsFromText now ?s =
        ?s\<lparr> parsingError := None, questions := qs, showParsingPreview := True \<rparr>"
    and len: "length qs = length (questionBlocks (bulkText ?s))"
    and each: "\<forall>i<length qs. parseBlock now i (questionBlocks (bulkText ?s) ! i) = Inr (qs ! i)"
    using parseQuestionsFromText_ok [OF ne' five] by blast
  have n: "length qs = length lss" using len by (simp add: t bs)
  have "\<And>i. i < length lss \<Longrightarrow>
      qtext (qs ! i) = stripQuestionNumber (lss ! i ! 0) \<and>
      (\<forall>j<4. \<not> hasMarker (stripOptionLabel (lss ! i ! (j + 1))) \<longrightarrow>
           options (qs ! i) ! j = stripOptionLabel (lss ! i ! (j + 1)))"
  proof -
    fix i assume i: "i < length lss"
    have l: "blockLines (questionBlocks ?t ! i) = lss ! i" using i by (rule line)
    have "5 \<le> length (blockLines (questionBlocks ?t ! i))" using l plain i by simp
    moreover have "parseBlock now i (questionBlocks ?t ! i) = Inr (qs ! i)"
      using each i n by (simp add: t)
    ultimately show "qtext (qs ! i) = stripQuestionNumber (lss ! i ! 0) \<and>
      (\<forall>j<4. \<not> hasMarker (stripOptionLabel (lss ! i ! (j + 1))) \<longrightarrow>
           options (qs ! i) ! j = stripOptionLabel (lss ! i ! (j + 1)))"
      using parseBlock_spec [of "questionBlocks ?t ! i" now i "qs ! i"] by (simp add: l)
  qed
  then show ?thesis using s' n bs ls by simp
qed

theorem text_written_block_by_block_witness:
  "twoQuestionsLines \<noteq> [] \<and>
   list_all (\<lambda>ls. 5 \<le> length ls \<and> list_all plainLine ls) twoQuestionsLines \<and>
   joinBlocks (map joinLines twoQuestionsLines) = twoQuestions \<and>
   map blockLines (questionBlocks twoQuestions) = twoQuestionsLines \<and>
   length (questions (parseQuestionsFromText (\<lambda>_. 0) (page twoQuestions))) = 2 \<and>
   qtext (questions (parseQuestionsFromText (\<lambda>_. 0) (page twoQuestions)) ! 1) = js ''R''"
proof -
  have ne: "twoQuestionsLines \<noteq> []" by (simp add: twoQuestionsLines_def)
  note w = text_written_block_by_block [OF ne twoQuestionsLines_plain, of "\<lambda>_. 0",
      unfolded twoQuestionsLines_text]
  have "map blockLines (questionBlocks twoQuestions) = twoQuestionsLines"
    by (rule w [THEN conjunct2, THEN conjunct1])
  moreover have n: "length (questions (parseQuestionsFromText (\<lambda>_. 0) (page twoQuestions))) = 2"
    using w [THEN conjunct2, THEN conjunct2, THEN conjunct2, THEN conjunct1]
    by (simp add: twoQuestionsLines_def)
  moreover have "1 < length twoQuestionsLines" by (simp add: twoQuestionsLines_def)
  then have "qtext (questions (parseQuestionsFromText (\<lambda>_. 0) (page twoQuestions)) ! 1) =
      stripQuestionNumber (twoQuestionsLines ! 1 ! 0)"
    using w [THEN conjunct2, THEN conjunct2, THEN conjunct2, THEN conjunct2, THEN spec, of 1]
    by simp
  then have "qtext (questions (parseQuestionsFromText (\<lambda>_. 0) (page twoQuestions)) ! 1) = js ''R''"
    by (simp add: twoQuestionsLines_def stripQuestionNumber_def isDigit_def js_def)
  ultimately show ?thesis
    using ne twoQuestionsLines_plain twoQuestionsLines_text by (simp add: list_all_iff)
qed

text \<open>
  The separator of the blocks. At every position, \<open>matchSep\<close> finds a match of
  \<open>/\n\s*\n+/\<close> exactly when the backtracking matcher does, and the match it finds has the
  same length.
\<close>

theorem matchSep_regex: "matchHere separator s = map_option (\<lambda>n. drop n s) (matchSep s)"
proof (cases s)
  case Nil
  then show ?thesis by (simp add: separator_def matchSep_def)
next
  case (Cons c rest)
  then show ?thesis
    by (simp add: separator_def matchSep_def many0_spaces_then_nl Let_def)
qed

theorem matchSep_regex_witness:
  "matchHere separator [10, 32, 10, 10, 32, 98] = Some [32, 98] \<and>
   matchSep [10, 32, 10, 10, 32, 98] = Some 4 \<and>
   matchHere separator [10, 32, 98] = None \<and> matchSep [10, 32, 98] = None"
proof -
  have a: "matchSep [10, 32, 10, 10, 32, 98] = Some 4" and b: "matchSep [10, 32, 98] = None"
    by (simp_all add: matchSep_def NL_def isSpace_def)
  show ?thesis
    using matchSep_regex [of "[10, 32, 10, 10, 32, 98]"] matchSep_regex [of "[10, 32, 98]"]
    by (simp add: a b)
qed

text \<open>
  The remote path of \<open>createQuiz\<close>. When the quiz row is created and the insert of the
  questions resolves, with or without an error, \<open>createQuiz\<close> returns the id of the row and
  leaves the local storage alone: a failed insert of the questions does not fail the call.
\<close>

theorem createQuiz_remote:
  assumes "auth_getUser r = Inr u"
    and "insert_quiz r (quizData quiz) = Resolved (Some i) None"
    and "insert_questions r (questionsToInsert i (newQuestions quiz)) = Resolved d e"
  shows "createQuiz r newId now quiz b = (Inr i, b)"
  using assms by (simp add: createQuiz_def createQuizRemote_def orThrow_def)

theorem createQuiz_remote_witness:
  "auth_getUser answering = Inr None \<and>
   insert_quiz answering (quizData sampleQuiz) = Resolved (Some (js ''r2'')) None \<and>
   insert_questions answering (questionsToInsert (js ''r2'') (newQuestions sampleQuiz)) =
     Resolved None None \<and>
   createQuiz answering (js ''u1'') (\<lambda>_. js ''t0'') sampleQuiz emptyBrowser =
     (Inr (js ''r2''), emptyBrowser)"
proof -
  have a: "auth_getUser answering = Inr None"
    and q: "insert_quiz answering (quizData sampleQuiz) = Resolved (Some (js ''r2'')) None"
    and qs: "insert_questions answering (questionsToInsert (js ''r2'') (newQuestions sampleQuiz)) =
       Resolved None None"
    by (simp_all add: answering_def)
  show ?thesis using a q qs createQuiz_remote [OF a q qs] by simp
qed

end
